(* ===== verification/Prelude.thy ===== *)
theory Prelude
  imports Main "HOL-Library.Word" "HOL-Library.Char_ord" "HOL-Library.List_Lexorder"
begin

text \<open>
  What the component theories share: exceptions as values, machine integers, decimal
  printing (\<^verbatim>\<open>std::to_string\<close>), C strings, and the lemmas and lemma collections the
  component proofs use.
\<close>

section \<open>Lemma collections\<close>

named_theorems frame_simps \<open>the fields of the state that an operation leaves alone\<close>
named_theorems after_intros \<open>what holds of the state after a call\<close>

section \<open>Exceptions\<close>

text \<open>
  A C++ function that may throw returns a value of the sum type \<open>exn + 'a\<close>.  The
  constructors are the exception classes the handlers of the source tell apart:
  \<^verbatim>\<open>SQLite::Exception\<close> (with the reason of the failure), \<^verbatim>\<open>nlohmann::json::exception\<close>
  (with the documented number of the error), \<^verbatim>\<open>std::invalid_argument\<close>,
  \<^verbatim>\<open>std::out_of_range\<close>, \<^verbatim>\<open>std::runtime_error\<close>, \<^verbatim>\<open>std::system_error\<close>
  (with its error number), \<^verbatim>\<open>std::filesystem::filesystem_error\<close>
  and \<^verbatim>\<open>YAML::Exception\<close>.
\<close>

datatype sql_error =
  EngineFailure | NoSuchTable | PrimaryKeyConstraint | CheckConstraint | ForeignKeyConstraint

datatype exn =
    SqliteException sql_error
  | JsonException nat
  | InvalidArgument
  | OutOfRange
  | RuntimeError string
  | SystemError nat string
  | FilesystemError
  | YamlException

type_synonym 'a res = "exn + 'a"

definition is_json_exception :: "exn \<Rightarrow> bool" where
  "is_json_exception e = (case e of JsonException _ \<Rightarrow> True | _ \<Rightarrow> False)"

text \<open>Sequencing of two calls where the second does not run when the first one throws.\<close>

definition bind_res :: "'a res \<Rightarrow> ('a \<Rightarrow> 'b res) \<Rightarrow> 'b res" where
  "bind_res r f = (case r of Inl e \<Rightarrow> Inl e | Inr x \<Rightarrow> f x)"

text \<open>
  The same for calls that also change the state.  A C++ exception leaves behind what was
  done before it was thrown, so the state is returned with the exception too.
  \<open>catch_st\<close> is a \<^verbatim>\<open>try\<close> block with its handler.
\<close>

definition seq_st :: "'a res \<times> 's \<Rightarrow> ('a \<Rightarrow> 's \<Rightarrow> 'b res \<times> 's) \<Rightarrow> 'b res \<times> 's" where
  "seq_st m f = (case m of (Inl e, s) \<Rightarrow> (Inl e, s) | (Inr x, s) \<Rightarrow> f x s)"

definition catch_st :: "'a res \<times> 's \<Rightarrow> (exn \<Rightarrow> 's \<Rightarrow> 'a res \<times> 's) \<Rightarrow> 'a res \<times> 's" where
  "catch_st m h = (case m of (Inl e, s) \<Rightarrow> h e s | (Inr x, s) \<Rightarrow> (Inr x, s))"

section \<open>Machine integers\<close>

text \<open>
  The source's \<^verbatim>\<open>int\<close> has 32 bits.  \<open>to_int32\<close> is the conversion of a wider integer
  to it, which keeps the low 32 bits.
\<close>

definition to_int32 :: "int \<Rightarrow> int" where
  "to_int32 k = signed_take_bit 31 k"

definition is_int32 :: "int \<Rightarrow> bool" where
  "is_int32 k \<longleftrightarrow> - (2 ^ 31) \<le> k \<and> k < 2 ^ 31"

section \<open>Decimal printing\<close>

definition digit_char :: "nat \<Rightarrow> char" where
  "digit_char d = char_of (48 + d)"

fun nat_to_string :: "nat \<Rightarrow> string" where
  "nat_to_string n =
     (if n < 10 then [digit_char n]
      else nat_to_string (n div 10) @ [digit_char (n mod 10)])"

declare nat_to_string.simps [simp del]

definition to_string :: "int \<Rightarrow> string" where
  "to_string k = (if k < 0 then CHR ''-'' # nat_to_string (nat (- k)) else nat_to_string (nat k))"

text \<open>Two-digit and four-digit fields of \<^verbatim>\<open>strftime\<close>.\<close>

definition pad2 :: "nat \<Rightarrow> string" where
  "pad2 n = (if n < 10 then CHR ''0'' # nat_to_string n else nat_to_string n)"

section \<open>Strings\<close>

text \<open>A chain of \<^verbatim>\<open>+\<close> between strings, kept folded by the simplifier, and the quote character.\<close>

definition strcat :: "string list \<Rightarrow> string" where
  "strcat parts = concat parts"

abbreviation quote :: string where
  "quote \<equiv> [CHR 0x27]"

text \<open>The part of a byte buffer in front of its first NUL: \<^verbatim>\<open>std::string(const char *)\<close>.\<close>

definition c_string :: "string \<Rightarrow> string" where
  "c_string bs = takeWhile (\<lambda>c. c \<noteq> CHR 0x00) bs"

definition starts_with :: "string \<Rightarrow> string \<Rightarrow> bool" where
  "starts_with s p = (take (length p) s = p)"

text \<open>\<open>after I m\<close>: the state in which the call \<open>m\<close> returns or throws satisfies \<open>I\<close>.\<close>

definition after :: "('s \<Rightarrow> bool) \<Rightarrow> 'a \<times> 's \<Rightarrow> bool" where
  "after I m = I (snd m)"

section \<open>Lemmas\<close>

lemma bind_res_simps [simp]:
  "bind_res (Inl e) f = Inl e"
  "bind_res (Inr x) f = f x"
  by (simp_all add: bind_res_def)

lemma seq_st_simps [simp]:
  "seq_st (Inl e, s) f = (Inl e, s)"
  "seq_st (Inr x, s) f = f x s"
  by (simp_all add: seq_st_def)

lemma catch_st_simps [simp]:
  "catch_st (Inl e, s) h = h e s"
  "catch_st (Inr x, s) h = (Inr x, s)"
  by (simp_all add: catch_st_def)

lemma seq_st_split:
  "P (seq_st m f) \<longleftrightarrow>
     (\<forall>e s. m = (Inl e, s) \<longrightarrow> P (Inl e, s)) \<and> (\<forall>x s. m = (Inr x, s) \<longrightarrow> P (f x s))"
  by (cases m; cases "fst m") auto

lemma seq_st_split_asm:
  "P (seq_st m f) \<longleftrightarrow>
     \<not> ((\<exists>e s. m = (Inl e, s) \<and> \<not> P (Inl e, s)) \<or> (\<exists>x s. m = (Inr x, s) \<and> \<not> P (f x s)))"
  by (cases m; cases "fst m") auto

lemma catch_st_split:
  "P (catch_st m h) \<longleftrightarrow>
     (\<forall>e s. m = (Inl e, s) \<longrightarrow> P (h e s)) \<and> (\<forall>x s. m = (Inr x, s) \<longrightarrow> P (Inr x, s))"
  by (cases m; cases "fst m") auto

lemma catch_st_split_asm:
  "P (catch_st m h) \<longleftrightarrow>
     \<not> ((\<exists>e s. m = (Inl e, s) \<and> \<not> P (h e s)) \<or> (\<exists>x s. m = (Inr x, s) \<and> \<not> P (Inr x, s)))"
  by (cases m; cases "fst m") auto

lemmas st_splits = seq_st_split seq_st_split_asm catch_st_split catch_st_split_asm

text \<open>
  What holds of the state after a sequence of calls: the rules the invariant proofs of the
  components go through.
\<close>

lemma after_iff: "after I (r, s) \<longleftrightarrow> I s"
  by (simp add: after_def)

lemma after_of: "I (snd m) \<Longrightarrow> after I m"
  by (simp add: after_def)

lemma afterI: "(\<And>r s'. m = (r, s') \<Longrightarrow> I s') \<Longrightarrow> after I m"
  by (cases m) (simp add: after_def)

lemma after_pair [after_intros]: "I s \<Longrightarrow> after I (r, s)"
  by (simp add: after_def)

lemma after_seq [after_intros]:
  "after I m \<Longrightarrow> (\<And>x s. m = (Inr x, s) \<Longrightarrow> I s \<Longrightarrow> after I (f x s)) \<Longrightarrow> after I (seq_st m f)"
  by (auto simp: after_def split: st_splits)

lemma after_catch [after_intros]:
  "after I m \<Longrightarrow> (\<And>e s. m = (Inl e, s) \<Longrightarrow> I s \<Longrightarrow> after I (h e s)) \<Longrightarrow> after I (catch_st m h)"
  by (auto simp: after_def split: st_splits)

lemma after_if [after_intros]:
  "(b \<Longrightarrow> after I m) \<Longrightarrow> (\<not> b \<Longrightarrow> after I m') \<Longrightarrow> after I (if b then m else m')"
  by simp

lemma after_let [after_intros]: "after I (f x) \<Longrightarrow> after I (Let x f)"
  by simp

lemma after_option [after_intros]:
  "(x = None \<Longrightarrow> after I m) \<Longrightarrow> (\<And>y. x = Some y \<Longrightarrow> after I (f y)) \<Longrightarrow>
     after I (case x of None \<Rightarrow> m | Some y \<Rightarrow> f y)"
  by (cases x) auto

lemma after_sum [after_intros]:
  "(\<And>y. x = Inl y \<Longrightarrow> after I (f y)) \<Longrightarrow> (\<And>y. x = Inr y \<Longrightarrow> after I (g y)) \<Longrightarrow>
     after I (case x of Inl y \<Rightarrow> f y | Inr y \<Rightarrow> g y)"
  by (cases x) auto

lemma after_prod [after_intros]:
  "(\<And>a b. x = (a, b) \<Longrightarrow> after I (f a b)) \<Longrightarrow> after I (case x of (a, b) \<Rightarrow> f a b)"
  by (cases x) auto

lemma is_json_exception_simps [simp]:
  "is_json_exception (JsonException n)"
  "\<not> is_json_exception (SqliteException r)"
  "\<not> is_json_exception InvalidArgument"
  "\<not> is_json_exception OutOfRange"
  "\<not> is_json_exception (RuntimeError m)"
  "\<not> is_json_exception (SystemError n m)"
  "\<not> is_json_exception FilesystemError"
  "\<not> is_json_exception YamlException"
  by (simp_all add: is_json_exception_def)

lemma to_int32_id [simp]: "is_int32 k \<Longrightarrow> to_int32 k = k"
  by (simp add: to_int32_def is_int32_def signed_take_bit_int_eq_self)

lemma is_int32_small [simp]: "is_int32 0" "is_int32 1" "is_int32 3"
  by (simp_all add: is_int32_def)

lemma to_int32_range: "is_int32 (to_int32 k)"
proof -
  have "- (2 ^ 31) \<le> signed_take_bit 31 k" and "signed_take_bit 31 k < 2 ^ 31"
    by (rule signed_take_bit_int_greater_eq_minus_exp, rule signed_take_bit_int_less_exp)
  then show ?thesis by (simp add: to_int32_def is_int32_def)
qed

lemma to_int32_wrap: "2 ^ 31 \<le> k \<Longrightarrow> k < 2 ^ 32 \<Longrightarrow> to_int32 k = k - 2 ^ 32"
proof -
  assume b: "2 ^ 31 \<le> k" "k < 2 ^ 32"
  have "signed_take_bit 31 k = signed_take_bit 31 (k - 2 ^ 32)"
    by (simp add: signed_take_bit_eq_iff_take_bit_eq take_bit_eq_mod)
  with b show ?thesis by (simp add: to_int32_def signed_take_bit_int_eq_self)
qed

lemma c_string_no_nul: "CHR 0x00 \<notin> set s \<Longrightarrow> c_string s = s"
  by (simp add: c_string_def takeWhile_eq_all_conv) metis

lemma starts_with_append [simp]: "starts_with (p @ s) p"
  by (simp add: starts_with_def)

lemma find_Some_mem: "find p xs = Some x \<Longrightarrow> x \<in> set xs \<and> p x"
  by (auto simp: find_Some_iff in_set_conv_nth)

lemma find_map_same:
  "(\<And>x. p (f x) = p x) \<Longrightarrow> find p (map f xs) = map_option f (find p xs)"
  by (induction xs) auto

lemma find_append: "find p (xs @ ys) = (case find p xs of None \<Rightarrow> find p ys | Some x \<Rightarrow> Some x)"
  by (induction xs) auto

lemma find_key_None: "find (\<lambda>r. k r = x) xs = None \<longleftrightarrow> x \<notin> k ` set xs"
  by (induction xs) auto

lemma find_key_unique:
  "distinct (map k xs) \<Longrightarrow> r \<in> set xs \<Longrightarrow> find (\<lambda>r'. k r' = k r) xs = Some r"
  by (induction xs) (auto simp: image_iff)

lemma count_key_distinct:
  "distinct (map k xs) \<Longrightarrow> length (filter (\<lambda>r. k r = x) xs) = (if x \<in> k ` set xs then 1 else 0)"
  by (induction xs) (auto simp: filter_empty_conv)

lemma map_of_filter_key:
  "map_of (filter (\<lambda>p. fst p \<noteq> k) xs) = (map_of xs)(k := None)"
  by (induction xs) (auto simp: fun_eq_iff)

end
