(* ===== verification/Doubles.thy ===== *)
theory Doubles
  imports Complex_Main Decimal "HOL-Library.Log_Nat"
begin

text \<open>
  The C type \<^verbatim>\<open>double\<close> (IEEE 754 binary64, rounding to nearest) as far as cJSON uses it:
  finite values as rational numbers, rounding, \<^verbatim>\<open>strtod\<close> on texts of digits, signs, points
  and exponents, and \<^verbatim>\<open>printf\<close> with a \<^verbatim>\<open>%g\<close> conversion.  The sign of zero is not kept.
\<close>

datatype double = Finite rat | Infinite bool

section \<open>Rounding\<close>

definition round_half_even :: "rat \<Rightarrow> int" where
  "round_half_even q =
     (let f = \<lfloor>q\<rfloor>; d = q - of_int f
      in if d < 1 / 2 then f else if 1 / 2 < d then f + 1 else if even f then f else f + 1)"

text \<open>The exponent of a positive number to base 2.\<close>

definition floor_log2 :: "rat \<Rightarrow> int" where
  "floor_log2 q =
     (let (n, d) = quotient_of q; k = bitlen n - bitlen d
      in if 2 powi k \<le> q then k else k - 1)"

text \<open>
  The nearest double: the significand has 53 bits, the smallest positive double is
  \<open>2 powi (-1074)\<close>, and what rounds to \<open>2 powi 1024\<close> is infinite.
\<close>

definition to_double :: "rat \<Rightarrow> double" where
  "to_double q =
     (if q = 0 then Finite 0
      else
        (let ulp = 2 powi (max (floor_log2 \<bar>q\<bar> - 52) (-1074));
             v = of_int (round_half_even (q / ulp)) * ulp
         in if 2 powi 1024 \<le> \<bar>v\<bar> then Infinite (q < 0) else Finite v))"

text \<open>Truncation, as in the conversion \<^verbatim>\<open>(int)number\<close>.\<close>

definition truncate :: "rat \<Rightarrow> int" where
  "truncate q = (if q < 0 then \<lceil>q\<rceil> else \<lfloor>q\<rfloor>)"

section \<open>strtod\<close>

definition split_exponent :: "string \<Rightarrow> int \<times> nat" where
  "split_exponent t =
     (case t of
        [] \<Rightarrow> (0, 0)
      | c # u \<Rightarrow>
          if c = CHR ''e'' \<or> c = CHR ''E'' then
            (let (neg, v) = split_sign u; ds = takeWhile is_digit v
             in if ds = [] then (0, 0)
                else (if neg then - int (digits_value ds) else int (digits_value ds),
                      1 + (length u - length v) + length ds))
          else (0, 0))"

text \<open>The value and the number of characters that were read; \<open>None\<close> when there is no number.\<close>

definition strtod :: "string \<Rightarrow> (double \<times> nat) option" where
  "strtod t =
     (let (neg, u) = split_sign t;
          ds = takeWhile is_digit u;
          v = dropWhile is_digit u;
          (fs, w) = (case v of
             c # v' \<Rightarrow> if c = CHR ''.'' then (takeWhile is_digit v', dropWhile is_digit v') else ([], v)
           | [] \<Rightarrow> ([], v));
          (e, k) = split_exponent w;
          m = (of_nat (digits_value (ds @ fs)) :: rat) * 10 powi (e - int (length fs))
      in if ds @ fs = [] then None
         else Some (to_double (if neg then - m else m), length t - length w + k))"

section \<open>printf\<close>

text \<open>The exponent of a positive number to base 10.\<close>

definition floor_log10 :: "rat \<Rightarrow> int" where
  "floor_log10 q =
     (if 1 \<le> q then int (length (nat_to_string (nat \<lfloor>q\<rfloor>))) - 1
      else - int (length (nat_to_string (nat \<lceil>1 / q\<rceil> - 1))))"

definition drop_trailing_zeros :: "string \<Rightarrow> string" where
  "drop_trailing_zeros t = rev (dropWhile (\<lambda>c. c = CHR ''0'') (rev t))"

definition with_point :: "string \<Rightarrow> string \<Rightarrow> string" where
  "with_point ds fs = (let gs = drop_trailing_zeros fs in if gs = [] then ds else ds @ CHR ''.'' # gs)"

text \<open>The conversion \<^verbatim>\<open>%1.pg\<close> of a number that is not zero.\<close>

definition print_g :: "nat \<Rightarrow> rat \<Rightarrow> string" where
  "print_g p q =
     (let a = \<bar>q\<bar>;
          x0 = floor_log10 a;
          n0 = nat (round_half_even (a / 10 powi (x0 - int p + 1)));
          (x, n) = (if n0 = 10 ^ p then (x0 + 1, 10 ^ (p - 1)) else (x0, n0));
          ds = nat_to_string n;
          body =
            (if x < -4 \<or> int p \<le> x then
               with_point (take 1 ds) (drop 1 ds) @ CHR ''e'' # (if x < 0 then CHR ''-'' else CHR ''+'') # pad2 (nat \<bar>x\<bar>)
             else if 0 \<le> x then with_point (take (nat x + 1) ds) (drop (nat x + 1) ds)
             else with_point [CHR ''0''] (replicate (nat (- x) - 1) (CHR ''0'') @ ds))
      in (if q < 0 then [CHR ''-''] else []) @ body)"

section \<open>Lemmas\<close>

lemma round_half_even_int [simp]: "round_half_even (of_int k) = k"
  by (simp add: round_half_even_def)

text \<open>Integers of up to 53 bits are doubles.\<close>

lemma floor_log2_int:
  assumes "0 < k"
  shows "floor_log2 (of_int k) = bitlen k - 1"
proof -
  have "bitlen k \<ge> 1" using assms by (auto simp: bitlen_alt_def)
  then have "(2 :: rat) powi (bitlen k - 1) = of_int (2 ^ nat (bitlen k - 1))" by (simp add: power_int_def)
  moreover have "2 ^ nat (bitlen k - 1) \<le> k" using bitlen_bounds [OF assms] by simp
  ultimately have "(2 :: rat) powi (bitlen k - 1) \<le> of_int k" by (simp only: of_int_le_iff)
  moreover have "bitlen 1 = 1" by (simp add: bitlen_alt_def)
  ultimately show ?thesis by (simp add: floor_log2_def)
qed

lemma to_double_int:
  assumes "\<bar>k\<bar> < 2 ^ 53"
  shows "to_double (of_int k) = Finite (of_int k)"
proof (cases "k = 0")
  case False
  let ?e = "bitlen \<bar>k\<bar> - 1"
  have pos: "0 < \<bar>k\<bar>" using False by simp
  have fl: "floor_log2 \<bar>of_int k\<bar> = ?e" using floor_log2_int [OF pos] by simp
  have "bitlen \<bar>k\<bar> \<le> 53" using assms pos by (simp add: bitlen_le_iff_power)
  then have e: "0 \<le> ?e" "?e \<le> 52" using pos by (auto simp: bitlen_alt_def)
  let ?m = "k * 2 ^ nat (52 - ?e)"
  have "(2 :: rat) powi (?e - 52) = inverse (2 ^ nat (52 - ?e))" using e power_int_minus [of "2 :: rat" "52 - ?e"]
    by (simp add: power_int_def)
  then have ulp: "(of_int k :: rat) / 2 powi (?e - 52) = of_int ?m" "of_int ?m * (2 :: rat) powi (?e - 52) = of_int k"
    by (simp_all add: divide_inverse)
  have "max (?e - 52) (-1074) = ?e - 52" using e by simp
  then have v: "of_int (round_half_even (of_int k / 2 powi max (floor_log2 \<bar>of_int k\<bar> - 52) (-1074))) *
      (2 :: rat) powi max (floor_log2 \<bar>of_int k\<bar> - 52) (-1074) = of_int k"
    by (simp only: fl ulp round_half_even_int)
  have "\<not> (2 :: rat) powi 1024 \<le> \<bar>of_int k\<bar>"
  proof -
    have "(2 :: rat) powi 1024 = of_int (2 ^ 1024)" by (simp add: power_int_def)
    moreover have "\<not> (2 :: int) ^ 1024 \<le> \<bar>k\<bar>" using assms by simp
    ultimately show ?thesis by (metis of_int_abs of_int_le_iff)
  qed
  then show ?thesis unfolding to_double_def Let_def v using False by simp
qed (simp add: to_double_def)

end
