(* ===== verification/CJson.thy ===== *)
theory CJson
  imports Doubles
begin

text \<open>
  The library cJSON (src/external/cJSON/cJSON.c), which the client uses: items, the parser,
  the printer and the accessors.  An item carries its children as a list (the source links
  them with \<^verbatim>\<open>next\<close> and \<^verbatim>\<open>prev\<close>); a C string is the list of its bytes without the
  terminator.  Memory is always available, and texts are shorter than \<^verbatim>\<open>INT_MAX\<close>.
\<close>

unbundle bit_operations_syntax

datatype cJSON_type =
  cJSON_Invalid | cJSON_False | cJSON_True | cJSON_NULL | cJSON_Number | cJSON_String | cJSON_Array | cJSON_Object
| cJSON_Raw

datatype cJSON =
  Item (item_type: cJSON_type) (valuestring: "string option") (valueint: int) (valuedouble: double)
    (item_string: "string option") (children: "cJSON list")

definition cJSON_New_Item :: cJSON where
  "cJSON_New_Item = Item cJSON_Invalid None 0 (Finite 0) None []"

definition CJSON_NESTING_LIMIT :: nat where "CJSON_NESTING_LIMIT = 1000"

definition INT_MAX :: int where "INT_MAX = 2147483647"

definition INT_MIN :: int where "INT_MIN = -2147483648"

section \<open>Items\<close>

text \<open>\<^verbatim>\<open>tolower\<close> in the C locale.\<close>

definition to_lower :: "char \<Rightarrow> char" where
  "to_lower c = (if 65 \<le> (of_char c :: nat) \<and> (of_char c :: nat) \<le> 90 then char_of ((of_char c :: nat) + 32) else c)"

definition case_insensitive_equal :: "string \<Rightarrow> string \<Rightarrow> bool" where
  "case_insensitive_equal s t \<longleftrightarrow> map to_lower s = map to_lower t"

definition cJSON_GetObjectItem :: "cJSON \<Rightarrow> string \<Rightarrow> cJSON option" where
  "cJSON_GetObjectItem object name =
     find (\<lambda>c. case item_string c of None \<Rightarrow> False | Some s \<Rightarrow> case_insensitive_equal name s) (children object)"

definition cJSON_GetArraySize :: "cJSON \<Rightarrow> nat" where
  "cJSON_GetArraySize array = length (children array)"

definition cJSON_IsString :: "cJSON \<Rightarrow> bool" where
  "cJSON_IsString item \<longleftrightarrow> item_type item = cJSON_String"

definition cJSON_IsArray :: "cJSON \<Rightarrow> bool" where
  "cJSON_IsArray item \<longleftrightarrow> item_type item = cJSON_Array"

text \<open>The integer next to a double, saturated.\<close>

definition saturate :: "double \<Rightarrow> int" where
  "saturate d =
     (case d of
        Infinite neg \<Rightarrow> if neg then INT_MIN else INT_MAX
      | Finite q \<Rightarrow>
          if of_int INT_MAX \<le> q then INT_MAX else if q \<le> of_int INT_MIN then INT_MIN else truncate q)"

definition cJSON_CreateObject :: cJSON where
  "cJSON_CreateObject = Item cJSON_Object None 0 (Finite 0) None []"

definition cJSON_CreateString :: "string \<Rightarrow> cJSON" where
  "cJSON_CreateString s = Item cJSON_String (Some s) 0 (Finite 0) None []"

definition cJSON_CreateNumber :: "double \<Rightarrow> cJSON" where
  "cJSON_CreateNumber num = Item cJSON_Number None (saturate num) num None []"

definition with_string :: "string option \<Rightarrow> cJSON \<Rightarrow> cJSON" where
  "with_string k x = Item (item_type x) (valuestring x) (valueint x) (valuedouble x) k (children x)"

definition cJSON_AddItemToObject :: "cJSON \<Rightarrow> string \<Rightarrow> cJSON \<Rightarrow> cJSON" where
  "cJSON_AddItemToObject object name x =
     Item (item_type object) (valuestring object) (valueint object) (valuedouble object) (item_string object)
       (children object @ [with_string (Some name) x])"

definition cJSON_AddStringToObject :: "cJSON \<Rightarrow> string \<Rightarrow> string \<Rightarrow> cJSON" where
  "cJSON_AddStringToObject object name s = cJSON_AddItemToObject object name (cJSON_CreateString s)"

definition cJSON_AddNumberToObject :: "cJSON \<Rightarrow> string \<Rightarrow> double \<Rightarrow> cJSON" where
  "cJSON_AddNumberToObject object name num = cJSON_AddItemToObject object name (cJSON_CreateNumber num)"

section \<open>Printing\<close>

text \<open>An infinite difference is not greater than an infinite bound; the difference of two equal infinities is a NaN.\<close>

definition compare_double :: "double \<Rightarrow> double \<Rightarrow> bool" where
  "compare_double a b =
     (case (a, b) of
        (Finite x, Finite y) \<Rightarrow>
          (case (to_double \<bar>x - y\<bar>, to_double (max \<bar>x\<bar> \<bar>y\<bar> * 2 powi (-52))) of
             (Finite u, Finite v) \<Rightarrow> u \<le> v
           | (Infinite _, Finite _) \<Rightarrow> False
           | (_, Infinite _) \<Rightarrow> True)
      | (Infinite s, Infinite t) \<Rightarrow> s \<noteq> t
      | _ \<Rightarrow> True)"

definition print_number :: "cJSON \<Rightarrow> string" where
  "print_number item =
     (case valuedouble item of
        Infinite _ \<Rightarrow> ''null''
      | Finite d \<Rightarrow>
          if d = of_int (valueint item) then to_string (valueint item)
          else
            (let t = print_g 15 d
             in case strtod t of
                  None \<Rightarrow> print_g 17 d
                | Some (test, _) \<Rightarrow> if compare_double test (Finite d) then t else print_g 17 d))"

definition escape_char :: "char \<Rightarrow> string" where
  "escape_char c =
     (if c = CHR 0x5C then [CHR 0x5C, CHR 0x5C]
      else if c = CHR 0x22 then [CHR 0x5C, CHR 0x22]
      else if 31 < (of_char c :: nat) then [c]
      else if c = CHR 0x08 then [CHR 0x5C, CHR ''b'']
      else if c = CHR 0x0C then [CHR 0x5C, CHR ''f'']
      else if c = CHR 0x0A then [CHR 0x5C, CHR ''n'']
      else if c = CHR 0x0D then [CHR 0x5C, CHR ''r'']
      else if c = CHR 0x09 then [CHR 0x5C, CHR ''t'']
      else [CHR 0x5C, CHR ''u'', CHR ''0'', CHR ''0'', hex_digit (of_char c div 16), hex_digit (of_char c mod 16)])"

definition print_string_ptr :: "string option \<Rightarrow> string" where
  "print_string_ptr input =
     (case input of
        None \<Rightarrow> [CHR 0x22, CHR 0x22]
      | Some s \<Rightarrow> CHR 0x22 # concat (map escape_char s) @ [CHR 0x22])"

text \<open>
  print\_value, print\_array and print\_object; \<open>fmt\<close> is the flag of the formatted output
  and \<open>depth\<close> the nesting depth in front of the value.
\<close>

fun print_value :: "bool \<Rightarrow> nat \<Rightarrow> cJSON \<Rightarrow> string option"
and print_elements :: "bool \<Rightarrow> nat \<Rightarrow> cJSON list \<Rightarrow> string option"
and print_members :: "bool \<Rightarrow> nat \<Rightarrow> cJSON list \<Rightarrow> string option" where
  "print_value fmt depth (Item t vs vi vd nm ch) =
     (case t of
        cJSON_NULL \<Rightarrow> Some ''null''
      | cJSON_False \<Rightarrow> Some ''false''
      | cJSON_True \<Rightarrow> Some ''true''
      | cJSON_Number \<Rightarrow> Some (print_number (Item t vs vi vd nm ch))
      | cJSON_String \<Rightarrow> Some (print_string_ptr vs)
      | cJSON_Array \<Rightarrow>
          map_option (\<lambda>b. CHR ''['' # b @ '']'') (print_elements fmt (depth + 1) ch)
      | cJSON_Object \<Rightarrow>
          map_option (\<lambda>b. (if fmt then ''{\<newline>'' else ''{'') @ b @
              (if fmt then replicate depth (CHR 0x09) else []) @ ''}'')
            (print_members fmt (depth + 1) ch)
      | cJSON_Raw \<Rightarrow> vs
      | cJSON_Invalid \<Rightarrow> None)"
| "print_elements fmt depth [] = Some []"
| "print_elements fmt depth (x # xs) =
     (case print_value fmt depth x of
        None \<Rightarrow> None
      | Some b \<Rightarrow>
          map_option (\<lambda>r. b @ (if xs = [] then [] else if fmt then '', '' else '','') @ r)
            (print_elements fmt depth xs))"
| "print_members fmt depth [] = Some []"
| "print_members fmt depth (x # xs) =
     (case print_value fmt depth x of
        None \<Rightarrow> None
      | Some b \<Rightarrow>
          map_option
            (\<lambda>r. (if fmt then replicate depth (CHR 0x09) else []) @ print_string_ptr (item_string x) @
                 (if fmt then [CHR '':'', CHR 0x09] else '':'') @ b @ (if xs = [] then [] else '','') @
                 (if fmt then ''\<newline>'' else []) @ r)
            (print_members fmt depth xs))"

definition cJSON_PrintUnformatted :: "cJSON \<Rightarrow> string option" where
  "cJSON_PrintUnformatted item = print_value False 0 item"

definition cJSON_Print :: "cJSON \<Rightarrow> string option" where
  "cJSON_Print item = print_value True 0 item"

section \<open>Parsing\<close>

text \<open>
  The parser works on the part of the buffer from the current offset on, which ends with the
  terminator of the text.
\<close>

definition buffer_skip_whitespace :: "string \<Rightarrow> string" where
  "buffer_skip_whitespace r =
     (if r = [] then []
      else
        (let r' = dropWhile (\<lambda>c. (of_char c :: nat) \<le> 32) r
         in if r' = [] then [last r] else r'))"

definition skip_utf8_bom :: "string \<Rightarrow> string" where
  "skip_utf8_bom r = (if 4 < length r \<and> take 3 r = [CHR 0xEF, CHR 0xBB, CHR 0xBF] then drop 3 r else r)"

definition hex_value :: "char \<Rightarrow> nat option" where
  "hex_value c =
     (if 48 \<le> (of_char c :: nat) \<and> (of_char c :: nat) \<le> 57 then Some (of_char c - 48)
      else if 65 \<le> (of_char c :: nat) \<and> (of_char c :: nat) \<le> 70 then Some (10 + of_char c - 65)
      else if 97 \<le> (of_char c :: nat) \<and> (of_char c :: nat) \<le> 102 then Some (10 + of_char c - 97)
      else None)"

primrec parse_hex :: "string \<Rightarrow> nat \<Rightarrow> nat" where
  "parse_hex [] h = h"
| "parse_hex (c # cs) h =
     (case hex_value c of
        None \<Rightarrow> 0
      | Some v \<Rightarrow> parse_hex cs (if cs = [] then h + v else push_bit 4 (h + v)))"

definition parse_hex4 :: "string \<Rightarrow> nat" where
  "parse_hex4 input = parse_hex (take 4 input) 0"

text \<open>The bytes behind the first one, filled from the end.\<close>

fun utf8_tail :: "nat \<Rightarrow> nat \<Rightarrow> string \<Rightarrow> nat \<times> string" where
  "utf8_tail 0 codepoint acc = (codepoint, acc)"
| "utf8_tail (Suc n) codepoint acc =
     utf8_tail n (drop_bit 6 codepoint) (char_of ((codepoint OR 0x80) AND 0xBF) # acc)"

definition utf8_encode :: "nat \<Rightarrow> string option" where
  "utf8_encode codepoint =
     (let encode = (\<lambda>len mark. let (cp, tail) = utf8_tail (len - 1) codepoint []
                    in Some (char_of ((cp OR mark) AND 0xFF) # tail))
      in if codepoint < 0x80 then Some [char_of (codepoint AND 0x7F)]
         else if codepoint < 0x800 then encode 2 0xC0
         else if codepoint < 0x10000 then encode 3 0xE0
         else if codepoint \<le> 0x10FFFF then encode 4 0xF0
         else None)"

text \<open>The length of the escape sequence at the start of the text and the bytes it stands for.\<close>

definition utf16_literal_to_utf8 :: "string \<Rightarrow> (nat \<times> string) option" where
  "utf16_literal_to_utf8 t =
     (if length t < 6 then None
      else
        (let first_code = parse_hex4 (drop 2 t)
         in if 0xDC00 \<le> first_code \<and> first_code \<le> 0xDFFF then None
            else if 0xD800 \<le> first_code \<and> first_code \<le> 0xDBFF then
              (let second = drop 6 t
               in if length second < 6 then None
                  else if second ! 0 \<noteq> CHR 0x5C \<or> second ! 1 \<noteq> CHR ''u'' then None
                  else
                    (let second_code = parse_hex4 (drop 2 second)
                     in if second_code < 0xDC00 \<or> 0xDFFF < second_code then None
                        else map_option (\<lambda>b. (12, b))
                          (utf8_encode (0x10000 + ((push_bit 10 (first_code AND 0x3FF)) OR (second_code AND 0x3FF))))))
            else map_option (\<lambda>b. (6, b)) (utf8_encode first_code)))"

definition simple_escape :: "char \<Rightarrow> char option" where
  "simple_escape e =
     (if e = CHR ''b'' then Some (CHR 0x08)
      else if e = CHR ''f'' then Some (CHR 0x0C)
      else if e = CHR ''n'' then Some (CHR 0x0A)
      else if e = CHR ''r'' then Some (CHR 0x0D)
      else if e = CHR ''t'' then Some (CHR 0x09)
      else if e = CHR 0x22 \<or> e = CHR 0x5C \<or> e = CHR ''/'' then Some e
      else None)"

text \<open>
  The loop over the literal.  An escape sequence that was cut by the one in front of it reads
  the closing quote and ends.
\<close>

function unescape :: "string \<Rightarrow> string option" where
  "unescape [] = Some []"
| "unescape (c # t) =
     (if c \<noteq> CHR 0x5C then map_option (Cons c) (unescape t)
      else
        (case t of
           [] \<Rightarrow> Some [CHR 0x22]
         | e # u \<Rightarrow>
             (case simple_escape e of
                Some x \<Rightarrow> map_option (Cons x) (unescape u)
              | None \<Rightarrow>
                  if e = CHR ''u'' then
                    (case utf16_literal_to_utf8 (c # t) of
                       None \<Rightarrow> None
                     | Some (n, bytes) \<Rightarrow> map_option ((@) bytes) (unescape (drop n (c # t))))
                  else None)))"
  by pat_completeness auto
termination
  by (relation "measure length") (auto simp: utf16_literal_to_utf8_def Let_def split: if_splits)

text \<open>The end of the literal, behind its closing quote.\<close>

fun scan_string :: "string \<Rightarrow> (string \<times> string) option" where
  "scan_string [] = None"
| "scan_string (c # t) =
     (if c = CHR 0x22 then Some ([], t)
      else if c = CHR 0x5C then
        (case t of
           [] \<Rightarrow> None
         | e # u \<Rightarrow> map_option (\<lambda>(b, r). (c # e # b, r)) (scan_string u))
      else map_option (\<lambda>(b, r). (c # b, r)) (scan_string t))"

definition parse_string :: "string \<Rightarrow> (string \<times> string) option" where
  "parse_string r =
     (case r of
        [] \<Rightarrow> None
      | c # t \<Rightarrow>
          if c \<noteq> CHR 0x22 then None
          else
            (case scan_string t of
               None \<Rightarrow> None
             | Some (body, rest) \<Rightarrow> map_option (\<lambda>out. (c_string out, rest)) (unescape body)))"

definition number_char :: "char \<Rightarrow> bool" where
  "number_char c \<longleftrightarrow> is_digit c \<or> c \<in> set ''+-eE.''"

definition parse_number :: "string \<Rightarrow> (cJSON \<times> string) option" where
  "parse_number r =
     (case strtod (takeWhile number_char r) of
        None \<Rightarrow> None
      | Some (number, n) \<Rightarrow> Some (Item cJSON_Number None (saturate number) number None [], drop n r))"

text \<open>
  The loops of parse\_array and parse\_object from the first element on.  Every turn reads at
  least one character, so the length of the rest is enough fuel.
\<close>

fun array_loop :: "nat \<Rightarrow> (string \<Rightarrow> (cJSON \<times> string) option) \<Rightarrow> string \<Rightarrow> (cJSON list \<times> string) option" where
  "array_loop 0 value r = None"
| "array_loop (Suc fuel) value r =
     (case value (buffer_skip_whitespace r) of
        None \<Rightarrow> None
      | Some (x, r) \<Rightarrow>
          (case buffer_skip_whitespace r of
             [] \<Rightarrow> None
           | c # r \<Rightarrow>
               if c = CHR '','' then map_option (\<lambda>(xs, r). (x # xs, r)) (array_loop fuel value r)
               else if c = CHR '']'' then Some ([x], r)
               else None))"

fun object_loop :: "nat \<Rightarrow> (string \<Rightarrow> (cJSON \<times> string) option) \<Rightarrow> string \<Rightarrow> (cJSON list \<times> string) option" where
  "object_loop 0 value r = None"
| "object_loop (Suc fuel) value r =
     (if r = [] then None
      else
        (case parse_string (buffer_skip_whitespace r) of
           None \<Rightarrow> None
         | Some (name, r) \<Rightarrow>
             (case buffer_skip_whitespace r of
                [] \<Rightarrow> None
              | c # r \<Rightarrow>
                  if c \<noteq> CHR '':'' then None
                  else
                    (case value (buffer_skip_whitespace r) of
                       None \<Rightarrow> None
                     | Some (x, r) \<Rightarrow>
                         (case buffer_skip_whitespace r of
                            [] \<Rightarrow> None
                          | c # r \<Rightarrow>
                              if c = CHR '','' then
                                map_option (\<lambda>(xs, r). (with_string (Some name) x # xs, r)) (object_loop fuel value r)
                              else if c = CHR ''}'' then Some ([with_string (Some name) x], r)
                              else None)))))"

definition parse_array :: "(string \<Rightarrow> (cJSON \<times> string) option) \<Rightarrow> string \<Rightarrow> (cJSON \<times> string) option" where
  "parse_array value r =
     (case buffer_skip_whitespace r of
        [] \<Rightarrow> None
      | c # t \<Rightarrow>
          if c = CHR '']'' then Some (Item cJSON_Array None 0 (Finite 0) None [], t)
          else map_option (\<lambda>(xs, r). (Item cJSON_Array None 0 (Finite 0) None xs, r))
            (array_loop (length (c # t)) value (c # t)))"

definition parse_object :: "(string \<Rightarrow> (cJSON \<times> string) option) \<Rightarrow> string \<Rightarrow> (cJSON \<times> string) option" where
  "parse_object value r =
     (case buffer_skip_whitespace r of
        [] \<Rightarrow> None
      | c # t \<Rightarrow>
          if c = CHR ''}'' then Some (Item cJSON_Object None 0 (Finite 0) None [], t)
          else map_option (\<lambda>(xs, r). (Item cJSON_Object None 0 (Finite 0) None xs, r))
            (object_loop (length (c # t)) value (c # t)))"

text \<open>
  parse\_value; \<open>nested\<close> parses the elements of an array or an object, and is \<open>None\<close> at
  the nesting limit.
\<close>

definition parse_value_with ::
  "(string \<Rightarrow> (cJSON \<times> string) option) option \<Rightarrow> string \<Rightarrow> (cJSON \<times> string) option" where
  "parse_value_with nested r =
     (if take 4 r = ''null'' then Some (Item cJSON_NULL None 0 (Finite 0) None [], drop 4 r)
      else if take 5 r = ''false'' then Some (Item cJSON_False None 0 (Finite 0) None [], drop 5 r)
      else if take 4 r = ''true'' then Some (Item cJSON_True None 1 (Finite 0) None [], drop 4 r)
      else
        (case r of
           [] \<Rightarrow> None
         | c # t \<Rightarrow>
             if c = CHR 0x22 then
               map_option (\<lambda>(s, r). (Item cJSON_String (Some s) 0 (Finite 0) None [], r)) (parse_string r)
             else if c = CHR ''-'' \<or> is_digit c then parse_number r
             else if c = CHR ''['' then (case nested of None \<Rightarrow> None | Some value \<Rightarrow> parse_array value t)
             else if c = CHR ''{'' then (case nested of None \<Rightarrow> None | Some value \<Rightarrow> parse_object value t)
             else None))"

primrec parse_value :: "nat \<Rightarrow> string \<Rightarrow> (cJSON \<times> string) option" where
  "parse_value 0 = parse_value_with None"
| "parse_value (Suc levels) = parse_value_with (Some (parse_value levels))"

text \<open>
  \<open>value\<close> is the memory of the text up to the given length; the result has what is left
  of it where the parser stops, the address that goes to \<open>return_parse_end\<close>.
\<close>

definition cJSON_ParseWithLengthOpts :: "string \<Rightarrow> bool \<Rightarrow> (cJSON \<times> string) option" where
  "cJSON_ParseWithLengthOpts value require_null_terminated =
     (if value = [] then None
      else
        (case parse_value CJSON_NESTING_LIMIT (buffer_skip_whitespace (skip_utf8_bom value)) of
           None \<Rightarrow> None
         | Some (item, r) \<Rightarrow>
             if require_null_terminated then
               (let r = buffer_skip_whitespace r
                in if r = [] \<or> hd r \<noteq> CHR 0x00 then None else Some (item, r))
             else Some (item, r)))"

definition cJSON_ParseWithOpts :: "string \<Rightarrow> bool \<Rightarrow> (cJSON \<times> string) option" where
  "cJSON_ParseWithOpts value require_null_terminated =
     cJSON_ParseWithLengthOpts (c_string value @ [CHR 0x00]) require_null_terminated"

definition cJSON_ParseWithLength :: "string \<Rightarrow> cJSON option" where
  "cJSON_ParseWithLength value = map_option fst (cJSON_ParseWithLengthOpts value False)"

definition cJSON_Parse :: "string \<Rightarrow> cJSON option" where
  "cJSON_Parse value = map_option fst (cJSON_ParseWithOpts value False)"

lemma cJSON_Parse_value:
  "cJSON_Parse t =
     map_option fst (parse_value CJSON_NESTING_LIMIT
       (buffer_skip_whitespace (skip_utf8_bom (c_string t @ [CHR 0x00]))))"
  by (simp add: cJSON_Parse_def cJSON_ParseWithOpts_def cJSON_ParseWithLengthOpts_def option.map_id split: option.splits)

end
