(* ===== verification/RoundTrip.thy ===== *)
theory RoundTrip
  imports CJson
begin

text \<open>
  What cJSON prints it reads back: strings with every escape, 32-bit integers, and trees of
  them up to the nesting limit.
\<close>

section \<open>Items that are read back\<close>

text \<open>An item with the fields that the parser sets; the strings are C strings.\<close>

definition c_text :: "string \<Rightarrow> bool" where
  "c_text s \<longleftrightarrow> CHR 0x00 \<notin> set s"

fun canonical :: "cJSON \<Rightarrow> bool" where
  "canonical (Item t vs vi vd nm ch) =
     (case t of
        cJSON_NULL \<Rightarrow> vs = None \<and> vi = 0 \<and> vd = Finite 0 \<and> ch = []
      | cJSON_False \<Rightarrow> vs = None \<and> vi = 0 \<and> vd = Finite 0 \<and> ch = []
      | cJSON_True \<Rightarrow> vs = None \<and> vi = 1 \<and> vd = Finite 0 \<and> ch = []
      | cJSON_Number \<Rightarrow> vs = None \<and> is_int32 vi \<and> vd = Finite (of_int vi) \<and> ch = []
      | cJSON_String \<Rightarrow> (case vs of None \<Rightarrow> False | Some s \<Rightarrow> c_text s) \<and> vi = 0 \<and> vd = Finite 0 \<and> ch = []
      | cJSON_Array \<Rightarrow> vs = None \<and> vi = 0 \<and> vd = Finite 0 \<and> list_all (\<lambda>x. item_string x = None \<and> canonical x) ch
      | cJSON_Object \<Rightarrow> vs = None \<and> vi = 0 \<and> vd = Finite 0 \<and>
          list_all (\<lambda>x. (case item_string x of None \<Rightarrow> False | Some k \<Rightarrow> c_text k) \<and> canonical x) ch
      | _ \<Rightarrow> False)"

fun nesting :: "cJSON \<Rightarrow> nat" where
  "nesting (Item t vs vi vd nm ch) =
     (if t = cJSON_Array \<or> t = cJSON_Object then Suc (foldr (\<lambda>x n. max (nesting x) n) ch 0) else 0)"

text \<open>What may follow a value: a comma, the end of an array or of an object, or the terminator.\<close>

definition delimited :: "string \<Rightarrow> bool" where
  "delimited r \<longleftrightarrow> (case r of [] \<Rightarrow> False | c # _ \<Rightarrow> c \<in> {CHR '','', CHR '']'', CHR ''}'', CHR 0x00})"

text \<open>Where a value may start: not with white space and not with the end of an array or object.\<close>

definition visible :: "string \<Rightarrow> bool" where
  "visible t \<longleftrightarrow> (case t of [] \<Rightarrow> False | c # _ \<Rightarrow> 32 < (of_char c :: nat) \<and> c \<noteq> CHR '']'' \<and> c \<noteq> CHR ''}'' \<and> c \<noteq> CHR 0xEF)"

section \<open>Strings\<close>

lemma c_string_text: "c_text s \<Longrightarrow> c_string s = s"
  unfolding c_text_def c_string_def by (rule takeWhile_eq_all_conv [THEN iffD2]) auto

lemma hex_value_digit: "d < 16 \<Longrightarrow> hex_value (hex_digit d) = Some d"
  by (cases "d < 10") (auto simp: hex_value_def hex_digit_def digit_char_def of_char_of take_bit_eq_mod)

lemma hex_digits_read:
  assumes "n < 32"
  shows "parse_hex4 (CHR ''0'' # CHR ''0'' # hex_digit (n div 16) # hex_digit (n mod 16) # r) = n"
proof -
  have "hex_value (CHR ''0'') = Some 0" by (simp add: hex_value_def)
  moreover have "hex_value (hex_digit (n div 16)) = Some (n div 16)" using assms by (simp add: hex_value_digit)
  moreover have "hex_value (hex_digit (n mod 16)) = Some (n mod 16)" by (simp add: hex_value_digit)
  ultimately show ?thesis by (simp add: parse_hex4_def push_bit_eq_mult)
qed

lemma control_char_read:
  assumes "(of_char c :: nat) < 32"
  shows "utf16_literal_to_utf8 (CHR 0x5C # CHR ''u'' # CHR ''0'' # CHR ''0'' # hex_digit (of_char c div 16) #
    hex_digit (of_char c mod 16) # r) = Some (6, [c])"
proof -
  have "of_char c AND 0x7F = (of_char c :: nat)"
  proof -
    have "(of_char c :: nat) AND 0x7F = take_bit 7 (of_char c)" by (simp add: take_bit_eq_mask mask_eq_exp_minus_1)
    also have "\<dots> = of_char c" using assms by (simp add: take_bit_eq_mod)
    finally show ?thesis .
  qed
  then show ?thesis using assms
    by (simp add: utf16_literal_to_utf8_def utf8_encode_def hex_digits_read Let_def)
qed

lemma unescape_escape_char: "unescape (escape_char c @ r) = map_option (Cons c) (unescape r)"
proof -
  have "unescape (CHR 0x5C # CHR ''u'' # CHR ''0'' # CHR ''0'' # hex_digit (of_char c div 16) #
      hex_digit (of_char c mod 16) # r) = map_option (Cons c) (unescape r)" if "(of_char c :: nat) < 32"
    using control_char_read [OF that, of r] by (simp add: simple_escape_def append_Cons [abs_def])
  then show ?thesis by (auto simp: escape_char_def simple_escape_def)
qed

lemma unescape_escape: "unescape (concat (map escape_char s)) = Some s"
  by (induction s) (simp_all add: unescape_escape_char)

lemma hex_digit_plain: "d < 16 \<Longrightarrow> hex_digit d \<noteq> CHR 0x22 \<and> hex_digit d \<noteq> CHR 0x5C"
  using hex_value_digit [of d] by (auto simp: hex_value_def)

lemma scan_escape_char: "scan_string (escape_char c @ r) = map_option (\<lambda>(b, r). (escape_char c @ b, r)) (scan_string r)"
proof -
  have "hex_digit (of_char c mod 16) \<noteq> CHR 0x22" "hex_digit (of_char c mod 16) \<noteq> CHR 0x5C"
    using hex_digit_plain [of "of_char c mod 16"] by simp_all
  moreover have "hex_digit (of_char c div 16) \<noteq> CHR 0x22" "hex_digit (of_char c div 16) \<noteq> CHR 0x5C"
    if "(of_char c :: nat) < 32" using hex_digit_plain [of "of_char c div 16"] that by simp_all
  ultimately show ?thesis
    by (auto simp: escape_char_def option.map_comp intro!: option.map_cong)
qed

lemma scan_escape: "scan_string (concat (map escape_char s) @ CHR 0x22 # r) = Some (concat (map escape_char s), r)"
  by (induction s) (simp_all add: scan_escape_char)

lemma parse_print_string:
  assumes "c_text s"
  shows "parse_string (print_string_ptr (Some s) @ r) = Some (s, r)"
  using assms by (simp add: parse_string_def print_string_ptr_def scan_escape unescape_escape c_string_text)

section \<open>Numbers\<close>

lemma to_string_chars: "\<forall>c \<in> set (to_string k). number_char c"
  using nat_to_string_digits by (auto simp: to_string_def number_char_def list_all_iff)

lemma strtod_to_string:
  assumes "is_int32 k"
  shows "strtod (to_string k) = Some (Finite (of_int k), length (to_string k))"
proof -
  define n where "n = nat \<bar>k\<bar>"
  have sign: "split_sign (to_string k) = (k < 0, nat_to_string n)"
  proof -
    obtain c cs where "nat_to_string (nat k) = c # cs" "is_digit c"
      using nat_to_string_digits [of "nat k"] by (cases "nat_to_string (nat k)") auto
    with digit_no_space_sign [of c] show ?thesis by (auto simp: to_string_def split_sign_def n_def)
  qed
  have read: "takeWhile is_digit (nat_to_string n) = nat_to_string n" "dropWhile is_digit (nat_to_string n) = []"
    "nat_to_string n \<noteq> []"
    using digits_of_nat_append [of "[]" n] nat_to_string_digits [of n] by simp_all
  have "(if k < 0 then - of_nat n else of_nat n) = (of_int k :: rat)" by (simp add: n_def)
  moreover have "to_double (of_int k) = Finite (of_int k)" using assms by (intro to_double_int) (auto simp: is_int32_def)
  ultimately show ?thesis
    by (cases "k < 0") (simp_all add: strtod_def sign read split_exponent_def digits_value_nat_to_string Let_def)
qed

lemma saturate_int: "is_int32 k \<Longrightarrow> saturate (Finite (of_int k)) = k"
  by (auto simp: saturate_def is_int32_def INT_MAX_def INT_MIN_def truncate_def)

lemma parse_to_string:
  assumes "is_int32 k" and "delimited r"
  shows "parse_number (to_string k @ r) = Some (Item cJSON_Number None k (Finite (of_int k)) None [], r)"
proof -
  have "takeWhile number_char (to_string k @ r) = to_string k"
    using to_string_chars [of k] assms(2)
    by (auto simp: takeWhile_append delimited_def number_char_def is_digit_def split: list.splits)
  then show ?thesis using assms(1) by (simp add: parse_number_def strtod_to_string saturate_int)
qed

section \<open>Trees\<close>

lemma skip_whitespace_visible: "32 < (of_char c :: nat) \<Longrightarrow> buffer_skip_whitespace (c # r) = c # r"
  by (simp add: buffer_skip_whitespace_def)

lemma skip_delimited: "delimited r \<Longrightarrow> hd r \<noteq> CHR 0x00 \<Longrightarrow> buffer_skip_whitespace r = r"
  by (auto simp: delimited_def buffer_skip_whitespace_def split: list.splits)

text \<open>Printed values are not empty and start with a visible character.\<close>

lemma to_string_head: "\<exists>c t. to_string k = c # t \<and> (c = CHR ''-'' \<or> is_digit c)"
  using nat_to_string_digits [of "nat k"] by (cases "nat_to_string (nat k)") (auto simp: to_string_def)

lemma digit_visible: "is_digit c \<Longrightarrow> 32 < (of_char c :: nat)"
  by (simp add: is_digit_def)

lemma print_value_head:
  assumes "print_value False d x = Some t" and "canonical x"
  shows "visible t"
proof (cases x)
  case (Item ty vs vi vd nm ch)
  obtain c u where c: "to_string vi = c # u" "c = CHR ''-'' \<or> is_digit c" using to_string_head by blast
  then have number: "visible (to_string vi)" by (auto simp: is_digit_def visible_def)
  show ?thesis
  proof (cases ty)
    case cJSON_Number
    with assms Item have "t = to_string vi" by (simp add: print_number_def)
    with number show ?thesis by simp
  qed (use assms Item in \<open>auto simp: visible_def print_string_ptr_def split: option.splits\<close>)
qed

lemma nesting_members: "x \<in> set xs \<Longrightarrow> nesting x \<le> foldr (\<lambda>x n. max (nesting x) n) xs 0"
  by (induction xs) auto

lemma with_string_same:
  "item_string x = None \<Longrightarrow> with_string None x = x"
  "item_string x = Some k \<Longrightarrow> with_string (Some k) (with_string None x) = x"
  by (cases x; simp add: with_string_def)+

lemma skip_visible: "visible t \<Longrightarrow> buffer_skip_whitespace (t @ r) = t @ r"
  by (cases t) (auto simp: visible_def skip_whitespace_visible)

lemma parse_array_print:
  assumes "print_elements False d xs = Some t" and "\<forall>x \<in> set xs. canonical x"
    and "xs \<noteq> [] \<Longrightarrow> array_loop (length (t @ CHR '']'' # r)) value (t @ CHR '']'' # r) = Some (xs, r)"
  shows "parse_array value (t @ CHR '']'' # r) = Some (Item cJSON_Array None 0 (Finite 0) None xs, r)"
proof (cases xs)
  case Nil
  with assms(1) show ?thesis by (simp add: parse_array_def skip_whitespace_visible)
next
  case (Cons x ys)
  with assms(1,2) obtain b u where "print_value False d x = Some b" and t: "t = b @ u" by (auto split: option.splits)
  then have vis: "visible b" using assms(2) Cons by (auto dest: print_value_head)
  then obtain c b' where b: "b = c # b'" and "c \<noteq> CHR '']''" by (cases b) (auto simp: visible_def)
  then show ?thesis
    using assms(3) Cons skip_visible [OF vis, of "u @ CHR '']'' # r"] by (simp add: parse_array_def t del: array_loop.simps)
qed

lemma print_string_visible: "visible (print_string_ptr s)"
  by (cases s) (simp_all add: print_string_ptr_def visible_def)

lemma parse_object_print:
  assumes "print_members False d xs = Some t"
    and "xs \<noteq> [] \<Longrightarrow> object_loop (length (t @ CHR ''}'' # r)) value (t @ CHR ''}'' # r) = Some (xs, r)"
  shows "parse_object value (t @ CHR ''}'' # r) = Some (Item cJSON_Object None 0 (Finite 0) None xs, r)"
proof (cases xs)
  case Nil
  with assms(1) show ?thesis by (simp add: parse_object_def skip_whitespace_visible)
next
  case (Cons x ys)
  with assms(1) obtain u where t: "t = print_string_ptr (item_string x) @ u" by (auto split: option.splits)
  obtain c b' where b: "print_string_ptr (item_string x) = c # b'" and "c \<noteq> CHR ''}''"
    using print_string_visible [of "item_string x"] by (cases "print_string_ptr (item_string x)") (auto simp: visible_def)
  then show ?thesis
    using assms(2) Cons skip_visible [OF print_string_visible, of "item_string x" "u @ CHR ''}'' # r"]
    by (simp add: parse_object_def t del: object_loop.simps)
qed

lemma array_loop_print:
  assumes "parse_value levels (b @ rest) = Some (x, rest)" and "visible b"
    and "rest = (if xs = [] then CHR '']'' # r else CHR '','' # u @ CHR '']'' # r)"
    and "xs \<noteq> [] \<Longrightarrow> array_loop fuel (parse_value levels) (u @ CHR '']'' # r) = Some (xs, r)"
  shows "array_loop (Suc fuel) (parse_value levels) (b @ rest) = Some (x # xs, r)"
  using assms by (simp add: skip_visible skip_whitespace_visible)

lemma object_loop_print:
  assumes "parse_value levels (b @ rest) = Some (with_string None x, rest)" and "visible b"
    and "rest = (if xs = [] then CHR ''}'' # r else CHR '','' # u @ CHR ''}'' # r)"
    and "xs \<noteq> [] \<Longrightarrow> object_loop fuel (parse_value levels) (u @ CHR ''}'' # r) = Some (xs, r)"
    and "item_string x = Some k" and "c_text k"
  shows "object_loop (Suc fuel) (parse_value levels) (print_string_ptr (Some k) @ CHR '':'' # b @ rest) = Some (x # xs, r)"
proof -
  let ?t = "print_string_ptr (Some k) @ CHR '':'' # b @ rest"
  have "?t \<noteq> []" by simp
  moreover have "buffer_skip_whitespace ?t = ?t" by (rule skip_visible [OF print_string_visible])
  moreover have "parse_string ?t = Some (k, CHR '':'' # b @ rest)" using parse_print_string [OF assms(6)] by blast
  ultimately show ?thesis
    using assms(1-5) by (simp add: skip_visible skip_whitespace_visible with_string_same)
qed

lemma parse_value_eq:
  "parse_value levels r = parse_value_with (case levels of 0 \<Rightarrow> None | Suc l \<Rightarrow> Some (parse_value l)) r"
  by (cases levels) simp_all

lemma nesting_levels:
  assumes "nesting (Item t vs vi vd nm ch) \<le> levels" and "t = cJSON_Array \<or> t = cJSON_Object"
  obtains l where "levels = Suc l" and "\<forall>x \<in> set ch. nesting x \<le> l"
  using assms nesting_members [of _ ch] by (cases levels) (auto intro: order_trans)

lemma parse_print:
  "print_value False d x = Some t \<Longrightarrow> canonical x \<Longrightarrow> nesting x \<le> levels \<Longrightarrow> delimited r \<Longrightarrow>
     parse_value levels (t @ r) = Some (with_string None x, r)"
  "print_elements False d xs = Some t \<Longrightarrow> xs \<noteq> [] \<Longrightarrow> \<forall>x \<in> set xs. item_string x = None \<and> canonical x \<and> nesting x \<le> levels \<Longrightarrow>
     length t < fuel \<Longrightarrow> array_loop fuel (parse_value levels) (t @ CHR '']'' # r) = Some (xs, r)"
  "print_members False d xs = Some t \<Longrightarrow> xs \<noteq> [] \<Longrightarrow>
     \<forall>x \<in> set xs. (\<exists>k. item_string x = Some k \<and> c_text k) \<and> canonical x \<and> nesting x \<le> levels \<Longrightarrow>
     length t < fuel \<Longrightarrow> object_loop fuel (parse_value levels) (t @ CHR ''}'' # r) = Some (xs, r)"
proof (induction "False" d x and "False" d xs and "False" d xs arbitrary: t levels r and t levels r fuel and t levels r fuel
    rule: print_value_print_elements_print_members.induct)
  case (1 depth ty vs vi vd nm ch)
  show ?case
  proof (cases ty)
    case cJSON_Array
    with 1(3) obtain b where b: "print_elements False (depth + 1) ch = Some b" "t = CHR ''['' # b @ '']''" by auto
    obtain l where l: "levels = Suc l" "\<forall>x \<in> set ch. nesting x \<le> l"
      using nesting_levels [OF 1(5)] cJSON_Array by blast
    have ch: "\<forall>x \<in> set ch. item_string x = None \<and> canonical x" and rest: "vs = None" "vi = 0" "vd = Finite 0"
      using 1(4) cJSON_Array by (auto simp: list_all_iff)
    have "array_loop (length (b @ CHR '']'' # r)) (parse_value l) (b @ CHR '']'' # r) = Some (ch, r)" if "ch \<noteq> []"
      using 1(1) [OF cJSON_Array b(1) that] ch l(2) by (simp del: array_loop.simps)
    then have "parse_array (parse_value l) (b @ CHR '']'' # r) = Some (Item cJSON_Array None 0 (Finite 0) None ch, r)"
      using parse_array_print [OF b(1)] ch by blast
    with cJSON_Array rest show ?thesis by (simp add: b(2) l(1) parse_value_with_def is_digit_def with_string_def)
  next
    case cJSON_Object
    with 1(3) obtain b where b: "print_members False (depth + 1) ch = Some b" "t = CHR ''{'' # b @ ''}''" by auto
    obtain l where l: "levels = Suc l" "\<forall>x \<in> set ch. nesting x \<le> l"
      using nesting_levels [OF 1(5)] cJSON_Object by blast
    have ch: "\<forall>x \<in> set ch. (\<exists>k. item_string x = Some k \<and> c_text k) \<and> canonical x" and rest: "vs = None" "vi = 0" "vd = Finite 0"
      using 1(4) cJSON_Object by (auto simp: list_all_iff split: option.splits)
    have "object_loop (length (b @ CHR ''}'' # r)) (parse_value l) (b @ CHR ''}'' # r) = Some (ch, r)" if "ch \<noteq> []"
      using 1(2) [OF cJSON_Object b(1) that] ch l(2) by (simp del: object_loop.simps)
    then have "parse_object (parse_value l) (b @ CHR ''}'' # r) = Some (Item cJSON_Object None 0 (Finite 0) None ch, r)"
      using parse_object_print [OF b(1)] by blast
    with cJSON_Object rest show ?thesis by (simp add: b(2) l(1) parse_value_with_def is_digit_def with_string_def)
  next
    case cJSON_Number
    with 1(3,4) have num: "t = to_string vi" "is_int32 vi" by (auto simp: print_number_def)
    obtain c u where c: "to_string vi = c # u" "c = CHR ''-'' \<or> is_digit c" using to_string_head by blast
    then have "c \<noteq> CHR ''n''" "c \<noteq> CHR ''f''" "c \<noteq> CHR ''t''" "c \<noteq> CHR 0x22" by (auto simp: is_digit_def)
    with c have "parse_value levels (t @ r) = parse_number (t @ r)" by (simp add: parse_value_eq parse_value_with_def num(1))
    with 1(4,6) cJSON_Number num show ?thesis by (simp add: parse_to_string with_string_def)
  next
    case cJSON_String
    with 1(3,4) obtain s where s: "vs = Some s" "c_text s" "t = print_string_ptr (Some s)" by (auto split: option.splits)
    have "parse_value levels (t @ r) =
        map_option (\<lambda>(s, r). (Item cJSON_String (Some s) 0 (Finite 0) None [], r)) (parse_string (t @ r))"
      by (simp add: parse_value_eq parse_value_with_def s(3) print_string_ptr_def)
    with 1(4) cJSON_String s parse_print_string [OF s(2), of r] show ?thesis by (simp add: with_string_def)
  qed (use 1 in \<open>auto simp: with_string_def parse_value_eq parse_value_with_def\<close>)
next
  case (2 depth)
  then show ?case by simp
next
  case (3 depth x xs)
  from 3(3) obtain b u where b: "print_value False depth x = Some b" "print_elements False depth xs = Some u"
    and t: "t = b @ (if xs = [] then [] else '','') @ u" by (auto split: option.splits)
  then have u: "u = []" if "xs = []" using that by simp
  let ?rest = "if xs = [] then CHR '']'' # r else CHR '','' # u @ CHR '']'' # r"
  obtain f where f: "fuel = Suc f" using 3(6) by (cases fuel) auto
  have "parse_value levels (b @ ?rest) = Some (x, ?rest)"
    using 3(1) [OF b(1), of levels ?rest] 3(5) by (simp add: delimited_def with_string_same)
  moreover have "visible b" using print_value_head [OF b(1)] 3(5) by simp
  moreover have "array_loop f (parse_value levels) (u @ CHR '']'' # r) = Some (xs, r)" if "xs \<noteq> []"
    using 3(2) [OF b that] 3(5,6) f t that by (simp del: array_loop.simps)
  ultimately have "array_loop (Suc f) (parse_value levels) (b @ ?rest) = Some (x # xs, r)"
    by (rule array_loop_print [OF _ _ refl])
  moreover have "t @ CHR '']'' # r = b @ ?rest" using t u by simp
  ultimately show ?case by (simp only: f)
next
  case (4 depth)
  then show ?case by simp
next
  case (5 depth x xs)
  from 5(5) obtain k where k: "item_string x = Some k" "c_text k" by auto
  from 5(3) k obtain b u where b: "print_value False depth x = Some b" "print_members False depth xs = Some u"
    and t: "t = print_string_ptr (Some k) @ CHR '':'' # b @ (if xs = [] then [] else '','') @ u" by (auto split: option.splits)
  then have u: "u = []" if "xs = []" using that by simp
  let ?rest = "if xs = [] then CHR ''}'' # r else CHR '','' # u @ CHR ''}'' # r"
  obtain f where f: "fuel = Suc f" using 5(6) by (cases fuel) auto
  have "parse_value levels (b @ ?rest) = Some (with_string None x, ?rest)"
    using 5(1) [OF b(1), of levels ?rest] 5(5) by (simp add: delimited_def)
  moreover have "visible b" using print_value_head [OF b(1)] 5(5) by simp
  moreover have "object_loop f (parse_value levels) (u @ CHR ''}'' # r) = Some (xs, r)" if "xs \<noteq> []"
    using 5(2) [OF b that] 5(5,6) f t that by (simp del: object_loop.simps)
  ultimately have "object_loop (Suc f) (parse_value levels) (print_string_ptr (Some k) @ CHR '':'' # b @ ?rest) = Some (x # xs, r)"
    by (rule object_loop_print [OF _ _ refl _ k])
  moreover have "t @ CHR ''}'' # r = print_string_ptr (Some k) @ CHR '':'' # b @ ?rest" using t u by simp
  ultimately show ?case by (simp only: f)
qed

section \<open>Whole texts\<close>

lemma escape_text:
  assumes "c \<noteq> CHR 0x00"
  shows "CHR 0x00 \<notin> set (escape_char c)"
proof -
  have hex: "hex_digit d \<noteq> CHR 0x00" if "d < 16" for d using hex_value_digit [OF that] by (auto simp: hex_value_def)
  have "hex_digit (of_char c mod 16) \<noteq> CHR 0x00" by (rule hex) simp
  moreover have "hex_digit (of_char c div 16) \<noteq> CHR 0x00" if "(of_char c :: nat) < 32" using that by (intro hex) simp
  ultimately show ?thesis using assms unfolding escape_char_def by (auto simp: eq_commute [of "CHR 0x00"])
qed

lemma print_string_text:
  assumes "c_text s"
  shows "CHR 0x00 \<notin> set (print_string_ptr (Some s))"
proof -
  have "CHR 0x00 \<notin> set (escape_char c)" if "c \<in> set s" for c
    using that assms escape_text [of c] by (auto simp: c_text_def)
  then show ?thesis by (auto simp: print_string_ptr_def)
qed

lemma to_string_text: "CHR 0x00 \<notin> set (to_string k)"
  using to_string_chars [of k] by (auto simp: number_char_def is_digit_def)

lemma print_canonical:
  "canonical x \<Longrightarrow> \<exists>t. print_value False d x = Some t \<and> c_text t"
  "\<forall>x \<in> set xs. canonical x \<Longrightarrow> \<exists>t. print_elements False d xs = Some t \<and> c_text t"
  "\<forall>x \<in> set xs. (\<exists>k. item_string x = Some k \<and> c_text k) \<and> canonical x \<Longrightarrow> \<exists>t. print_members False d xs = Some t \<and> c_text t"
proof (induction "False" d x and "False" d xs and "False" d xs rule: print_value_print_elements_print_members.induct)
  case (1 depth ty vs vi vd nm ch)
  show ?case
  proof (cases ty)
    case cJSON_Object
    then have "\<forall>x \<in> set ch. (\<exists>k. item_string x = Some k \<and> c_text k) \<and> canonical x"
      using 1(3) by (auto simp: list_all_iff split: option.splits)
    from 1(2) [OF cJSON_Object this] cJSON_Object show ?thesis by (auto simp: c_text_def)
  qed (use 1 in \<open>auto simp: c_text_def print_number_def list_all_iff to_string_text print_string_text [unfolded c_text_def]
        split: option.splits\<close>)
next
  case (5 depth x xs)
  then show ?case by (auto simp: c_text_def print_string_text [unfolded c_text_def])
qed (auto simp: c_text_def)

section \<open>The fuel of the loops\<close>

lemma skip_length: "length (buffer_skip_whitespace r) \<le> length r"
  using length_dropWhile_le [of "\<lambda>c. (of_char c :: nat) \<le> 32" r] by (cases r) (auto simp: buffer_skip_whitespace_def Let_def)

lemma skip_shorter: "buffer_skip_whitespace r = c # r' \<Longrightarrow> length r' < length r"
  using skip_length [of r] by simp

lemma scan_shorter: "scan_string t = Some (b, r) \<Longrightarrow> length r < length t"
  by (induction t arbitrary: b r rule: scan_string.induct) (fastforce split: if_splits list.splits)+

lemma parse_string_shorter: "parse_string t = Some (s, r) \<Longrightarrow> length r < length t"
  by (auto simp: parse_string_def dest!: scan_shorter split: list.splits if_splits option.splits)

text \<open>More fuel than the length of the rest changes nothing.\<close>

lemma array_loop_fuel:
  assumes "\<And>t x r. value t = Some (x, r) \<Longrightarrow> length r < length t" and "length r \<le> n" and "n \<le> m"
  shows "array_loop m value r = array_loop n value r"
  using assms(2,3)
proof (induction n arbitrary: r m)
  case 0
  then have "value (buffer_skip_whitespace r) = None"
    using assms(1) [of "[]"] by (cases "value []") (auto simp: buffer_skip_whitespace_def)
  then show ?case by (cases m) simp_all
next
  case (Suc n)
  then obtain k where m: "m = Suc k" "n \<le> k" by (cases m) auto
  have "array_loop k value u = array_loop n value u"
    if "value (buffer_skip_whitespace r) = Some (x, t)" and "buffer_skip_whitespace t = c # u" for x t c u
    using assms(1) [OF that(1)] skip_shorter [OF that(2)] skip_length [of r] Suc.prems(1) m(2) by (intro Suc.IH) auto
  then show ?case by (auto simp: m(1) split: option.splits list.splits)
qed

lemma object_loop_fuel:
  assumes "\<And>t x r. value t = Some (x, r) \<Longrightarrow> length r < length t" and "length r \<le> n" and "n \<le> m"
  shows "object_loop m value r = object_loop n value r"
  using assms(2,3)
proof (induction n arbitrary: r m)
  case 0
  then show ?case by (cases m) simp_all
next
  case (Suc n)
  then obtain k where m: "m = Suc k" "n \<le> k" by (cases m) auto
  have "object_loop k value w = object_loop n value w"
    if "parse_string (buffer_skip_whitespace r) = Some (s, t)" and "buffer_skip_whitespace t = c # u"
      and "value (buffer_skip_whitespace u) = Some (x, v)" and "buffer_skip_whitespace v = d # w" for s t c u x v d w
    using parse_string_shorter [OF that(1)] skip_shorter [OF that(2)] assms(1) [OF that(3)] skip_shorter [OF that(4)]
      skip_length [of r] skip_length [of u] Suc.prems(1) m(2)
    by (intro Suc.IH) auto
  then show ?case by (auto simp: m(1) split: option.splits list.splits)
qed

lemma array_loop_shorter:
  assumes "\<And>t x r. value t = Some (x, r) \<Longrightarrow> length r < length t" and "array_loop n value r = Some (xs, r')"
  shows "length r' < length r"
  using assms(2)
proof (induction n arbitrary: r xs r')
  case (Suc n)
  then obtain x t c u where v: "value (buffer_skip_whitespace r) = Some (x, t)" "buffer_skip_whitespace t = c # u"
    and "(\<exists>ys. array_loop n value u = Some (ys, r')) \<or> r' = u"
    by (auto split: option.splits list.splits if_splits)
  then have "length r' \<le> length u" using Suc.IH by (auto intro: less_imp_le)
  with assms(1) [OF v(1)] skip_shorter [OF v(2)] skip_length [of r] show ?case by linarith
qed simp

lemma object_loop_shorter:
  assumes "\<And>t x r. value t = Some (x, r) \<Longrightarrow> length r < length t" and "object_loop n value r = Some (xs, r')"
  shows "length r' < length r"
  using assms(2)
proof (induction n arbitrary: r xs r')
  case (Suc n)
  then obtain s t c u x v d w where v: "parse_string (buffer_skip_whitespace r) = Some (s, t)"
      "buffer_skip_whitespace t = c # u" "value (buffer_skip_whitespace u) = Some (x, v)" "buffer_skip_whitespace v = d # w"
    and "(\<exists>ys. object_loop n value w = Some (ys, r')) \<or> r' = w"
    by (auto split: option.splits list.splits if_splits)
  then have "length r' \<le> length w" using Suc.IH by (auto intro: less_imp_le)
  with parse_string_shorter [OF v(1)] skip_shorter [OF v(2)] assms(1) [OF v(3)] skip_shorter [OF v(4)]
    skip_length [of r] skip_length [of u]
  show ?case by linarith
qed simp

lemma strtod_reads:
  assumes "strtod t = Some (d, n)"
  shows "0 < n"
proof -
  obtain neg u where u: "split_sign t = (neg, u)" by fastforce
  obtain fs w where fw: "(case dropWhile is_digit u of
      c # v' \<Rightarrow> if c = CHR ''.'' then (takeWhile is_digit v', dropWhile is_digit v') else ([], dropWhile is_digit u)
    | [] \<Rightarrow> ([], dropWhile is_digit u)) = (fs, w)"
    by fastforce
  have ne: "takeWhile is_digit u @ fs \<noteq> []" and n: "\<exists>k. n = length t - length w + k"
    using assms unfolding strtod_def Let_def u prod.case fw by (auto split: if_splits prod.splits)
  have sum: "length (takeWhile is_digit v) + length (dropWhile is_digit v) = length v" for v :: string
    by (metis length_append takeWhile_dropWhile_id)
  have "length (takeWhile is_digit u @ fs) + length w \<le> length u"
  proof (cases "\<exists>v. dropWhile is_digit u = CHR ''.'' # v")
    case True
    then obtain v where "dropWhile is_digit u = CHR ''.'' # v" by blast
    with fw sum [of u] sum [of v] show ?thesis by auto
  next
    case False
    with fw have "fs = []" "w = dropWhile is_digit u" by (auto split: list.splits if_splits)
    with sum [of u] show ?thesis by simp
  qed
  then have "length w < length u" using ne by (cases "takeWhile is_digit u @ fs") auto
  moreover have "length u \<le> length t" using u by (auto simp: split_sign_def split: list.splits if_splits)
  ultimately show ?thesis using n by auto
qed

text \<open>A value that was read is not empty, so the fuel of the loops is enough at every level.\<close>

lemma parse_value_with_shorter:
  assumes "\<And>v t x r. nested = Some v \<Longrightarrow> v t = Some (x, r) \<Longrightarrow> length r < length t"
    and "parse_value_with nested r = Some (x, r')"
  shows "length r' < length r"
proof -
  have num: "length r' < length r" if "parse_number r = Some (x, r')" "r \<noteq> []"
    using that by (auto simp: parse_number_def dest!: strtod_reads split: option.splits)
  have arr: "length r' < length t" if "nested = Some v" "parse_array v t = Some (x, r')" for v t
    using that(2) array_loop_shorter [OF assms(1) [OF that(1)]] skip_length [of t]
    by (fastforce simp: parse_array_def simp del: array_loop.simps split: list.splits if_splits)
  have obj: "length r' < length t" if "nested = Some v" "parse_object v t = Some (x, r')" for v t
    using that(2) object_loop_shorter [OF assms(1) [OF that(1)]] skip_length [of t]
    by (fastforce simp: parse_object_def simp del: object_loop.simps split: list.splits if_splits)
  show ?thesis
  proof (cases r)
    case Nil
    with assms(2) show ?thesis by (simp add: parse_value_with_def)
  next
    case (Cons c t)
    have str: "length r' < length r" if "parse_string r = Some (s, r')" for s using that by (rule parse_string_shorter)
    show ?thesis
      using assms(2) num arr [of _ t] obj [of _ t] str unfolding parse_value_with_def
      by (auto simp: Cons less_SucI split: if_splits option.splits)
  qed
qed

lemma parse_value_shorter: "parse_value levels r = Some (x, r') \<Longrightarrow> length r' < length r"
  by (induction levels arbitrary: r x r') (auto elim!: parse_value_with_shorter [rotated])

lemma print_parse_opts:
  assumes "canonical x" and "nesting x \<le> CJSON_NESTING_LIMIT" and "item_string x = None"
  shows "\<exists>t. cJSON_PrintUnformatted x = Some t \<and> cJSON_ParseWithOpts t strict = Some (x, [CHR 0x00]) \<and> cJSON_Parse t = Some x"
proof -
  obtain t where t: "print_value False 0 x = Some t" "c_text t" using print_canonical(1) [OF assms(1)] by blast
  have skip_nul: "buffer_skip_whitespace [CHR 0x00] = [CHR 0x00]" by (simp add: buffer_skip_whitespace_def)
  have vis: "visible t" using print_value_head [OF t(1) assms(1)] .
  then have "skip_utf8_bom (t @ [CHR 0x00]) = t @ [CHR 0x00]" by (cases t) (auto simp: skip_utf8_bom_def visible_def)
  then have "cJSON_ParseWithOpts t strict = Some (with_string None x, [CHR 0x00])" for strict
    using parse_print(1) [OF t(1) assms(1,2), of "[CHR 0x00]"] t(2) skip_visible [OF vis] skip_nul
    by (simp add: cJSON_ParseWithOpts_def cJSON_ParseWithLengthOpts_def c_string_text delimited_def)
  with t(1) assms(3) show ?thesis by (simp add: cJSON_Parse_def cJSON_PrintUnformatted_def with_string_same)
qed

lemma print_parse:
  "canonical x \<Longrightarrow> nesting x \<le> CJSON_NESTING_LIMIT \<Longrightarrow> item_string x = None \<Longrightarrow>
     \<exists>t. cJSON_PrintUnformatted x = Some t \<and> cJSON_Parse t = Some x"
  using print_parse_opts by blast

section \<open>Properties\<close>

text \<open>
  C9. What cJSON prints it reads back: a tree of null, booleans, 32-bit integers, C strings
  of any bytes, arrays and objects, nested up to the limit, is printed, and parsing the text
  gives the same tree and stops at its terminator, also when nothing may follow the value.
\<close>

theorem cJSON_print_parse:
  assumes "canonical x" and "nesting x \<le> CJSON_NESTING_LIMIT" and "item_string x = None"
  shows "\<exists>t. cJSON_PrintUnformatted x = Some t \<and> cJSON_ParseWithOpts t strict = Some (x, [CHR 0x00]) \<and> cJSON_Parse t = Some x"
  using assms by (rule print_parse_opts)

end
