(* ===== verification/Calendar.thy ===== *)
theory Calendar
  imports Prelude
begin

text \<open>
  \<^verbatim>\<open>gmtime\<close> and \<^verbatim>\<open>strftime("%Y-%m-%d %H:%M:%S")\<close> of the C library, which the logger uses for
  its timestamps (src/src/server/logger.cpp).  Times are seconds since the epoch.
\<close>

section \<open>Broken-down time\<close>

definition is_leap :: "nat \<Rightarrow> bool" where
  "is_leap y \<longleftrightarrow> (y mod 4 = 0 \<and> y mod 100 \<noteq> 0) \<or> y mod 400 = 0"

definition year_days :: "nat \<Rightarrow> nat" where
  "year_days y = (if is_leap y then 366 else 365)"

definition month_lengths :: "nat \<Rightarrow> nat list" where
  "month_lengths y = [31, if is_leap y then 29 else 28, 31, 30, 31, 30, 31, 31, 30, 31, 30, 31]"

function split_year :: "nat \<Rightarrow> nat \<Rightarrow> nat \<times> nat" where
  "split_year y d = (if d < year_days y then (y, d) else split_year (Suc y) (d - year_days y))"
  by pat_completeness auto
termination
  by (relation "measure snd") (auto simp: year_days_def)

declare split_year.simps [simp del]

fun split_month :: "nat list \<Rightarrow> nat \<Rightarrow> nat \<Rightarrow> nat \<times> nat" where
  "split_month [] m d = (m, d)"
| "split_month (l # ls) m d = (if d < l then (m, d) else split_month ls (Suc m) (d - l))"

record tm =
  tm_year :: nat
  tm_mon :: nat
  tm_mday :: nat
  tm_hour :: nat
  tm_min :: nat
  tm_sec :: nat

definition gmtime :: "nat \<Rightarrow> tm" where
  "gmtime t =
     (let (y, yd) = split_year 1970 (t div 86400);
          (m, md) = split_month (month_lengths y) 1 yd;
          r = t mod 86400
      in \<lparr>tm_year = y, tm_mon = m, tm_mday = Suc md,
          tm_hour = r div 3600, tm_min = r mod 3600 div 60, tm_sec = r mod 60\<rparr>)"

section \<open>Formatting\<close>

definition strftime_log :: "tm \<Rightarrow> string" where
  "strftime_log c =
     nat_to_string (tm_year c) @ ''-'' @ pad2 (tm_mon c) @ ''-'' @ pad2 (tm_mday c) @ '' '' @
     pad2 (tm_hour c) @ '':'' @ pad2 (tm_min c) @ '':'' @ pad2 (tm_sec c)"

definition log_date :: "nat \<Rightarrow> string" where
  "log_date t = strftime_log (gmtime t) @ '' UTC''"

text \<open>The inverse, \<^verbatim>\<open>timegm\<close>.\<close>

definition days_before_year :: "nat \<Rightarrow> nat" where
  "days_before_year y = sum_list (map year_days [1970..<y])"

definition timegm :: "tm \<Rightarrow> nat" where
  "timegm c =
     86400 * (days_before_year (tm_year c) + sum_list (take (tm_mon c - 1) (month_lengths (tm_year c)))
       + (tm_mday c - 1)) + 3600 * tm_hour c + 60 * tm_min c + tm_sec c"

section \<open>Lemmas\<close>

lemma month_lengths_sum: "sum_list (month_lengths y) = year_days y"
  by (simp add: month_lengths_def year_days_def)

lemma split_year_correct:
  "1970 \<le> y \<Longrightarrow> split_year y d = (y', d') \<Longrightarrow>
     y \<le> y' \<and> d' < year_days y' \<and> days_before_year y + d = days_before_year y' + d'"
proof (induction y d rule: split_year.induct)
  case (1 y d)
  show ?case
  proof (cases "d < year_days y")
    case True
    with 1(3) show ?thesis by (simp add: split_year.simps [of y d])
  next
    case False
    with 1(3) have "split_year (Suc y) (d - year_days y) = (y', d')"
      by (simp add: split_year.simps [of y d])
    moreover have "days_before_year (Suc y) = days_before_year y + year_days y"
      using 1(2) by (simp add: days_before_year_def)
    ultimately show ?thesis using 1(1) [OF False] 1(2) False by fastforce
  qed
qed

lemma split_month_correct:
  "d < sum_list ls \<Longrightarrow> split_month ls m d = (m', d') \<Longrightarrow>
     m \<le> m' \<and> m' < m + length ls \<and> d' < ls ! (m' - m) \<and> d = sum_list (take (m' - m) ls) + d'"
proof (induction ls arbitrary: m d)
  case Nil
  then show ?case by simp
next
  case (Cons l ls)
  show ?case
  proof (cases "d < l")
    case True
    with Cons.prems show ?thesis by auto
  next
    case False
    with Cons.prems have "d - l < sum_list ls" and "split_month ls (Suc m) (d - l) = (m', d')"
      by auto
    from Cons.IH [OF this] False show ?thesis
      by (auto simp: nth_Cons' take_Cons' Suc_le_eq)
  qed
qed

lemma month_length_bound: "k < 12 \<Longrightarrow> month_lengths y ! k \<le> 31"
  by (auto simp: month_lengths_def less_Suc_eq numeral_eq_Suc nth_Cons')

text \<open>The fields of a broken-down time are in their ranges.\<close>

definition tm_ok :: "tm \<Rightarrow> bool" where
  "tm_ok c \<longleftrightarrow> 1970 \<le> tm_year c \<and> 1 \<le> tm_mon c \<and> tm_mon c \<le> 12 \<and> 1 \<le> tm_mday c \<and> tm_mday c \<le> 31
     \<and> tm_hour c < 24 \<and> tm_min c < 60 \<and> tm_sec c < 60"

lemma seconds_split:
  "3600 * (r div 3600) + 60 * (r mod 3600 div 60) + r mod 60 = (r::nat)"
proof -
  have "r mod 60 = r mod 3600 mod 60" by (simp add: mod_mod_cancel)
  then have "60 * (r mod 3600 div 60) + r mod 60 = r mod 3600" by simp
  then show ?thesis by (metis add.assoc mult_div_mod_eq)
qed

lemma gmtime_spec: "tm_ok (gmtime t) \<and> timegm (gmtime t) = t"
proof -
  obtain y yd where y: "split_year 1970 (t div 86400) = (y, yd)" by fastforce
  obtain m md where m: "split_month (month_lengths y) 1 yd = (m, md)" by fastforce
  from split_year_correct [OF _ y] have yr: "1970 \<le> y" "yd < year_days y"
      "t div 86400 = days_before_year y + yd"
    by (auto simp: days_before_year_def)
  from yr(2) have "yd < sum_list (month_lengths y)" by (simp add: month_lengths_sum)
  from split_month_correct [OF this m] have mo: "1 \<le> m" "m < 13"
      "md < month_lengths y ! (m - 1)" "yd = sum_list (take (m - 1) (month_lengths y)) + md"
    by (auto simp: month_lengths_def)
  have "month_lengths y ! (m - 1) \<le> 31"
    using mo(1,2) by (intro month_length_bound) simp
  with mo have ok: "m \<le> 12" "Suc md \<le> 31" by auto
  have "(t mod 86400) div 3600 < 24" by (simp add: less_mult_imp_div_less)
  moreover have "t mod 86400 mod 3600 div 60 < 60" by (simp add: less_mult_imp_div_less)
  ultimately have "tm_ok (gmtime t)" using yr mo ok y m
    by (simp add: gmtime_def tm_ok_def Let_def)
  moreover have "timegm (gmtime t) = 86400 * (t div 86400) + (3600 * (t mod 86400 div 3600)
      + 60 * (t mod 86400 mod 3600 div 60) + t mod 86400 mod 60)"
    using yr mo y m by (simp add: gmtime_def timegm_def Let_def)
  then have "timegm (gmtime t) = t"
    by (simp only: seconds_split mult_div_mod_eq)
  ultimately show ?thesis by simp
qed

end
