(* ===== verification/ClientCore.thy ===== *)
theory ClientCore
  imports RoundTrip Calendar
begin

text \<open>
  The client (src/src/client): its context, its log, the commands the user types and the
  messages to the dashboard.  A call that reads through a null pointer has no result
  (\<open>None\<close>).  The answers of the kernel are schedules in the state; the texts of \<^verbatim>\<open>perror\<close>
  and \<^verbatim>\<open>strerror\<close> are left out.
\<close>

section \<open>State\<close>

datatype log_level = LOG_DEBUG | LOG_INFO | LOG_WARNING | LOG_ERROR

datatype mq_answer = Mq_sent | Mq_full | Mq_failed

datatype aux_thread = Keepalive_thread | Listener_thread

text \<open>
  The context and the static variables, then what the client wrote to its streams, sockets
  and queue, then the answers that are still to come (an empty list means success).
\<close>

record client =
  client_id :: string
  tcp_socket :: int
  udp_socket :: int
  ipc_queue :: int
  exit_requested :: bool
  signal_exit :: bool
  log_open :: bool
  peer_addr :: "nat option"
  log_lines :: "string list"
  out_text :: "string list"
  err_text :: "string list"
  tcp_sent :: "string list"
  udp_sent :: "string list"
  mq_messages :: "(string \<times> int) list"
  threads :: "aux_thread list"
  dashboards :: nat
  closed_fds :: "int list"
  mq_unlinked :: bool
  wall_clock :: nat
  send_faults :: "bool list"
  udp_send_answers :: "bool list"
  recv_answers :: "string option list"
  mq_answers :: "mq_answer list"
  thread_faults :: "bool list"
  fork_faults :: "bool list"

definition CLIENT_ID_MAX_LEN :: nat where "CLIENT_ID_MAX_LEN = 64"

definition client_BUFFER_SIZE :: nat where "client_BUFFER_SIZE = 5048"

definition MAX_LOG_MESSAGE_SIZE :: nat where "MAX_LOG_MESSAGE_SIZE = 512"

definition MAX_MSG_SIZE :: nat where "MAX_MSG_SIZE = 256"

section \<open>client\_context.c\<close>

definition client_context_init :: "client \<Rightarrow> client" where
  "client_context_init s =
     s\<lparr>client_id := [], tcp_socket := -1, udp_socket := -1, ipc_queue := -1, exit_requested := False\<rparr>"

definition client_context_set_id :: "string option \<Rightarrow> client \<Rightarrow> client" where
  "client_context_set_id new_id s =
     (case new_id of
        None \<Rightarrow> s\<lparr>client_id := []\<rparr>
      | Some t \<Rightarrow> s\<lparr>client_id := take (CLIENT_ID_MAX_LEN - 1) t\<rparr>)"

definition client_context_get_id :: "client \<Rightarrow> string" where
  "client_context_get_id s = client_id s"

definition client_context_request_exit :: "client \<Rightarrow> client" where
  "client_context_request_exit s = s\<lparr>exit_requested := True\<rparr>"

section \<open>logger.c\<close>

definition log_level_to_string :: "log_level \<Rightarrow> string" where
  "log_level_to_string level =
     (case level of LOG_DEBUG \<Rightarrow> ''DEBUG'' | LOG_INFO \<Rightarrow> ''INFO'' | LOG_WARNING \<Rightarrow> ''WARNING'' | LOG_ERROR \<Rightarrow> ''ERROR'')"

definition to_stderr :: "string \<Rightarrow> client \<Rightarrow> client" where
  "to_stderr t s = s\<lparr>err_text := err_text s @ [t]\<rparr>"

definition to_stdout :: "string \<Rightarrow> client \<Rightarrow> client" where
  "to_stdout t s = s\<lparr>out_text := out_text s @ [t]\<rparr>"

definition logger_init :: "bool \<Rightarrow> client \<Rightarrow> int \<times> client" where
  "logger_init opened s = (if opened then (0, s\<lparr>log_open := True\<rparr>) else (-1, s\<lparr>log_open := False\<rparr>))"

text \<open>A line of the log, with the message after the conversions of its format.\<close>

definition logger_log :: "string \<Rightarrow> log_level \<Rightarrow> string \<Rightarrow> client \<Rightarrow> client" where
  "logger_log component level message s =
     (if \<not> log_open s then to_stderr ''Logger not initialized.'' s
      else s\<lparr>log_lines := log_lines s @
             [strcat [''['', strftime_log (gmtime (wall_clock s)), ''] ['', component, ''] ['',
                log_level_to_string level, '']: '', message]]\<rparr>)"

text \<open>
  A format without arguments: \<^verbatim>\<open>%%\<close> prints a percent sign, any other conversion reads an
  argument that is not there.
\<close>

fun format_no_arguments :: "string \<Rightarrow> string option" where
  "format_no_arguments [] = Some []"
| "format_no_arguments (c # t) =
     (if c = CHR ''%'' then
        (case t of
           [] \<Rightarrow> None
         | d # u \<Rightarrow> if d = CHR ''%'' then map_option (Cons d) (format_no_arguments u) else None)
      else map_option (Cons c) (format_no_arguments t))"

definition logger_log_format :: "string \<Rightarrow> log_level \<Rightarrow> string \<Rightarrow> client \<Rightarrow> client option" where
  "logger_log_format component level format s =
     (if log_open s then map_option (\<lambda>m. logger_log component level m s) (format_no_arguments format)
      else Some (logger_log component level [] s))"

definition logger_close :: "client \<Rightarrow> client" where
  "logger_close s = s\<lparr>log_open := False\<rparr>"

section \<open>The C library\<close>

text \<open>\<^verbatim>\<open>strtok\<close> with a blank as the only separator: the next word and what is left.\<close>

definition is_blank :: "char \<Rightarrow> bool" where
  "is_blank c \<longleftrightarrow> c = CHR '' ''"

definition strtok :: "string \<Rightarrow> (string \<times> string) option" where
  "strtok t =
     (let u = dropWhile is_blank t
      in if u = [] then None
         else Some (takeWhile (\<lambda>c. \<not> is_blank c) u, drop 1 (dropWhile (\<lambda>c. \<not> is_blank c) u)))"

text \<open>The next word behind the ones that were read, if any.\<close>

definition next_word :: "string option \<Rightarrow> string option \<times> string option" where
  "next_word rest =
     (case rest of
        None \<Rightarrow> (None, None)
      | Some t \<Rightarrow> (case strtok t of None \<Rightarrow> (None, None) | Some (w, r) \<Rightarrow> (Some w, Some r)))"

definition LONG_MAX :: int where "LONG_MAX = 2 ^ 63 - 1"

definition LONG_MIN :: int where "LONG_MIN = - (2 ^ 63)"

text \<open>\<^verbatim>\<open>strtol\<close> to base 10: the value, saturated, and the rest; \<open>None\<close> when there is no number.\<close>

definition strtol :: "string \<Rightarrow> (int \<times> string) option" where
  "strtol t =
     (let (neg, u) = split_sign (dropWhile is_space t);
          ds = takeWhile is_digit u;
          v = (if neg then - int (digits_value ds) else int (digits_value ds))
      in if ds = [] then None else Some (max LONG_MIN (min LONG_MAX v), dropWhile is_digit u))"

definition atoi :: "string \<Rightarrow> int" where
  "atoi t = (case strtol t of None \<Rightarrow> 0 | Some (v, _) \<Rightarrow> to_int32 v)"

section \<open>input\_handler.c\<close>

datatype UserInputAction = INPUT_ACTION_SEND | INPUT_ACTION_QUIT | INPUT_ACTION_CONTINUE | INPUT_ACTION_ERROR

datatype json_build_status = JSON_BUILD_SUCCESS | JSON_BUILD_ERROR_SYNTAX | JSON_BUILD_ERROR_MEMORY

record json_build_result =
  json_string :: "string option"
  build_status :: json_build_status

record client_config =
  host :: string
  port_tcp :: string
  port_udp :: string

definition MAX_PORT_NUMBER :: int where "MAX_PORT_NUMBER = 65535"

definition DEFAULT_PORT :: string where "DEFAULT_PORT = ''8888''"

definition port_ok :: "string \<Rightarrow> bool" where
  "port_ok t \<longleftrightarrow> \<not> (atoi t \<le> 0 \<or> atoi t > MAX_PORT_NUMBER)"

definition config_arguments_ports :: "string list \<Rightarrow> client_config \<Rightarrow> client_config option" where
  "config_arguments_ports argv config =
     (if length argv = 3 then
        (if \<not> port_ok (argv ! 2) then None else Some (config\<lparr>port_tcp := argv ! 2, port_udp := argv ! 2\<rparr>))
      else if length argv = 4 then
        (if \<not> port_ok (argv ! 2) \<or> \<not> port_ok (argv ! 3) then None
         else Some (config\<lparr>port_tcp := argv ! 2, port_udp := argv ! 3\<rparr>))
      else None)"

definition parse_arguments :: "string list \<Rightarrow> string option \<Rightarrow> client_config option" where
  "parse_arguments argv env_tcp_port =
     (if length argv < 2 \<or> length argv > 4 then None
      else
        (let config = \<lparr>host = argv ! 1, port_tcp = DEFAULT_PORT, port_udp = DEFAULT_PORT\<rparr>
         in if 3 \<le> length argv then config_arguments_ports argv config
            else
              (case env_tcp_port of
                 None \<Rightarrow> Some config
               | Some t \<Rightarrow> if \<not> port_ok t then None else Some (config\<lparr>port_tcp := t, port_udp := t\<rparr>))))"

text \<open>The action for a line of input and the line without its newline.\<close>

definition process_user_input :: "string \<Rightarrow> UserInputAction \<times> string" where
  "process_user_input buffer =
     (let line = takeWhile (\<lambda>c. c \<noteq> CHR 0x0A) (c_string buffer)
      in (if line = ''end'' then INPUT_ACTION_QUIT
          else if line = [] then INPUT_ACTION_CONTINUE
          else INPUT_ACTION_SEND, line))"

definition build_error :: "json_build_status \<Rightarrow> json_build_result" where
  "build_error st = \<lparr>json_string = None, build_status = st\<rparr>"

definition build_success :: "cJSON \<Rightarrow> json_build_result" where
  "build_success object = \<lparr>json_string = cJSON_PrintUnformatted object, build_status = JSON_BUILD_SUCCESS\<rparr>"

text \<open>
  The message for a command with a payload of two strings; the functions for get\_stock,
  login, register\_user and unlock\_client differ in the names and in their error texts.
  \<open>mem\<close> tells whether there was memory for the object.
\<close>

definition build_two_strings ::
  "bool \<Rightarrow> string \<Rightarrow> string \<Rightarrow> string \<Rightarrow> string \<Rightarrow> string \<Rightarrow> string option \<Rightarrow> client \<Rightarrow> json_build_result \<times> client" where
  "build_two_strings mem usage name1 name2 what command rest s =
     (let (word1, rest) = next_word rest; (word2, rest) = next_word rest
      in case (word1, word2) of
           (Some w1, Some w2) \<Rightarrow>
             if \<not> mem then
               (build_error JSON_BUILD_ERROR_MEMORY,
                logger_log ''Input_handler'' LOG_ERROR (strcat [''Error creating the cJSON object for '', what, ''.''])
                  (to_stdout ''Error creating the cJSON object...'' s))
             else
               (let root = cJSON_AddStringToObject cJSON_CreateObject ''command'' command;
                    payload = cJSON_AddStringToObject cJSON_CreateObject name1 w1;
                    payload = cJSON_AddStringToObject payload name2 w2
                in (build_success (cJSON_AddItemToObject root ''payload'' payload), s))
         | _ \<Rightarrow> (build_error JSON_BUILD_ERROR_SYNTAX, to_stderr usage s))"

definition build_json_for_get_stock ::
  "bool \<Rightarrow> string \<Rightarrow> string option \<Rightarrow> client \<Rightarrow> json_build_result \<times> client" where
  "build_json_for_get_stock mem =
     build_two_strings mem ''Error: get_stock requires <category> and <item>.'' ''category'' ''item'' ''get_stock''"

definition build_json_for_login ::
  "bool \<Rightarrow> string \<Rightarrow> string option \<Rightarrow> client \<Rightarrow> json_build_result \<times> client" where
  "build_json_for_login mem =
     build_two_strings mem ''Error: login requires <username> and <password>.'' ''hostname'' ''password'' ''login''"

definition build_json_for_register_user ::
  "bool \<Rightarrow> string \<Rightarrow> string option \<Rightarrow> client \<Rightarrow> json_build_result \<times> client" where
  "build_json_for_register_user mem =
     build_two_strings mem ''Error: register_user requires <new_username> and <new_password>.''
       ''new_client_id'' ''new_client_password'' ''register_user''"

definition build_json_for_unlock_client ::
  "bool \<Rightarrow> string \<Rightarrow> string option \<Rightarrow> client \<Rightarrow> json_build_result \<times> client" where
  "build_json_for_unlock_client mem =
     build_two_strings mem ''Error: unlock_client requires <client_to_unlock> and <secret_phrase>.''
       ''client_to_unlock'' ''secret_phrase'' ''unlock_client''"

definition build_json_for_update_stock ::
  "bool \<Rightarrow> string \<Rightarrow> string option \<Rightarrow> client \<Rightarrow> json_build_result \<times> client" where
  "build_json_for_update_stock mem command rest s =
     (let (category, rest) = next_word rest; (item, rest) = next_word rest; (quantity_str, rest) = next_word rest
      in case (category, item, quantity_str) of
           (Some c, Some i, Some q) \<Rightarrow>
             if \<not> mem then
               (build_error JSON_BUILD_ERROR_MEMORY,
                logger_log ''Input_handler'' LOG_ERROR ''Error creating the cJSON object for update_stock.''
                  (to_stdout ''Error creating the cJSON object...'' s))
             else
               (case strtol q of
                  Some (quantity, []) \<Rightarrow>
                    (let root = cJSON_AddStringToObject cJSON_CreateObject ''command'' command;
                         payload = cJSON_AddStringToObject cJSON_CreateObject ''category'' c;
                         payload = cJSON_AddStringToObject payload ''item'' i;
                         payload = cJSON_AddNumberToObject payload ''quantity'' (to_double (of_int quantity))
                     in (build_success (cJSON_AddItemToObject root ''payload'' payload), s))
                | _ \<Rightarrow>
                    (build_error JSON_BUILD_ERROR_SYNTAX, to_stderr ''Error: quantity must be a valid number.'' s))
         | _ \<Rightarrow>
             (build_error JSON_BUILD_ERROR_SYNTAX,
              to_stderr ''Error: update_stock requires <category>, <item> and <quantity>.'' s))"

definition build_json_for_single_command :: "bool \<Rightarrow> string \<Rightarrow> client \<Rightarrow> json_build_result \<times> client" where
  "build_json_for_single_command mem command s =
     (if \<not> mem then
        (build_error JSON_BUILD_ERROR_MEMORY,
         logger_log ''Input_handler'' LOG_ERROR ''Error creating the cJSON object for single command.''
           (to_stdout ''Error creating the cJSON object...'' s))
      else (build_success (cJSON_AddStringToObject cJSON_CreateObject ''command'' command), s))"

text \<open>A line of blanks has no first word, and the comparison reads through the null pointer.\<close>

definition build_json_from_input :: "bool \<Rightarrow> string \<Rightarrow> client \<Rightarrow> (json_build_result \<times> client) option" where
  "build_json_from_input mem raw_input s =
     (case strtok raw_input of
        None \<Rightarrow> None
      | Some (command, rest) \<Rightarrow>
          Some (if command = ''update_stock'' then build_json_for_update_stock mem command (Some rest) s
                else if command = ''get_stock'' then build_json_for_get_stock mem command (Some rest) s
                else if command = ''login'' then build_json_for_login mem command (Some rest) s
                else if command = ''unlock_client'' then build_json_for_unlock_client mem command (Some rest) s
                else if command = ''register_user'' then build_json_for_register_user mem command (Some rest) s
                else build_json_for_single_command mem command s))"

section \<open>ipc\_handler.c\<close>

definition ipc_init :: "int \<Rightarrow> client \<Rightarrow> bool \<times> client" where
  "ipc_init message_queue s =
     (if message_queue = -1 then
        (False, logger_log ''IPC_handler'' LOG_ERROR ''Failed to create/open IPC message queue'' s)
      else (True, s\<lparr>ipc_queue := message_queue\<rparr>))"

definition priority_check :: "string \<Rightarrow> client \<Rightarrow> int \<times> client" where
  "priority_check message s =
     (case cJSON_Parse message of
        None \<Rightarrow>
          (-1, logger_log ''IPC_handler'' LOG_ERROR ''Could not parse IPC message.''
             (to_stderr ''Error: Could not parse IPC message.'' s))
      | Some doc \<Rightarrow>
          (case cJSON_GetObjectItem doc ''category'' of
             Some category \<Rightarrow>
               if \<not> cJSON_IsString category then
                 (-1, logger_log ''IPC_handler'' LOG_ERROR ''Invalid IPC message (missing category).''
                    (to_stderr ''Error: Invalid IPC message (missing category).'' s))
               else
                 (let v = valuestring category
                  in (if v = Some ''exit'' then 3 else if v = Some ''alert'' then 2
                      else if v = Some ''keepalive'' then 1 else 0, s))
           | None \<Rightarrow>
               (-1, logger_log ''IPC_handler'' LOG_ERROR ''Invalid IPC message (missing category).''
                  (to_stderr ''Error: Invalid IPC message (missing category).'' s))))"

definition mq_send :: "string \<Rightarrow> int \<Rightarrow> client \<Rightarrow> mq_answer \<times> client" where
  "mq_send message priority s =
     (case mq_answers s of
        [] \<Rightarrow> (Mq_sent, s\<lparr>mq_messages := mq_messages s @ [(message, priority)]\<rparr>)
      | a # as \<Rightarrow>
          (a, if a = Mq_sent then s\<lparr>mq_answers := as, mq_messages := mq_messages s @ [(message, priority)]\<rparr>
              else s\<lparr>mq_answers := as\<rparr>))"

definition ipc_send_message :: "string \<Rightarrow> client \<Rightarrow> bool \<times> client" where
  "ipc_send_message message s =
     (if ipc_queue s = -1 then
        (False, logger_log ''IPC_handler'' LOG_ERROR ''IPC queue not initialized.''
           (to_stderr ''IPC queue not initialized.'' s))
      else if length message \<ge> MAX_MSG_SIZE then
        (False, logger_log ''IPC_handler'' LOG_ERROR ''Message too long for IPC queue.''
           (to_stderr ''Message too long for IPC queue.'' s))
      else
        (let (priority, s) = priority_check message s
         in if priority < 0 then
              (False, logger_log ''IPC_handler'' LOG_ERROR ''Invalid message format for IPC queue.''
                 (to_stderr ''Invalid message format for IPC queue.'' s))
            else
              (let (answer, s) = mq_send message priority s
               in case answer of
                    Mq_full \<Rightarrow>
                      (False, logger_log ''IPC_handler'' LOG_WARNING ''IPC queue full, message dropped.''
                         (to_stderr ''IPC queue full, message dropped.'' s))
                  | Mq_failed \<Rightarrow>
                      (False, logger_log ''IPC_handler'' LOG_ERROR ''Failed to send message to IPC queue'' s)
                  | Mq_sent \<Rightarrow>
                      (True, logger_log ''IPC_handler'' LOG_INFO ''Message sent to IPC queue successfully.'' s))))"

text \<open>The message of ipc\_exit; there is memory for its object.\<close>

definition ipc_exit :: "client \<Rightarrow> (bool \<times> client) option" where
  "ipc_exit s =
     (let message = cJSON_AddStringToObject cJSON_CreateObject ''category'' ''exit'';
          message = cJSON_AddStringToObject message ''message'' ''Closing client, goodbye!''
      in map_option (\<lambda>t. ipc_send_message t s) (cJSON_Print message))"

end
