(* ===== verification/ClientLoop.thy ===== *)
theory ClientLoop
  imports ClientCore
begin

text \<open>
  The rest of the client: printing of the answers (output\_handler.c), the exchange with the
  server and the loop over the input (session\_handler.c), the UDP threads (udp\_handler.c),
  the sockets and the clean-up (client.c) and main.
\<close>

section \<open>output\_handler.c\<close>

text \<open>The text of a string that is printed or compared: there is none behind a null pointer.\<close>

definition text_of :: "cJSON option \<Rightarrow> string option" where
  "text_of x = (case x of None \<Rightarrow> None | Some i \<Rightarrow> valuestring i)"

definition string_item :: "cJSON option \<Rightarrow> string option" where
  "string_item x = (case x of None \<Rightarrow> None | Some i \<Rightarrow> if cJSON_IsString i then valuestring i else None)"

text \<open>The loop over the items of a category, and over the categories.\<close>

fun print_items :: "cJSON list \<Rightarrow> client \<Rightarrow> client option" where
  "print_items [] s = Some s"
| "print_items (i # is) s =
     (case item_string i of
        None \<Rightarrow> None
      | Some n \<Rightarrow> print_items is (to_stdout (strcat [''    - '', n, '': '', to_string (valueint i)]) s))"

fun print_categories :: "cJSON list \<Rightarrow> client \<Rightarrow> client option" where
  "print_categories [] s = Some s"
| "print_categories (c # cs) s =
     (case item_string c of
        None \<Rightarrow> None
      | Some n \<Rightarrow>
          Option.bind (print_items (children c) (to_stdout (strcat [''  Category: '', n]) s)) (print_categories cs))"

definition print_server_error :: "string \<Rightarrow> cJSON \<Rightarrow> client \<Rightarrow> client" where
  "print_server_error logged doc s =
     (case string_item (cJSON_GetObjectItem doc ''message'') of
        None \<Rightarrow> s
      | Some m \<Rightarrow>
          to_stdout (strcat [''Error from server: '', m])
            (logger_log ''Output_handler'' LOG_WARNING (strcat [logged, m]) s))"

definition print_inventory_response :: "string \<Rightarrow> client \<Rightarrow> client option" where
  "print_inventory_response response s =
     (case cJSON_Parse response of
        None \<Rightarrow> Some (to_stdout ''Error: Could not parse server response.'' s)
      | Some doc \<Rightarrow>
          (case text_of (cJSON_GetObjectItem doc ''status'') of
             None \<Rightarrow> None
           | Some st \<Rightarrow>
               if st = ''success'' then
                 map_option
                   (\<lambda>s. logger_log ''Output_handler'' LOG_INFO ''Inventory report retrieved successfully.''
                      (to_stdout ''------------------------'' s))
                   (case cJSON_GetObjectItem doc ''data'' of
                      None \<Rightarrow> Some (to_stdout ''--- Inventory Report ---'' s)
                    | Some data \<Rightarrow> print_categories (children data) (to_stdout ''--- Inventory Report ---'' s))
               else Some (print_server_error ''Error while processing inventory report from server: '' doc s)))"

definition print_get_stock_response :: "string \<Rightarrow> client \<Rightarrow> client option" where
  "print_get_stock_response response s =
     (case cJSON_Parse response of
        None \<Rightarrow> Some (to_stdout ''Error: Could not parse server response.'' s)
      | Some doc \<Rightarrow>
          (case text_of (cJSON_GetObjectItem doc ''status'') of
             None \<Rightarrow> None
           | Some st \<Rightarrow>
               if st = ''success'' then
                 map_option
                   (\<lambda>s. logger_log ''Output_handler'' LOG_INFO ''Stock report retrieved successfully.''
                      (to_stdout ''------------------------'' s))
                   (let s = to_stdout ''--- Stock Report ---'' s
                    in case cJSON_GetObjectItem doc ''data'' of
                         None \<Rightarrow> Some s
                       | Some data \<Rightarrow>
                           (case (cJSON_GetObjectItem data ''category'', cJSON_GetObjectItem data ''item'',
                                  cJSON_GetObjectItem data ''quantity'') of
                              (Some category, Some item, Some quantity) \<Rightarrow>
                                (case (valuestring item, valuestring category) of
                                   (Some i, Some c) \<Rightarrow>
                                     Some (to_stdout (strcat [''  - Quantity: '', to_string (valueint quantity)])
                                       (to_stdout (strcat [''  - Category: '', c])
                                       (to_stdout (strcat [''  - Item: '', i]) s)))
                                 | _ \<Rightarrow> None)
                            | _ \<Rightarrow> Some s))
               else Some (print_server_error ''Error while processing stock report from server: '' doc s)))"

fun print_history :: "cJSON list \<Rightarrow> client \<Rightarrow> client option" where
  "print_history [] s = Some s"
| "print_history (e # es) s =
     (case (cJSON_GetObjectItem e ''timestamp'', cJSON_GetObjectItem e ''message'') of
        (Some timestamp, Some message) \<Rightarrow>
          (case (valuestring timestamp, valuestring message) of
             (Some t, Some m) \<Rightarrow> print_history es (to_stdout (strcat [''  - ['', t, ''] '', m]) s)
           | _ \<Rightarrow> None)
      | _ \<Rightarrow> print_history es s)"

definition print_get_history_response :: "string \<Rightarrow> client \<Rightarrow> client option" where
  "print_get_history_response response s =
     (case cJSON_Parse response of
        None \<Rightarrow> Some (to_stdout ''Error: Could not parse server response.'' s)
      | Some doc \<Rightarrow>
          (case text_of (cJSON_GetObjectItem doc ''status'') of
             None \<Rightarrow> None
           | Some st \<Rightarrow>
               if st = ''success'' then
                 (case cJSON_GetObjectItem doc ''data'' of
                    Some data \<Rightarrow>
                      if cJSON_IsArray data \<and> cJSON_GetArraySize data > 0 then
                        map_option (logger_log ''Output_handler'' LOG_INFO ''Inventory history retrieved successfully.'')
                          (print_history (children data) (to_stdout ''--- Inventory History ---'' s))
                      else
                        Some (to_stdout ''No inventory history found for this client.''
                          (logger_log ''Output_handler'' LOG_WARNING ''No inventory history found for this client.'' s))
                  | None \<Rightarrow>
                      Some (to_stdout ''No inventory history found for this client.''
                        (logger_log ''Output_handler'' LOG_WARNING ''No inventory history found for this client.'' s)))
               else Some (print_server_error ''Error while retrieving inventory history from server: '' doc s)))"

text \<open>The client id is part of a format that is passed on without arguments.\<close>

definition post_login_procedures ::
  "cJSON \<Rightarrow> string \<Rightarrow> string \<Rightarrow> client \<Rightarrow> (bool \<times> client) option" where
  "post_login_procedures doc status message s =
     (case string_item (cJSON_GetObjectItem doc ''client_id'') of
        None \<Rightarrow>
          Some (False, to_stdout ''Error: Login response missing client_id.''
            (logger_log ''Output_handler'' LOG_ERROR ''Error: Login response missing client_id.'' s))
      | Some c \<Rightarrow>
          (let s = to_stdout (strcat [''-Message: '', message]) (to_stdout (strcat [''-Status: '', status]) s);
               log_msg = take (MAX_LOG_MESSAGE_SIZE - 1) (strcat [''Login successful. Client ID: '', c])
           in map_option (\<lambda>s. (True, client_context_set_id (Some c) s))
                (logger_log_format ''Output_handler'' LOG_INFO log_msg s)))"

definition handle_login_response :: "string \<Rightarrow> client \<Rightarrow> (bool \<times> client) option" where
  "handle_login_response response s =
     (case cJSON_Parse response of
        None \<Rightarrow> Some (False, to_stdout ''Error: Could not parse server response.'' s)
      | Some doc \<Rightarrow>
          (case string_item (cJSON_GetObjectItem doc ''status'') of
             None \<Rightarrow>
               Some (False, to_stdout ''Error: Invalid server response (missing status).''
                 (logger_log ''Output_handler'' LOG_ERROR ''Error: Invalid server response (missing status).'' s))
           | Some status \<Rightarrow>
               (case string_item (cJSON_GetObjectItem doc ''message'') of
                  None \<Rightarrow>
                    Some (False, to_stdout ''Error: Invalid server response (missing message).''
                      (logger_log ''Output_handler'' LOG_ERROR ''Error: Invalid server response (missing message).'' s))
                | Some message \<Rightarrow>
                    if status = ''success'' then post_login_procedures doc status message s
                    else
                      Some (False, to_stdout (strcat [''Error from server: '', message])
                        (logger_log ''Output_handler'' LOG_WARNING ''Login failed'' s)))))"

definition print_readable_response :: "string \<Rightarrow> string \<Rightarrow> client \<Rightarrow> (bool \<times> client) option" where
  "print_readable_response response input_buffer s =
     (case strtok (take (client_BUFFER_SIZE - 1) input_buffer) of
        None \<Rightarrow> None
      | Some (command, _) \<Rightarrow>
          if command = ''get_inventory'' then map_option (Pair False) (print_inventory_response response s)
          else if command = ''get_stock'' then map_option (Pair False) (print_get_stock_response response s)
          else if command = ''get_history'' then map_option (Pair False) (print_get_history_response response s)
          else if command = ''login'' then handle_login_response response s
          else
            Some (False,
              case cJSON_Parse response of
                None \<Rightarrow>
                  to_stdout ''Error: Could not parse server response.''
                    (logger_log ''Output_handler'' LOG_WARNING ''Error: Could not parse server response.'' s)
              | Some doc \<Rightarrow>
                  (let s = (case string_item (cJSON_GetObjectItem doc ''status'') of
                         None \<Rightarrow> s | Some t \<Rightarrow> to_stdout (strcat [''-Status: '', t]) s)
                   in case string_item (cJSON_GetObjectItem doc ''message'') of
                        None \<Rightarrow> s | Some m \<Rightarrow> to_stdout (strcat [''-Message: '', m]) s)))"

section \<open>transport.c and session\_handler.c\<close>

datatype transaction_result =
  TRANSACTION_SUCCESS | TRANSACTION_SERVER_CLOSED | TRANSACTION_ERROR | TRANSACTION_CLOSE | TRANSACTION_LOGIN_SUCCESS

text \<open>Whether the call succeeded, and what was read: \<open>None\<close> for an error, no bytes at the end.\<close>

definition tcp_send :: "string \<Rightarrow> client \<Rightarrow> bool \<times> client" where
  "tcp_send message s =
     (case send_faults s of
        [] \<Rightarrow> (True, s\<lparr>tcp_sent := tcp_sent s @ [message]\<rparr>)
      | f # fs \<Rightarrow> if f then (False, s\<lparr>send_faults := fs\<rparr>)
                 else (True, s\<lparr>send_faults := fs, tcp_sent := tcp_sent s @ [message]\<rparr>))"

definition tcp_recv :: "nat \<Rightarrow> client \<Rightarrow> string option \<times> client" where
  "tcp_recv len s =
     (case recv_answers s of
        [] \<Rightarrow> (Some [], s)
      | a # as \<Rightarrow> (map_option (take len) a, s\<lparr>recv_answers := as\<rparr>))"

definition handle_server_transaction :: "string \<Rightarrow> string \<Rightarrow> client \<Rightarrow> (transaction_result \<times> client) option" where
  "handle_server_transaction message input_buffer_copy s =
     (let (sent, s) = tcp_send message s
      in if \<not> sent then
           Some (TRANSACTION_ERROR, logger_log ''Session_handler'' LOG_ERROR ''Error writing to socket'' s)
         else
           (let (bytes, s) = tcp_recv (client_BUFFER_SIZE - 1) s
            in case bytes of
                 None \<Rightarrow>
                   Some (TRANSACTION_ERROR, logger_log ''Session_handler'' LOG_ERROR ''Error reading from socket'' s)
               | Some b \<Rightarrow>
                   if b = [] then
                     Some (TRANSACTION_SERVER_CLOSED,
                       logger_log ''Session_handler'' LOG_WARNING ''Server closed the connection.''
                         (to_stdout ''Server closed the connection.'' s))
                   else
                     map_option
                       (\<lambda>(login, s).
                          if login then
                            (TRANSACTION_LOGIN_SUCCESS,
                             logger_log ''Session_handler'' LOG_INFO ''Client successfully logged in.'' s)
                          else
                            (TRANSACTION_SUCCESS,
                             logger_log ''Session_handler'' LOG_INFO
                               ''Successfull Transaction. Received response from server'' s))
                       (print_readable_response (c_string b) input_buffer_copy s)))"

text \<open>
  What the first call of \<^verbatim>\<open>strtok\<close> leaves of the buffer: the terminator is behind the first word.
\<close>

definition first_word_left :: "string \<Rightarrow> string" where
  "first_word_left buffer =
     takeWhile is_blank buffer @ takeWhile (\<lambda>c. \<not> is_blank c) (dropWhile is_blank buffer)"

definition end_message :: string where
  "end_message = [CHR ''{'', CHR 0x22] @ ''command'' @ [CHR 0x22, CHR '':'', CHR 0x22] @ ''end'' @ [CHR 0x22, CHR ''}'']"

definition execute_client_action ::
  "bool \<Rightarrow> UserInputAction \<Rightarrow> string \<Rightarrow> client \<Rightarrow> (transaction_result \<times> client) option" where
  "execute_client_action mem action buffer s =
     (case action of
        INPUT_ACTION_SEND \<Rightarrow>
          (case build_json_from_input mem buffer s of
             None \<Rightarrow> None
           | Some (build, s) \<Rightarrow>
               if build_status build = JSON_BUILD_ERROR_MEMORY then
                 Some (TRANSACTION_ERROR, logger_log ''Session_handler'' LOG_ERROR ''Memory error while building JSON.'' s)
               else if build_status build = JSON_BUILD_ERROR_SYNTAX then Some (TRANSACTION_SUCCESS, s)
               else
                 (case json_string build of
                    None \<Rightarrow> None
                  | Some message \<Rightarrow> handle_server_transaction message (first_word_left buffer) s))
      | INPUT_ACTION_QUIT \<Rightarrow>
          map_option (\<lambda>(r, s). (if r = TRANSACTION_ERROR then r else TRANSACTION_CLOSE, s))
            (handle_server_transaction end_message ''end'' s)
      | INPUT_ACTION_CONTINUE \<Rightarrow> Some (TRANSACTION_SUCCESS, s)
      | INPUT_ACTION_ERROR \<Rightarrow> Some (TRANSACTION_SUCCESS, to_stderr ''Invalid input action.'' s))"

definition create_thread :: "aux_thread \<Rightarrow> client \<Rightarrow> bool \<times> client" where
  "create_thread t s =
     (case thread_faults s of
        [] \<Rightarrow> (True, s\<lparr>threads := threads s @ [t]\<rparr>)
      | f # fs \<Rightarrow> if f then (False, s\<lparr>thread_faults := fs\<rparr>)
                 else (True, s\<lparr>thread_faults := fs, threads := threads s @ [t]\<rparr>))"

definition session_start_aux_threads :: "client \<Rightarrow> bool \<times> client" where
  "session_start_aux_threads s =
     (let (ok, s) = create_thread Keepalive_thread s
      in if \<not> ok then (False, logger_log ''Session_handler'' LOG_ERROR ''Failed to create keepalive thread'' s)
         else
           (let (ok, s) = create_thread Listener_thread s
            in if \<not> ok then (False, logger_log ''Session_handler'' LOG_ERROR ''Failed to create UDP listener thread'' s)
               else (True, logger_log ''Session_handler'' LOG_INFO ''Auxiliary threads started successfully.'' s)))"

text \<open>The parent's part; the child becomes the terminal of the dashboard.\<close>

definition launch_dashboard :: "string option \<Rightarrow> client \<Rightarrow> bool \<times> client" where
  "launch_dashboard is_docker s =
     (if client_context_get_id s = [] then
        (False, to_stderr ''Client ID is not set, cannot launch dashboard.''
           (logger_log ''Session_handler'' LOG_ERROR ''Client ID is not set, cannot launch dashboard.'' s))
      else if is_docker = Some ''1'' then
        (False, to_stderr
           (strcat [''Dashboard must be launched manually in Docker:\<newline>python3 ./scripts/dashboard.py '', client_context_get_id s])
           (logger_log ''Session_handler'' LOG_INFO ''Running in Docker, dashboard must be launched manually.'' s))
      else
        (case fork_faults s of
           True # fs \<Rightarrow> (False, logger_log ''Session_handler'' LOG_ERROR ''Failed to fork for dashboard'' (s\<lparr>fork_faults := fs\<rparr>))
         | fs \<Rightarrow>
             (True, logger_log ''Session_handler'' LOG_INFO ''Dashboard launched successfully.''
                (s\<lparr>fork_faults := tl fs, dashboards := dashboards s + 1\<rparr>))))"

definition client_signal_handler :: "client \<Rightarrow> client" where
  "client_signal_handler s = s\<lparr>signal_exit := True\<rparr>"

text \<open>
  What \<^verbatim>\<open>fgets\<close> meets: a line (with whether there is memory for its message), or a signal
  whose handler closes the input.  After the last one the input is at its end.
\<close>

datatype user_input = Line bool string | Signal

definition prompt :: string where
  "prompt = strcat [''Enter message to send(or '', quote, ''end'', quote, '' to stop): '']"

fun communication_loop :: "string option \<Rightarrow> user_input list \<Rightarrow> client \<Rightarrow> (int \<times> client) option" where
  "communication_loop is_docker [] s =
     Some (0, client_context_request_exit (if signal_exit s then s else to_stdout prompt s))"
| "communication_loop is_docker (i # is) s =
     (if signal_exit s then Some (0, client_context_request_exit s)
      else
        (case i of
           Signal \<Rightarrow> Some (0, client_context_request_exit (client_signal_handler (to_stdout prompt s)))
         | Line mem t \<Rightarrow>
             (let (action, buffer) = process_user_input (take (client_BUFFER_SIZE - 1) t)
              in case execute_client_action mem action buffer (to_stdout prompt s) of
                   None \<Rightarrow> None
                 | Some (result, s) \<Rightarrow>
                     (case result of
                        TRANSACTION_LOGIN_SUCCESS \<Rightarrow>
                          (let (ok, s) = session_start_aux_threads s
                           in if \<not> ok then
                                Some (-1, logger_log ''Session_handler'' LOG_ERROR ''Failed to start auxiliary threads.'' s)
                              else
                                (let (ok, s) = launch_dashboard is_docker s
                                 in communication_loop is_docker is
                                      (if \<not> ok then logger_log ''Session_handler'' LOG_WARNING ''Failed to launch dashboard.'' s
                                       else s)))
                      | TRANSACTION_ERROR \<Rightarrow>
                          Some (-1, to_stdout ''Closing client...''
                            (logger_log ''Session_handler'' LOG_ERROR ''Error during transaction execution'' s))
                      | TRANSACTION_SERVER_CLOSED \<Rightarrow>
                          Some (0, to_stdout ''Closing client...''
                            (logger_log ''Session_handler'' LOG_INFO ''Client session ended by user or server.'' s))
                      | TRANSACTION_CLOSE \<Rightarrow>
                          Some (0, to_stdout ''Closing client...''
                            (logger_log ''Session_handler'' LOG_INFO ''Client session ended by user or server.'' s))
                      | TRANSACTION_SUCCESS \<Rightarrow> communication_loop is_docker is s))))"

definition start_communication :: "string option \<Rightarrow> user_input list \<Rightarrow> client \<Rightarrow> (int \<times> client) option" where
  "start_communication is_docker is s =
     (let (bytes, s) = tcp_recv (client_BUFFER_SIZE - 1) s
      in case bytes of
           Some (c # b) \<Rightarrow>
             communication_loop is_docker is (to_stdout (strcat [''Server says: '', c_string (c # b)]) s)
         | _ \<Rightarrow>
             Some (-1, logger_log ''Session_handler'' LOG_ERROR
               ''Failed to receive welcome message or server closed connection'' s))"

section \<open>udp\_handler.c\<close>

definition client_BUFFER_SIZE_UDP :: nat where "client_BUFFER_SIZE_UDP = 256"

definition KEEPALIVE_MSG_SIZE :: nat where "KEEPALIVE_MSG_SIZE = 128"

definition udp_send :: "string \<Rightarrow> client \<Rightarrow> bool \<times> client" where
  "udp_send message s =
     (case udp_send_answers s of
        [] \<Rightarrow> (True, s\<lparr>udp_sent := udp_sent s @ [message]\<rparr>)
      | ok # as \<Rightarrow> if ok then (True, s\<lparr>udp_send_answers := as, udp_sent := udp_sent s @ [message]\<rparr>)
                  else (False, s\<lparr>udp_send_answers := as\<rparr>))"

definition keepalive_msg :: "string \<Rightarrow> string" where
  "keepalive_msg c = take (KEEPALIVE_MSG_SIZE - 1)
     ([CHR ''{'', CHR 0x22] @ ''command'' @ [CHR 0x22, CHR '':'', CHR 0x22] @ ''keepalive'' @ [CHR 0x22, CHR '','', CHR '' '', CHR 0x22] @
      ''clientId'' @ [CHR 0x22, CHR '':'', CHR 0x22] @ c @ [CHR 0x22, CHR ''}''])"

text \<open>The loop of the keepalive thread, for a number of turns of the clock.\<close>

fun keepalive_loop :: "nat \<Rightarrow> string \<Rightarrow> client \<Rightarrow> client" where
  "keepalive_loop 0 msg s = s"
| "keepalive_loop (Suc n) msg s =
     (if exit_requested s then s
      else
        (let (ok, s) = udp_send msg s
         in if \<not> ok then logger_log ''UDP_handler'' LOG_ERROR ''Failed to send keepalive message'' s
            else keepalive_loop n msg (logger_log ''UDP_handler'' LOG_INFO ''Keepalive message sent successfully.'' s)))"

definition keepalive_thread_func :: "nat \<Rightarrow> client \<Rightarrow> client" where
  "keepalive_thread_func turns s =
     (if udp_socket s < 0 then logger_log ''UDP_handler'' LOG_ERROR ''Invalid UDP socket'' s
      else if client_context_get_id s = [] then
        to_stderr ''Client ID is not set.'' (logger_log ''UDP_handler'' LOG_WARNING ''Client ID is not set.'' s)
      else keepalive_loop turns (keepalive_msg (client_context_get_id s)) s)"

text \<open>The listener, over the datagrams that arrive (\<open>None\<close> is an error of the call).\<close>

fun udp_listener_thread_func :: "string option list \<Rightarrow> client \<Rightarrow> client" where
  "udp_listener_thread_func [] s = s"
| "udp_listener_thread_func (d # ds) s =
     (if exit_requested s then s
      else
        (case d of
           None \<Rightarrow> logger_log ''UDP_handler'' LOG_ERROR ''UDP receive error'' s
         | Some bytes \<Rightarrow>
             if bytes = [] then
               to_stdout ''UDP socket closed by server.''
                 (logger_log ''UDP_handler'' LOG_WARNING ''UDP socket closed by server.'' s)
             else
               (let buffer = c_string (take (client_BUFFER_SIZE_UDP - 1) bytes);
                    s = logger_log ''UDP_handler'' LOG_INFO (strcat [''UDP Message received: '', buffer]) s;
                    (ok, s) = ipc_send_message buffer s
                in udp_listener_thread_func ds
                     (if \<not> ok then
                        to_stderr ''Error: Failed to send IPC message.''
                          (logger_log ''UDP_handler'' LOG_ERROR ''Error: Failed to send IPC message.'' s)
                      else s))))"

section \<open>client.c\<close>

text \<open>An address that getaddrinfo returned: the descriptor for it (or -1) and the answer of \<^verbatim>\<open>connect\<close>.\<close>

record address =
  a_socket :: int
  a_connect :: bool
  a_addr :: nat

text \<open>
  The loop over the addresses: the descriptor and whether an address is left when it ends.
  A datagram socket is not connected; its address is kept for \<^verbatim>\<open>sendto\<close>.
\<close>

fun try_addresses :: "string \<Rightarrow> int \<Rightarrow> address list \<Rightarrow> client \<Rightarrow> bool \<times> int \<times> client" where
  "try_addresses protocol sockfd [] s = (False, sockfd, s)"
| "try_addresses protocol sockfd (a # as) s =
     (if a_socket a = -1 then try_addresses protocol (-1) as (logger_log ''Client'' LOG_ERROR ''socket error'' s)
      else
        (let s = (if protocol = ''udp'' then s\<lparr>peer_addr := Some (a_addr a)\<rparr> else s)
         in if protocol = ''tcp'' \<and> \<not> a_connect a then
              try_addresses protocol (-1) as
                ((logger_log ''Client'' LOG_ERROR ''connect error'' s)\<lparr>closed_fds := closed_fds s @ [a_socket a]\<rparr>)
            else (True, a_socket a, s)))"

definition socket_validation :: "bool \<Rightarrow> int \<Rightarrow> string \<Rightarrow> client \<Rightarrow> bool \<times> client" where
  "socket_validation found sockfd protocol s =
     (if found then
        (True, logger_log ''Client'' LOG_INFO
           (if protocol = ''tcp'' then ''TCP connection established.'' else ''UDP connection established.'')
           (if protocol = ''tcp'' then s\<lparr>tcp_socket := sockfd\<rparr> else s\<lparr>udp_socket := sockfd\<rparr>))
      else
        (let s = to_stderr ''Failed to connect to any address.''
               (logger_log ''Client'' LOG_ERROR ''Failed to connect to any address.'' s)
         in (False, s\<lparr>closed_fds := closed_fds s @ [sockfd]\<rparr>)))"

text \<open>\<open>answer\<close> is the list of addresses, or \<open>None\<close> when getaddrinfo failed.\<close>

definition setup_and_connect :: "address list option \<Rightarrow> string \<Rightarrow> client \<Rightarrow> bool \<times> client" where
  "setup_and_connect answer protocol s =
     (case answer of
        None \<Rightarrow> (False, to_stderr ''getaddrinfo error'' (logger_log ''Client'' LOG_ERROR ''getaddrinfo error'' s))
      | Some addresses \<Rightarrow>
          (let (found, sockfd, s) = try_addresses protocol (-1) addresses s
           in socket_validation found sockfd protocol s))"

definition client_cleanup :: "client \<Rightarrow> client option" where
  "client_cleanup s =
     (let s = (if tcp_socket s \<noteq> -1 then s\<lparr>closed_fds := closed_fds s @ [tcp_socket s]\<rparr> else s);
          s = (if udp_socket s \<noteq> -1 then s\<lparr>closed_fds := closed_fds s @ [udp_socket s]\<rparr> else s)
      in map_option (\<lambda>s. to_stdout ''Client cleanup completed.'' (logger_close s))
           (if ipc_queue s \<noteq> -1 then map_option (\<lambda>(_, s). s\<lparr>mq_unlinked := True\<rparr>) (ipc_exit s) else Some s))"

section \<open>main.c\<close>

text \<open>What main meets in its environment.\<close>

record main_env =
  env_client_port :: "string option"
  env_is_docker :: "string option"
  log_opened :: bool
  tcp_addresses :: "address list option"
  udp_addresses :: "address list option"
  mq_opened :: int
  user_inputs :: "user_input list"

definition exit_with :: "int \<Rightarrow> client \<Rightarrow> (int \<times> client) option" where
  "exit_with code s = map_option (Pair code) (client_cleanup s)"

definition client_main :: "string list \<Rightarrow> main_env \<Rightarrow> client \<Rightarrow> (int \<times> client) option" where
  "client_main argv env s =
     (case parse_arguments argv (env_client_port env) of
        None \<Rightarrow> Some (1, s)
      | Some config \<Rightarrow>
          (let (opened, s) = logger_init (log_opened env) s
           in if opened \<noteq> 0 then Some (1, to_stderr ''Logger initialization failed. Exiting.'' s)
              else
                (let (setup, s) = setup_and_connect (tcp_addresses env) ''tcp'' (client_context_init s)
                 in if \<not> setup then
                      exit_with 1 (to_stderr ''Could not establish tcp connection.''
                        (logger_log ''Main'' LOG_ERROR ''Could not establish TCP connection.'' s))
                    else
                      (let s = to_stdout (strcat [''Connection successful to '', argv ! 1, ''! TCP Socket FD is '', to_string (tcp_socket s)]) s;
                           s = logger_log ''Main'' LOG_INFO (strcat [''TCP connection established. Socket FD is '', to_string (tcp_socket s)]) s;
                           (setup, s) = setup_and_connect (udp_addresses env) ''udp'' s
                       in if \<not> setup then
                            map_option (\<lambda>(r, s). (r, to_stderr ''Could not establish udp connection.'' s))
                              (exit_with 1 (logger_log ''Main'' LOG_ERROR ''Could not establish UDP connection.'' s))
                          else
                            (let s = to_stdout (strcat [''Connection successful to '', argv ! 1, ''! UDP Socket FD is '', to_string (udp_socket s)]) s;
                                 s = logger_log ''Main'' LOG_INFO (strcat [''UDP connection established. Socket FD is '', to_string (udp_socket s)]) s;
                                 (ok, s) = ipc_init (mq_opened env) s
                             in if \<not> ok then
                                  exit_with 1 (to_stderr ''IPC initialization failed.''
                                    (logger_log ''Main'' LOG_ERROR ''IPC initialization failed.'' s))
                                else
                                  (case start_communication (env_is_docker env) (user_inputs env) s of
                                     None \<Rightarrow> None
                                   | Some (r, s) \<Rightarrow>
                                       if r < 0 then
                                         exit_with 1 (to_stderr ''An error occurred during communication.''
                                           (logger_log ''Main'' LOG_ERROR ''Communication failed.'' s))
                                       else exit_with 0 s))))))"

end
