(* ===== verification/ClientProps.thy ===== *)
theory ClientProps
  imports ClientLoop
begin

text \<open>
  What the client sends and how it understands its answers: the requests are the words of the
  user as JSON, logins, keepalives and the messages to the dashboard.
\<close>

section \<open>Specifications\<close>

text \<open>The words of a line.\<close>

function blank_words :: "string \<Rightarrow> string list" where
  "blank_words t = (case strtok t of None \<Rightarrow> [] | Some (w, r) \<Rightarrow> w # blank_words r)"
  by pat_completeness auto
termination
proof (relation "measure length")
  fix t w r p assume "strtok t = Some p" "(w, r) = p"
  then have "dropWhile is_blank t \<noteq> []" and r: "r = drop 1 (dropWhile (\<lambda>c. \<not> is_blank c) (dropWhile is_blank t))"
    by (auto simp: strtok_def Let_def split: if_splits)
  then obtain c u where "dropWhile is_blank t = c # u" and "\<not> is_blank c"
    using hd_dropWhile [of is_blank t] by (cases "dropWhile is_blank t") auto
  with r length_dropWhile_le [of "\<lambda>c. \<not> is_blank c" u] length_dropWhile_le [of is_blank t]
  show "(r, t) \<in> measure length" by auto
qed simp

declare blank_words.simps [simp del]

definition text_member :: "string \<Rightarrow> string \<Rightarrow> cJSON" where
  "text_member k v = Item cJSON_String (Some v) 0 (Finite 0) (Some k) []"

definition number_member :: "string \<Rightarrow> int \<Rightarrow> cJSON" where
  "number_member k n = Item cJSON_Number None n (Finite (of_int n)) (Some k) []"

definition json_object_of :: "string option \<Rightarrow> cJSON list \<Rightarrow> cJSON" where
  "json_object_of k ms = Item cJSON_Object None 0 (Finite 0) k ms"

definition two_names :: "string \<Rightarrow> (string \<times> string) option" where
  "two_names command = map_of
     [(''get_stock'', (''category'', ''item'')), (''login'', (''hostname'', ''password'')),
      (''register_user'', (''new_client_id'', ''new_client_password'')),
      (''unlock_client'', (''client_to_unlock'', ''secret_phrase''))] command"

text \<open>The request for the words of a line: nothing when arguments are missing.\<close>

definition request_of :: "string \<Rightarrow> string list \<Rightarrow> cJSON option" where
  "request_of command args =
     (if command = ''update_stock'' then
        (case args of
           c # i # q # _ \<Rightarrow>
             (case strtol q of
                Some (n, []) \<Rightarrow>
                  Some (json_object_of None [text_member ''command'' command,
                    json_object_of (Some ''payload'') [text_member ''category'' c, text_member ''item'' i, number_member ''quantity'' n]])
              | _ \<Rightarrow> None)
         | _ \<Rightarrow> None)
      else
        (case two_names command of
           Some (k1, k2) \<Rightarrow>
             (case args of
                a # b # _ \<Rightarrow>
                  Some (json_object_of None [text_member ''command'' command,
                    json_object_of (Some ''payload'') [text_member k1 a, text_member k2 b]])
              | _ \<Rightarrow> None)
         | None \<Rightarrow> Some (json_object_of None [text_member ''command'' command])))"

text \<open>The id that a login response gives the client: nothing unless it is a success with an id.\<close>

definition logged_in_as :: "string \<Rightarrow> string option" where
  "logged_in_as response =
     (case cJSON_Parse response of
        None \<Rightarrow> None
      | Some doc \<Rightarrow>
          if string_item (cJSON_GetObjectItem doc ''status'') = Some ''success''
             \<and> string_item (cJSON_GetObjectItem doc ''message'') \<noteq> None
          then string_item (cJSON_GetObjectItem doc ''client_id'') else None)"

text \<open>The priority of a message to the dashboard: only objects with a category have one.\<close>

definition ipc_priority :: "string \<Rightarrow> int option" where
  "ipc_priority message =
     (case cJSON_Parse message of
        None \<Rightarrow> None
      | Some doc \<Rightarrow>
          (case cJSON_GetObjectItem doc ''category'' of
             None \<Rightarrow> None
           | Some c \<Rightarrow>
               if cJSON_IsString c
               then Some (case_option 0 (\<lambda>p. p) (map_of [(Some ''exit'', 3), (Some ''alert'', 2), (Some ''keepalive'', 1)] (valuestring c)))
               else None))"

text \<open>Characters that stand for themselves in a JSON string.\<close>

definition plain :: "string \<Rightarrow> bool" where
  "plain t \<longleftrightarrow> (\<forall>c \<in> set t. 32 \<le> (of_char c :: nat) \<and> c \<noteq> CHR 0x22 \<and> c \<noteq> CHR 0x5C)"

section \<open>Lemmas\<close>

lemma strtok_words: "strtok t = None \<longleftrightarrow> blank_words t = []" "strtok t = Some (w, r) \<Longrightarrow> blank_words t = w # blank_words r"
  by (simp_all add: blank_words.simps [of t] split: option.splits)

text \<open>The words that are still to be read.\<close>

lemma next_word_words:
  assumes "next_word rest = (w, rest')"
  shows "w = (case case_option [] blank_words rest of [] \<Rightarrow> None | a # _ \<Rightarrow> Some a)"
    and "case_option [] blank_words rest' = tl (case_option [] blank_words rest)"
  using assms by (auto simp: next_word_def strtok_words(2) strtok_words(1) [THEN iffD1] split: option.splits)

lemma strtok_text: "strtok t = Some (w, r) \<Longrightarrow> set w \<union> set r \<subseteq> set t"
  by (auto simp: strtok_def Let_def dest!: set_takeWhileD in_set_dropD split: if_splits dest: set_dropWhileD)

lemma words_text: "w \<in> set (blank_words t) \<Longrightarrow> c_text t \<Longrightarrow> c_text w"
proof (induction t rule: blank_words.induct)
  case (1 t)
  then obtain a b where ab: "strtok t = Some (a, b)"
    by (cases "strtok t") (auto simp: blank_words.simps [of t])
  have "c_text a" and b: "c_text b" using strtok_text [OF ab] 1(3) by (auto simp: c_text_def)
  then show ?case using 1(1) [OF ab refl _ b] 1(2) by (auto simp: strtok_words(2) [OF ab])
qed

lemmas tree_defs = cJSON_CreateObject_def cJSON_AddStringToObject_def cJSON_AddNumberToObject_def
  cJSON_AddItemToObject_def cJSON_CreateString_def cJSON_CreateNumber_def cJSON_New_Item_def with_string_def

lemmas member_defs = text_member_def number_member_def json_object_of_def

lemma number_item: "is_int32 n \<Longrightarrow> to_double (of_int n) = Finite (of_int n)"
  by (rule to_double_int) (auto simp: is_int32_def)

lemma request_canonical:
  assumes "request_of command args = Some doc" and "c_text command" and "\<forall>a \<in> set args. c_text a"
    and "\<forall>n. command = ''update_stock'' \<and> 3 \<le> length args \<and> strtol (args ! 2) = Some (n, []) \<longrightarrow> is_int32 n"
  shows "\<exists>t. cJSON_PrintUnformatted doc = Some t \<and> cJSON_Parse t = Some doc"
proof (rule print_parse)
  show "canonical doc" using assms
    by (auto simp: request_of_def two_names_def member_defs c_text_def numeral_2_eq_2
        split: if_splits list.splits option.splits prod.splits)
  show "nesting doc \<le> CJSON_NESTING_LIMIT" "item_string doc = None" using assms(1)
    by (auto simp: request_of_def member_defs CJSON_NESTING_LIMIT_def split: if_splits list.splits option.splits prod.splits)
qed

lemma log_frame [simp]:
  "client_id (logger_log c l m s) = client_id s" "client_id (to_stdout t s) = client_id s" "client_id (to_stderr t s) = client_id s"
  "mq_messages (logger_log c l m s) = mq_messages s" "mq_messages (to_stdout t s) = mq_messages s" "mq_messages (to_stderr t s) = mq_messages s"
  "mq_answers (logger_log c l m s) = mq_answers s" "mq_answers (to_stdout t s) = mq_answers s" "mq_answers (to_stderr t s) = mq_answers s"
  "udp_sent (logger_log c l m s) = udp_sent s" "udp_send_answers (logger_log c l m s) = udp_send_answers s"
  "exit_requested (logger_log c l m s) = exit_requested s" "log_open (logger_log c l m s) = log_open s"
  "log_open (to_stdout t s) = log_open s"
  by (simp_all add: logger_log_def to_stdout_def to_stderr_def)

lemma format_plain: "CHR ''%'' \<notin> set t \<Longrightarrow> format_no_arguments t = Some t"
  by (induction t) auto

lemma login_format:
  assumes "CHR ''%'' \<notin> set c"
  shows "\<exists>s'. logger_log_format component level (take n (strcat [''Login successful. Client ID: '', c])) s = Some s' \<and> client_id s' = client_id s"
proof -
  have "CHR ''%'' \<notin> set (take n (strcat [''Login successful. Client ID: '', c]))"
    using assms by (auto simp: strcat_def dest: in_set_takeD)
  then show ?thesis by (auto simp: logger_log_format_def format_plain)
qed

lemma priority_check_spec:
  "priority_check message s = (p, s') \<Longrightarrow>
     p = case_option (-1) (\<lambda>p. p) (ipc_priority message) \<and> mq_messages s' = mq_messages s \<and> mq_answers s' = mq_answers s"
  by (auto simp: priority_check_def ipc_priority_def Let_def split: option.splits if_splits)

lemma ipc_priority_range: "ipc_priority message = Some p \<Longrightarrow> p \<in> {0 .. 3}"
  by (auto simp: ipc_priority_def split: option.splits if_splits)

lemma keepalive_loop_sends:
  "udp_send_answers s = [] \<Longrightarrow> \<not> exit_requested s \<Longrightarrow>
     udp_sent (keepalive_loop n m s) = udp_sent s @ replicate n m"
  by (induction n arbitrary: s) (simp_all add: udp_send_def)

lemma plain_printed: "plain c \<Longrightarrow> print_string_ptr (Some c) = CHR 0x22 # c @ [CHR 0x22]"
proof -
  assume "plain c"
  then have "concat (map escape_char c) = c"
    by (induction c) (auto simp: plain_def escape_char_def)
  then show ?thesis by (simp add: print_string_ptr_def)
qed

text \<open>A line of blanks has no command, and the comparison with the first name is undefined.\<close>

lemma blank_line_undefined: "blank_words line = [] \<Longrightarrow> build_json_from_input mem line s = None"
  by (simp add: build_json_from_input_def strtok_words(1) [THEN iffD2])

lemma build_two_strings_request:
  assumes "case_option [] blank_words rest = args"
  shows "\<exists>res s'. build_two_strings True usage k1 k2 what command rest s = (res, s') \<and>
           (case args of
              a # b # _ \<Rightarrow> s' = s \<and> res = build_success (json_object_of None [text_member ''command'' command,
                 json_object_of (Some ''payload'') [text_member k1 a, text_member k2 b]])
            | _ \<Rightarrow> build_status res = JSON_BUILD_ERROR_SYNTAX \<and> json_string res = None)"
proof -
  obtain w1 r1 where 1: "next_word rest = (w1, r1)" by (cases "next_word rest")
  obtain w2 r2 where 2: "next_word r1 = (w2, r2)" by (cases "next_word r1")
  show ?thesis using assms next_word_words [OF 1] next_word_words [OF 2]
    by (auto simp: build_two_strings_def 1 2 build_error_def tree_defs member_defs split: list.splits)
qed

lemma build_update_stock_request:
  assumes "case_option [] blank_words rest = args"
    and "\<forall>n. 3 \<le> length args \<and> strtol (args ! 2) = Some (n, []) \<longrightarrow> is_int32 n"
  shows "\<exists>res s'. build_json_for_update_stock True ''update_stock'' rest s = (res, s') \<and>
           (case request_of ''update_stock'' args of
              None \<Rightarrow> build_status res = JSON_BUILD_ERROR_SYNTAX \<and> json_string res = None
            | Some doc \<Rightarrow> res = build_success doc \<and> s' = s)"
proof -
  obtain w1 r1 where 1: "next_word rest = (w1, r1)" by (cases "next_word rest")
  obtain w2 r2 where 2: "next_word r1 = (w2, r2)" by (cases "next_word r1")
  obtain w3 r3 where 3: "next_word r2 = (w3, r3)" by (cases "next_word r2")
  note words = assms(1) next_word_words [OF 1] next_word_words [OF 2] next_word_words [OF 3]
  show ?thesis
  proof (cases "3 \<le> length args")
    case True
    then obtain a b q as where args: "args = a # b # q # as"
      by (cases args rule: remdups_adj.cases) (auto simp: Suc_le_length_iff numeral_3_eq_3)
    with words assms(2) show ?thesis
      by (auto simp: build_json_for_update_stock_def 1 2 3 request_of_def build_error_def tree_defs member_defs number_item
          saturate_int split: option.splits list.splits)
  next
    case False
    with words show ?thesis
      by (auto simp: build_json_for_update_stock_def 1 2 3 request_of_def build_error_def split: list.splits option.splits)
  qed
qed

lemma build_request:
  assumes "strtok line = Some (command, r)" and "blank_words r = args"
    and "\<forall>n. command = ''update_stock'' \<and> 3 \<le> length args \<and> strtol (args ! 2) = Some (n, []) \<longrightarrow> is_int32 n"
  shows "\<exists>res s'. build_json_from_input True line s = Some (res, s') \<and>
           (case request_of command args of
              None \<Rightarrow> build_status res = JSON_BUILD_ERROR_SYNTAX \<and> json_string res = None
            | Some doc \<Rightarrow> res = build_success doc \<and> s' = s)"
proof (cases "command = ''update_stock''")
  case True
  then show ?thesis using assms build_update_stock_request [of "Some r" args s]
    by (auto simp: build_json_from_input_def)
next
  case False
  have two: "\<exists>res s'. build_two_strings True usage k1 k2 what command (Some r) s = (res, s') \<and>
           (case args of
              a # b # _ \<Rightarrow> s' = s \<and> res = build_success (json_object_of None [text_member ''command'' command,
                 json_object_of (Some ''payload'') [text_member k1 a, text_member k2 b]])
            | _ \<Rightarrow> build_status res = JSON_BUILD_ERROR_SYNTAX \<and> json_string res = None)" for usage k1 k2 what
    by (rule build_two_strings_request) (simp add: assms(2))
  show ?thesis
  proof (cases "two_names command")
    case None
    with False assms(1) show ?thesis
      by (auto simp: build_json_from_input_def request_of_def two_names_def build_json_for_single_command_def tree_defs member_defs split: if_splits)
  next
    case (Some p)
    obtain usage what where "build_json_from_input True line s = Some (build_two_strings True usage (fst p) (snd p) what command (Some r) s)"
      using False Some assms(1)
      by (auto simp: build_json_from_input_def two_names_def build_json_for_get_stock_def build_json_for_login_def
          build_json_for_register_user_def build_json_for_unlock_client_def split: if_splits)
    with two [of usage "fst p" "snd p" what] False Some show ?thesis
      by (cases args; cases "tl args"; cases p) (auto simp: request_of_def)
  qed
qed

subsection \<open>The text of the keepalive\<close>

lemma plain_text: "plain c \<Longrightarrow> c_text c"
  unfolding plain_def c_text_def by fastforce

lemma parse_plain_string: "plain c \<Longrightarrow> parse_string (CHR 0x22 # c @ CHR 0x22 # r) = Some (c, r)"
  using parse_print_string [OF plain_text, of c r] by (simp add: plain_printed)

lemma parse_plain_value:
  "plain c \<Longrightarrow> parse_value l (CHR 0x22 # c @ CHR 0x22 # r) = Some (Item cJSON_String (Some c) 0 (Finite 0) None [], r)"
  by (simp add: parse_value_eq [of l] parse_value_with_def parse_plain_string)

lemma skip_quote: "buffer_skip_whitespace (CHR 0x22 # t) = CHR 0x22 # t"
  by (simp add: buffer_skip_whitespace_def)

lemma object_loop_member:
  assumes "plain k" and "plain v"
  shows "object_loop (Suc fuel) (parse_value l) (CHR 0x22 # k @ CHR 0x22 # CHR '':'' # CHR 0x22 # v @ CHR 0x22 # CHR ''}'' # r)
           = Some ([text_member k v], r)"
    and "object_loop (Suc fuel) (parse_value l) (CHR 0x22 # k @ CHR 0x22 # CHR '':'' # CHR 0x22 # v @ CHR 0x22 # CHR '','' # r)
           = map_option (\<lambda>(xs, r). (text_member k v # xs, r)) (object_loop fuel (parse_value l) r)"
  using assms
  by (simp_all add: skip_quote parse_plain_string parse_plain_value text_member_def with_string_def
      buffer_skip_whitespace_def del: object_loop.simps add: object_loop.simps(2) [of fuel "parse_value l"])

lemma object_loop_blank:
  "object_loop fuel v (CHR '' '' # CHR 0x22 # t) = object_loop fuel v (CHR 0x22 # t)"
  by (cases fuel) (simp_all add: buffer_skip_whitespace_def)

lemma parse_object_quote:
  "parse_value (Suc l) (CHR ''{'' # CHR 0x22 # t) =
     map_option (\<lambda>(xs, r). (json_object_of None xs, r)) (object_loop (Suc (length t)) (parse_value l) (CHR 0x22 # t))"
  by (simp add: parse_value_with_def parse_object_def skip_quote json_object_of_def is_digit_def del: object_loop.simps)

lemma parse_two_members:
  assumes "plain k1" "plain v1" "plain k2" "plain v2"
  shows "cJSON_Parse (CHR ''{'' # CHR 0x22 # k1 @ CHR 0x22 # CHR '':'' # CHR 0x22 # v1 @ CHR 0x22 # CHR '','' # CHR '' '' #
           CHR 0x22 # k2 @ CHR 0x22 # CHR '':'' # CHR 0x22 # v2 @ [CHR 0x22, CHR ''}'']) =
         Some (json_object_of None [text_member k1 v1, text_member k2 v2])"
  (is "cJSON_Parse ?t = _")
proof -
  have nul: "c_string ?t = ?t" using assms [THEN plain_text] by (intro c_string_text) (simp add: c_text_def)
  have start: "buffer_skip_whitespace (skip_utf8_bom (?t @ [CHR 0x00])) = ?t @ [CHR 0x00]"
    by (simp add: skip_utf8_bom_def buffer_skip_whitespace_def)
  obtain l where "CJSON_NESTING_LIMIT = Suc l" by (cases CJSON_NESTING_LIMIT) (auto simp: CJSON_NESTING_LIMIT_def)
  then have "cJSON_Parse ?t = map_option fst (parse_value (Suc l) (?t @ [CHR 0x00]))"
    unfolding cJSON_Parse_value nul start by simp
  also have "\<dots> = Some (json_object_of None [text_member k1 v1, text_member k2 v2])"
    unfolding append.simps append_assoc parse_object_quote length_append length_Cons add_Suc_right
    using assms by (simp add: object_loop_member object_loop_blank del: object_loop.simps)
  finally show ?thesis .
qed

section \<open>Properties\<close>


text \<open>
  C36. A login response is taken as a login exactly when it reports a success, with a message
  and an id, and then the id is the client's, cut to the 63 characters of its buffer;
  otherwise the client keeps the id it has.  The id must have no percent sign.
\<close>

theorem login_response_sets_id:
  assumes "\<forall>c. logged_in_as response = Some c \<longrightarrow> CHR ''%'' \<notin> set c"
  shows "\<exists>s'. handle_login_response response s = Some (logged_in_as response \<noteq> None, s') \<and>
           client_id s' = (case logged_in_as response of None \<Rightarrow> client_id s | Some c \<Rightarrow> take 63 c)"
proof (cases "logged_in_as response")
  case None
  then show ?thesis
    by (auto simp: handle_login_response_def logged_in_as_def post_login_procedures_def split: option.splits if_splits)
next
  case (Some c)
  then obtain doc m where doc: "cJSON_Parse response = Some doc"
      "string_item (cJSON_GetObjectItem doc ''status'') = Some ''success''"
      "string_item (cJSON_GetObjectItem doc ''message'') = Some m"
      "string_item (cJSON_GetObjectItem doc ''client_id'') = Some c"
    by (auto simp: logged_in_as_def split: option.splits if_splits)
  let ?s = "to_stdout (strcat [''-Message: '', m]) (to_stdout (strcat [''-Status: '', ''success'']) s)"
  obtain s1 where "logger_log_format ''Output_handler'' LOG_INFO
      (take (MAX_LOG_MESSAGE_SIZE - 1) (strcat [''Login successful. Client ID: '', c])) ?s = Some s1"
    using login_format [of c] assms Some by blast
  with doc Some show ?thesis
    by (simp add: handle_login_response_def post_login_procedures_def client_context_set_id_def CLIENT_ID_MAX_LEN_def Let_def)
qed


text \<open>
  C38. While it runs, the keepalive thread sends one message at every turn, and for an id of
  plain characters the message is the JSON object with the command and the whole id: the
  buffer of 128 bytes holds it for every id that the context can have.
\<close>

theorem keepalive_messages:
  assumes "udp_socket s \<ge> 0" and "client_id s \<noteq> []" and "length (client_id s) < 64" and "plain (client_id s)"
    and "udp_send_answers s = []" and "\<not> exit_requested s"
  shows "\<exists>msg. udp_sent (keepalive_thread_func turns s) = udp_sent s @ replicate turns msg \<and>
           cJSON_Parse msg = Some (json_object_of None [text_member ''command'' ''keepalive'', text_member ''clientId'' (client_id s)])"
proof (intro exI conjI)
  let ?msg = "keepalive_msg (client_id s)"
  show "udp_sent (keepalive_thread_func turns s) = udp_sent s @ replicate turns ?msg"
    using assms by (simp add: keepalive_thread_func_def client_context_get_id_def keepalive_loop_sends)
  have "plain ''command''" "plain ''keepalive''" "plain ''clientId''" by (simp_all add: plain_def)
  from parse_two_members [OF this assms(4)] assms(3)
  show "cJSON_Parse ?msg = Some (json_object_of None [text_member ''command'' ''keepalive'', text_member ''clientId'' (client_id s)])"
    by (simp add: keepalive_msg_def KEEPALIVE_MSG_SIZE_def)
qed

end
