(* ===== verification/ClientRun.thy ===== *)
theory ClientRun
  imports ClientProps
begin

text \<open>
  A whole run of the client, from \<^verbatim>\<open>main\<close> to its end: what it sends to the server, and that it
  gives back what it has opened.
\<close>

section \<open>Specifications\<close>

text \<open>A message that the server can read: a JSON value with a command.\<close>

definition is_request :: "string \<Rightarrow> bool" where
  "is_request m \<longleftrightarrow> (\<exists>doc. cJSON_Parse m = Some doc \<and> string_item (cJSON_GetObjectItem doc ''command'') \<noteq> None)"

text \<open>A quantity that the user types is a 32-bit number.\<close>

definition quantity_ok :: "string \<Rightarrow> bool" where
  "quantity_ok line \<longleftrightarrow>
     (case blank_words line of
        command # c # i # q # _ \<Rightarrow>
          command = ''update_stock'' \<longrightarrow> (case strtol q of Some (n, []) \<Rightarrow> is_int32 n | _ \<Rightarrow> True)
      | _ \<Rightarrow> True)"

definition input_ok :: "user_input \<Rightarrow> bool" where
  "input_ok i =
     (case i of
        Signal \<Rightarrow> True
      | Line mem t \<Rightarrow> mem \<and> quantity_ok (snd (process_user_input (take (client_BUFFER_SIZE - 1) t))))"

text \<open>From one state to a later one: the descriptors stay, messages are only added and are requests, and the id fits its buffer.\<close>

definition goes_on :: "client \<Rightarrow> client \<Rightarrow> bool" where
  "goes_on s s' \<longleftrightarrow>
     tcp_socket s' = tcp_socket s \<and> udp_socket s' = udp_socket s \<and> ipc_queue s' = ipc_queue s \<and>
     (length (client_id s) < CLIENT_ID_MAX_LEN \<longrightarrow> length (client_id s') < CLIENT_ID_MAX_LEN) \<and>
     (\<exists>ms. tcp_sent s' = tcp_sent s @ ms \<and> list_all is_request ms)"

text \<open>What holds from the first connection on, and at the end.\<close>

definition sent_ok :: "client \<Rightarrow> bool" where
  "sent_ok s \<longleftrightarrow> list_all is_request (tcp_sent s) \<and> length (client_id s) < CLIENT_ID_MAX_LEN"

definition released :: "client \<Rightarrow> bool" where
  "released s \<longleftrightarrow>
     (tcp_socket s \<noteq> -1 \<longrightarrow> tcp_socket s \<in> set (closed_fds s)) \<and> (udp_socket s \<noteq> -1 \<longrightarrow> udp_socket s \<in> set (closed_fds s)) \<and>
     (ipc_queue s \<noteq> -1 \<longrightarrow> mq_unlinked s) \<and> \<not> log_open s"

section \<open>Lemmas\<close>

lemma goes_on_refl [intro, simp]: "goes_on s s"
  by (auto simp: goes_on_def)

lemma goes_on_trans [trans]: "goes_on s t \<Longrightarrow> goes_on t u \<Longrightarrow> goes_on s u"
  by (auto simp: goes_on_def)

lemma goes_on_output [simp]:
  "goes_on s (logger_log c l m t) = goes_on s t" "goes_on s (to_stdout x t) = goes_on s t" "goes_on s (to_stderr x t) = goes_on s t"
  "goes_on (logger_log c l m s) t = goes_on s t" "goes_on (to_stdout x s) t = goes_on s t" "goes_on (to_stderr x s) t = goes_on s t"
  by (simp_all add: goes_on_def logger_log_def to_stdout_def to_stderr_def)

lemma print_items_goes_on: "print_items xs s = Some s' \<Longrightarrow> goes_on s s'"
  by (induction xs s rule: print_items.induct) (auto split: option.splits)

lemma print_categories_goes_on: "print_categories xs s = Some s' \<Longrightarrow> goes_on s s'"
proof (induction xs s rule: print_categories.induct)
  case (2 c cs s)
  then obtain n s1 where "print_items (children c) (to_stdout (strcat [''  Category: '', n]) s) = Some s1" "goes_on s1 s'"
    by (auto split: option.splits bind_splits)
  then show ?case using print_items_goes_on goes_on_trans by fastforce
qed simp

lemma print_history_goes_on: "print_history xs s = Some s' \<Longrightarrow> goes_on s s'"
  by (induction xs s rule: print_history.induct) (auto split: option.splits)

lemma goes_on_print_server_error [simp]: "goes_on s (print_server_error l d t) = goes_on s t"
  by (simp add: print_server_error_def split: option.split)

lemma login_goes_on:
  assumes "handle_login_response response s = Some (login, s')"
  shows "goes_on s s'"
  using assms
  by (auto simp: handle_login_response_def post_login_procedures_def logger_log_format_def client_context_set_id_def Let_def
      split: option.splits if_splits) (auto simp: goes_on_def logger_log_def to_stdout_def to_stderr_def CLIENT_ID_MAX_LEN_def)

lemma readable_goes_on:
  assumes "print_readable_response response input s = Some (login, s')"
  shows "goes_on s s'"
  using assms
  by (auto simp: print_readable_response_def print_inventory_response_def print_get_stock_response_def print_get_history_response_def Let_def
      dest!: print_categories_goes_on print_history_goes_on login_goes_on split: option.splits if_splits)

lemma transaction_goes_on:
  assumes "handle_server_transaction m input s = Some (r, s')" and "is_request m"
  shows "goes_on s s'"
proof -
  have send: "goes_on s (snd (tcp_send m s))" using assms(2) by (auto simp: tcp_send_def goes_on_def split: list.splits)
  have recv: "goes_on t (snd (tcp_recv n t))" for n t by (auto simp: tcp_recv_def goes_on_def split: list.splits)
  have "goes_on s (snd (tcp_recv (client_BUFFER_SIZE - 1) (snd (tcp_send m s))))" using goes_on_trans [OF send recv] .
  then show ?thesis using assms(1) send
    by (auto simp: handle_server_transaction_def Let_def split: if_splits prod.splits option.splits dest!: readable_goes_on intro: goes_on_trans)
qed

lemma end_is_request: "is_request end_message"
proof -
  have "\<exists>t. cJSON_PrintUnformatted (json_object_of None [text_member ''command'' ''end'']) = Some t \<and>
      cJSON_Parse t = Some (json_object_of None [text_member ''command'' ''end''])"
    by (rule print_parse) (simp_all add: member_defs c_text_def CJSON_NESTING_LIMIT_def)
  moreover have "cJSON_PrintUnformatted (json_object_of None [text_member ''command'' ''end'']) = Some end_message"
    by (simp add: cJSON_PrintUnformatted_def member_defs print_string_ptr_def escape_char_def end_message_def)
  ultimately show ?thesis by (auto simp: is_request_def cJSON_GetObjectItem_def member_defs case_insensitive_equal_def string_item_def cJSON_IsString_def)
qed

lemma build_goes_on: "build_json_from_input mem line s = Some (res, s') \<Longrightarrow> goes_on s s'"
  by (auto simp: build_json_from_input_def build_json_for_update_stock_def build_json_for_get_stock_def build_json_for_login_def
      build_json_for_register_user_def build_json_for_unlock_client_def build_json_for_single_command_def build_two_strings_def Let_def
      split: option.splits prod.splits if_splits list.splits)

lemma request_is_request:
  assumes "request_of command args = Some doc" and "cJSON_Parse t = Some doc"
  shows "is_request t"
proof -
  obtain ms where "doc = json_object_of None (text_member ''command'' command # ms)"
    using assms(1) by (auto simp: request_of_def split: if_splits list.splits option.splits prod.splits)
  then show ?thesis using assms(2)
    by (auto simp: is_request_def cJSON_GetObjectItem_def member_defs case_insensitive_equal_def string_item_def cJSON_IsString_def)
qed

lemma built_is_request:
  assumes "build_json_from_input True buffer s = Some (res, s')" and "c_text buffer" and "quantity_ok buffer"
    and "build_status res = JSON_BUILD_SUCCESS" and "json_string res = Some m"
  shows "is_request m"
proof -
  obtain command r where r: "strtok buffer = Some (command, r)" using assms(1) by (auto simp: build_json_from_input_def split: option.splits)
  then have w: "blank_words buffer = command # blank_words r" by (rule strtok_words(2))
  have q: "\<forall>n. command = ''update_stock'' \<and> 3 \<le> length (blank_words r) \<and> strtol (blank_words r ! 2) = Some (n, []) \<longrightarrow> is_int32 n"
    using assms(3) by (auto simp: quantity_ok_def w eval_nat_numeral split: list.splits)
  have "c_text command" "\<forall>a \<in> set (blank_words r). c_text a" using words_text [OF _ assms(2)] w by auto
  then show ?thesis using build_request [OF r refl q, of s] request_canonical [OF _ _ _ q] assms(1,4,5) request_is_request
    by (auto simp: build_success_def split: option.splits)
qed

lemma action_goes_on:
  assumes "execute_client_action True action buffer s = Some (r, s')" and "c_text buffer" and "quantity_ok buffer"
  shows "goes_on s s'"
proof (cases action)
  case INPUT_ACTION_SEND
  then obtain res s1 where b: "build_json_from_input True buffer s = Some (res, s1)"
    using assms(1) by (auto simp: execute_client_action_def split: option.splits)
  show ?thesis
  proof (cases "build_status res")
    case JSON_BUILD_SUCCESS
    then obtain m where "json_string res = Some m" "handle_server_transaction m (first_word_left buffer) s1 = Some (r, s')"
      using assms(1) b INPUT_ACTION_SEND by (auto simp: execute_client_action_def split: option.splits)
    then show ?thesis using transaction_goes_on built_is_request [OF b assms(2,3) JSON_BUILD_SUCCESS] build_goes_on [OF b] goes_on_trans by blast
  qed (use assms(1) b build_goes_on [OF b] INPUT_ACTION_SEND in \<open>auto simp: execute_client_action_def\<close>)
qed (use assms(1) transaction_goes_on [OF _ end_is_request] in \<open>auto simp: execute_client_action_def\<close>)

lemma aux_goes_on: "goes_on s (snd (session_start_aux_threads s))" "goes_on s (snd (launch_dashboard docker s))"
  by (auto simp: session_start_aux_threads_def create_thread_def launch_dashboard_def Let_def split: prod.splits list.splits if_splits bool.splits)
    (auto simp: goes_on_def logger_log_def)

lemma user_line_text: "c_text (snd (process_user_input t))"
  by (auto simp: process_user_input_def c_text_def c_string_def Let_def dest!: set_takeWhileD)

lemma signal_goes_on [simp]: "goes_on s (client_context_request_exit t) = goes_on s t" "goes_on s (client_signal_handler t) = goes_on s t"
  by (simp_all add: goes_on_def client_context_request_exit_def client_signal_handler_def)

text \<open>After a login the loop goes on behind the threads and the dashboard.\<close>

lemma login_then_goes_on:
  assumes "goes_on s s1" and "\<And>s2. goes_on s1 s2 \<Longrightarrow> f s2 = Some (r, s') \<Longrightarrow> goes_on s2 s'"
    and "(let (ok, s) = session_start_aux_threads s1
          in if \<not> ok then Some (-1, logger_log c l m s)
             else (let (ok, s) = launch_dashboard docker s in f (if \<not> ok then logger_log c' l' m' s else s))) = Some (r, s')"
  shows "goes_on s s'"
proof -
  obtain ok s2 where 2: "session_start_aux_threads s1 = (ok, s2)" by (cases "session_start_aux_threads s1")
  obtain ok' s3 where 3: "launch_dashboard docker s2 = (ok', s3)" by (cases "launch_dashboard docker s2")
  have "goes_on s1 s2" "goes_on s2 s3" using aux_goes_on(1) [of s1] aux_goes_on(2) [of s2 docker] 2 3 by auto
  with assms show ?thesis
    by (auto simp: 2 3 split: if_splits intro: goes_on_trans) (metis goes_on_output(1) goes_on_trans)+
qed

lemma loop_goes_on: "communication_loop docker inputs s = Some (r, s') \<Longrightarrow> list_all input_ok inputs \<Longrightarrow> goes_on s s'"
proof (induction inputs arbitrary: s)
  case (Cons i inputs)
  show ?case
  proof (cases "signal_exit s \<or> i = Signal")
    case False
    then obtain mem t where i: "i = Line mem t" by (cases i) auto
    obtain action buffer where pu: "process_user_input (take (client_BUFFER_SIZE - 1) t) = (action, buffer)"
      by (cases "process_user_input (take (client_BUFFER_SIZE - 1) t)")
    have ok: "mem" "quantity_ok buffer" "c_text buffer"
      using Cons.prems(2) user_line_text [of "take (client_BUFFER_SIZE - 1) t"] by (auto simp: i pu [simplified] input_ok_def)
    obtain res s1 where ex: "execute_client_action True action buffer (to_stdout prompt s) = Some (res, s1)"
      using Cons.prems(1) False ok(1) by (auto simp: i pu [simplified] split: option.splits)
    have s1: "goes_on s s1" using action_goes_on [OF ex ok(3,2)] by simp
    have rest: "goes_on s2 s'" if "communication_loop docker inputs s2 = Some (r, s')" for s2
      using Cons.IH [OF that] Cons.prems(2) by simp
    show ?thesis
    proof (cases res)
      case TRANSACTION_LOGIN_SUCCESS
      then show ?thesis using Cons.prems(1) False ok(1) rest
        by (intro login_then_goes_on [OF s1, of "communication_loop docker inputs" r s']) (auto simp: i pu [simplified] ex)
    qed (use Cons.prems(1) False ok(1) rest s1 goes_on_trans in \<open>auto simp: i pu [simplified] ex\<close>)
  qed (use Cons.prems in \<open>auto split: if_splits\<close>)
qed auto

lemma start_goes_on:
  assumes "start_communication docker inputs s = Some (r, s')" and "list_all input_ok inputs"
  shows "goes_on s s'"
proof -
  have "goes_on s (snd (tcp_recv (client_BUFFER_SIZE - 1) s))" by (auto simp: tcp_recv_def goes_on_def split: list.splits)
  with assms show ?thesis
    by (auto simp: start_communication_def Let_def split: prod.splits option.splits list.splits dest!: loop_goes_on intro: goes_on_trans)
qed

lemma ipc_goes_on: "goes_on s (snd (ipc_send_message m s))"
  by (auto simp: ipc_send_message_def priority_check_def mq_send_def Let_def split: prod.splits option.splits list.splits mq_answer.splits if_splits)
    (auto simp: goes_on_def)

lemma output_frame [simp]:
  "tcp_sent (logger_log c l m s) = tcp_sent s" "tcp_sent (to_stdout t s) = tcp_sent s" "tcp_sent (to_stderr t s) = tcp_sent s"
  "closed_fds (logger_log c l m s) = closed_fds s" "closed_fds (to_stdout t s) = closed_fds s" "closed_fds (to_stderr t s) = closed_fds s"
  "tcp_socket (logger_log c l m s) = tcp_socket s" "tcp_socket (to_stdout t s) = tcp_socket s" "tcp_socket (to_stderr t s) = tcp_socket s"
  "udp_socket (logger_log c l m s) = udp_socket s" "udp_socket (to_stdout t s) = udp_socket s" "udp_socket (to_stderr t s) = udp_socket s"
  "ipc_queue (logger_log c l m s) = ipc_queue s" "ipc_queue (to_stdout t s) = ipc_queue s" "ipc_queue (to_stderr t s) = ipc_queue s"
  "mq_unlinked (to_stdout t s) = mq_unlinked s"
  by (simp_all add: logger_log_def to_stdout_def to_stderr_def)

lemma goes_on_sent_ok: "goes_on s s' \<Longrightarrow> sent_ok s \<Longrightarrow> sent_ok s'"
  by (auto simp: goes_on_def sent_ok_def)

lemma sent_ok_output [simp]:
  "sent_ok (logger_log c l m s) = sent_ok s" "sent_ok (to_stdout t s) = sent_ok s" "sent_ok (to_stderr t s) = sent_ok s"
  by (simp_all add: sent_ok_def logger_log_def to_stdout_def to_stderr_def)

lemma try_addresses_sent_ok: "try_addresses protocol fd as s = (found, fd', s') \<Longrightarrow> sent_ok s \<Longrightarrow> sent_ok s'"
proof (induction protocol fd "as" s arbitrary: s' rule: try_addresses.induct)
  case (2 protocol fd a as s)
  then show ?case by (auto simp: Let_def split: if_splits) (auto simp: sent_ok_def logger_log_def to_stderr_def split: if_splits)
qed auto

lemma connect_sent_ok: "setup_and_connect answer protocol s = (ok, s') \<Longrightarrow> sent_ok s \<Longrightarrow> sent_ok s'"
  by (auto simp: setup_and_connect_def socket_validation_def Let_def split: option.splits prod.splits if_splits dest!: try_addresses_sent_ok)
    (auto simp: sent_ok_def)

lemma ipc_closed_fds: "closed_fds (snd (ipc_send_message m s)) = closed_fds s"
  by (auto simp: ipc_send_message_def priority_check_def mq_send_def Let_def split: prod.splits option.splits list.splits mq_answer.splits if_splits)

lemma ipc_exit_returns: "\<exists>ok s'. ipc_exit s = Some (ok, s') \<and> goes_on s s' \<and> closed_fds s' = closed_fds s"
proof -
  obtain t where "ipc_exit s = Some (ipc_send_message t s)"
    by (simp add: ipc_exit_def tree_defs cJSON_Print_def Let_def)
  then show ?thesis using ipc_goes_on [of s t] ipc_closed_fds [of t s] by (cases "ipc_send_message t s") auto
qed

lemma cleanup_releases: "\<exists>s'. client_cleanup s = Some s' \<and> released s' \<and> (sent_ok s \<longrightarrow> sent_ok s')"
proof -
  define s1 where "s1 = (if tcp_socket s \<noteq> -1 then s\<lparr>closed_fds := closed_fds s @ [tcp_socket s]\<rparr> else s)"
  define s2 where "s2 = (if udp_socket s1 \<noteq> -1 then s1\<lparr>closed_fds := closed_fds s1 @ [udp_socket s1]\<rparr> else s1)"
  have s2: "tcp_socket s2 \<noteq> -1 \<longrightarrow> tcp_socket s2 \<in> set (closed_fds s2)" "udp_socket s2 \<noteq> -1 \<longrightarrow> udp_socket s2 \<in> set (closed_fds s2)"
      "sent_ok s2 = sent_ok s"
    by (auto simp: s1_def s2_def sent_ok_def)
  obtain ok s3 where s3: "ipc_exit s2 = Some (ok, s3)" "goes_on s2 s3" "closed_fds s3 = closed_fds s2" using ipc_exit_returns by blast
  have "sent_ok s \<longrightarrow> sent_ok s3" using goes_on_sent_ok s3(2) s2(3) by blast
  then show ?thesis using s2 s3
    by (auto simp: client_cleanup_def s1_def [symmetric] s2_def [symmetric] released_def logger_close_def)
      (auto simp: goes_on_def sent_ok_def to_stdout_def)
qed

lemma start_sent_ok: "start_communication docker inputs s = Some (r, s') \<Longrightarrow> list_all input_ok inputs \<Longrightarrow> sent_ok s \<Longrightarrow> sent_ok s'"
  using start_goes_on goes_on_sent_ok by blast

lemma run_frame [simp]: "sent_ok (s\<lparr>ipc_queue := q\<rparr>) = sent_ok s" "released (to_stderr t s) = released s"
  by (simp_all add: sent_ok_def released_def to_stderr_def)

lemma exit_releases: "exit_with code s = Some (c, s') \<Longrightarrow> sent_ok s \<Longrightarrow> c = code \<and> released s' \<and> sent_ok s'"
  using cleanup_releases [of s] by (auto simp: exit_with_def)

section \<open>Properties\<close>


end
