(* ===== verification/CJsonHeap.thy ===== *)
theory CJsonHeap
  imports Main
begin

text \<open>
  The items of cJSON as the source links them: every item has pointers to its neighbours and
  to its first child, and the first child points back to the last one.  The functions of
  cJSON.c that edit such a list work on a heap of items; they are shown to implement the
  operations on the list of the children.  \<open>None\<close> is the null pointer.
\<close>

section \<open>The heap\<close>

record node =
  next_item :: "nat option"
  prev_item :: "nat option"
  child_item :: "nat option"
  is_reference :: bool

type_synonym heap = "nat \<Rightarrow> node"

definition set_next :: "nat \<Rightarrow> nat option \<Rightarrow> heap \<Rightarrow> heap" where
  "set_next i v h = h(i := (h i)\<lparr>next_item := v\<rparr>)"

definition set_prev :: "nat \<Rightarrow> nat option \<Rightarrow> heap \<Rightarrow> heap" where
  "set_prev i v h = h(i := (h i)\<lparr>prev_item := v\<rparr>)"

definition set_child :: "nat \<Rightarrow> nat option \<Rightarrow> heap \<Rightarrow> heap" where
  "set_child i v h = h(i := (h i)\<lparr>child_item := v\<rparr>)"

section \<open>Editing\<close>

definition suffix_object :: "nat \<Rightarrow> nat \<Rightarrow> heap \<Rightarrow> heap" where
  "suffix_object prev item h = set_prev item (Some prev) (set_next prev (Some item) h)"

text \<open>The walk along the children, for as long as the index asks for.\<close>

fun walk :: "heap \<Rightarrow> nat option \<Rightarrow> nat \<Rightarrow> nat option" where
  "walk h None index = None"
| "walk h (Some c) 0 = Some c"
| "walk h (Some c) (Suc index) = walk h (next_item (h c)) index"

definition get_array_item :: "heap \<Rightarrow> nat option \<Rightarrow> nat \<Rightarrow> nat option" where
  "get_array_item h array index = (case array of None \<Rightarrow> None | Some a \<Rightarrow> walk h (child_item (h a)) index)"

definition add_item_to_array :: "nat option \<Rightarrow> nat option \<Rightarrow> heap \<Rightarrow> bool \<times> heap" where
  "add_item_to_array array item h =
     (case (array, item) of
        (Some a, Some i) \<Rightarrow>
          if a = i then (False, h)
          else
            (case child_item (h a) of
               None \<Rightarrow> (True, set_next i None (set_prev i (Some i) (set_child a (Some i) h)))
             | Some c \<Rightarrow>
                 (case prev_item (h c) of
                    None \<Rightarrow> (True, h)
                  | Some p \<Rightarrow> (True, set_prev c (Some i) (suffix_object p i h))))
      | _ \<Rightarrow> (False, h))"

text \<open>Reading through a null pointer has no result.\<close>

definition cJSON_DetachItemViaPointer :: "nat option \<Rightarrow> nat option \<Rightarrow> heap \<Rightarrow> (nat option \<times> heap) option" where
  "cJSON_DetachItemViaPointer parent item h =
     (case (parent, item) of
        (Some a, Some i) \<Rightarrow>
          if child_item (h a) \<noteq> Some i \<and> prev_item (h i) = None then Some (None, h)
          else
            (let h = (if child_item (h a) \<noteq> Some i then set_next (the (prev_item (h i))) (next_item (h i)) h else h);
                 h = (case next_item (h i) of None \<Rightarrow> h | Some n \<Rightarrow> set_prev n (prev_item (h i)) h)
             in map_option (\<lambda>h. (Some i, set_next i None (set_prev i None h)))
                  (if child_item (h a) = Some i then Some (set_child a (next_item (h i)) h)
                   else if next_item (h i) = None then
                     (case child_item (h a) of None \<Rightarrow> None | Some c \<Rightarrow> Some (set_prev c (prev_item (h i)) h))
                   else Some h))
      | _ \<Rightarrow> Some (None, h))"

definition cJSON_DetachItemFromArray :: "nat option \<Rightarrow> int \<Rightarrow> heap \<Rightarrow> (nat option \<times> heap) option" where
  "cJSON_DetachItemFromArray array which h =
     (if which < 0 then Some (None, h)
      else cJSON_DetachItemViaPointer array (get_array_item h array (nat which)) h)"

definition cJSON_InsertItemInArray :: "nat option \<Rightarrow> int \<Rightarrow> nat option \<Rightarrow> heap \<Rightarrow> (bool \<times> heap) option" where
  "cJSON_InsertItemInArray array which newitem h =
     (case newitem of
        None \<Rightarrow> Some (False, h)
      | Some i \<Rightarrow>
          if which < 0 then Some (False, h)
          else
            (case get_array_item h array (nat which) of
               None \<Rightarrow> Some (add_item_to_array array newitem h)
             | Some n \<Rightarrow>
                 (case array of
                    None \<Rightarrow> None
                  | Some a \<Rightarrow>
                      if child_item (h a) \<noteq> Some n \<and> prev_item (h n) = None then Some (False, h)
                      else
                        (let h = set_next i (Some n) h;
                             h = set_prev i (prev_item (h n)) h;
                             h = set_prev n (Some i) h
                         in if child_item (h a) = Some n then Some (True, set_child a (Some i) h)
                            else
                              (case prev_item (h i) of
                                 None \<Rightarrow> None
                               | Some p \<Rightarrow> Some (True, set_next p (Some i) h))))))"

section \<open>Deletion\<close>

text \<open>
  cJSON\_Delete frees an item, its children and all items behind it.  \<open>freed\<close> are the items
  that were freed so far; there is no result when one of them is used again, or when the
  walk does not end.
\<close>

partial_function (option) cJSON_Delete :: "heap \<Rightarrow> nat option \<Rightarrow> nat list \<Rightarrow> nat list option" where
  "cJSON_Delete h item freed =
     (case item of
        None \<Rightarrow> Some freed
      | Some i \<Rightarrow>
          if i \<in> set freed then None
          else
            Option.bind
              (if \<not> is_reference (h i) \<and> child_item (h i) \<noteq> None then cJSON_Delete h (child_item (h i)) freed else Some freed)
              (\<lambda>freed. if i \<in> set freed then None else cJSON_Delete h (next_item (h i)) (freed @ [i])))"

definition cJSON_DeleteItemFromArray :: "nat option \<Rightarrow> int \<Rightarrow> heap \<Rightarrow> nat list \<Rightarrow> (heap \<times> nat list) option" where
  "cJSON_DeleteItemFromArray array which h freed =
     Option.bind (cJSON_DetachItemFromArray array which h)
       (\<lambda>(item, h). map_option (Pair h) (cJSON_Delete h item freed))"

text \<open>The item that was replaced is detached and freed.\<close>

definition cJSON_ReplaceItemViaPointer ::
  "nat option \<Rightarrow> nat option \<Rightarrow> nat option \<Rightarrow> heap \<Rightarrow> nat list \<Rightarrow> (bool \<times> heap \<times> nat list) option" where
  "cJSON_ReplaceItemViaPointer parent item replacement h freed =
     (case (parent, item, replacement) of
        (Some a, Some i, Some r) \<Rightarrow>
          if child_item (h a) = None then Some (False, h, freed)
          else if r = i then Some (True, h, freed)
          else
            (let h = set_prev r (prev_item (h i)) (set_next r (next_item (h i)) h);
                 h = (case next_item (h r) of None \<Rightarrow> h | Some n \<Rightarrow> set_prev n (Some r) h);
                 h = (if child_item (h a) = Some i then
                        set_child a (Some r) (if prev_item (h i) = Some i then set_prev r (Some r) h else h)
                      else
                        (let h = (case prev_item (h r) of None \<Rightarrow> h | Some p \<Rightarrow> set_next p (Some r) h)
                         in if next_item (h r) = None then set_prev (the (child_item (h a))) (Some r) h else h));
                 h = set_prev i None (set_next i None h)
             in map_option (\<lambda>freed. (True, h, freed)) (cJSON_Delete h (Some i) freed))
      | _ \<Rightarrow> Some (False, h, freed))"

definition cJSON_ReplaceItemInArray ::
  "nat option \<Rightarrow> int \<Rightarrow> nat option \<Rightarrow> heap \<Rightarrow> nat list \<Rightarrow> (bool \<times> heap \<times> nat list) option" where
  "cJSON_ReplaceItemInArray array which newitem h freed =
     (if which < 0 then Some (False, h, freed)
      else cJSON_ReplaceItemViaPointer array (get_array_item h array (nat which)) newitem h freed)"

section \<open>What the pointers mean\<close>

fun links :: "heap \<Rightarrow> nat list \<Rightarrow> bool" where
  "links h (x # y # zs) \<longleftrightarrow> next_item (h x) = Some y \<and> prev_item (h y) = Some x \<and> links h (y # zs)"
| "links h _ \<longleftrightarrow> True"

text \<open>The children of an item, in order.\<close>

definition children_are :: "heap \<Rightarrow> nat \<Rightarrow> nat list \<Rightarrow> bool" where
  "children_are h a xs \<longleftrightarrow>
     distinct (a # xs) \<and> links h xs \<and>
     (if xs = [] then child_item (h a) = None
      else child_item (h a) = Some (hd xs) \<and> prev_item (h (hd xs)) = Some (last xs) \<and> next_item (h (last xs)) = None)"

text \<open>A tree of items, and its items in the order in which they are freed.\<close>

datatype tree = Tree (tree_root: nat) (subtrees: "tree list")

fun in_heap :: "heap \<Rightarrow> tree \<Rightarrow> bool" where
  "in_heap h (Tree a ts) \<longleftrightarrow> \<not> is_reference (h a) \<and> children_are h a (map tree_root ts) \<and> list_all (in_heap h) ts"

fun postorder :: "tree \<Rightarrow> nat list" where
  "postorder (Tree a ts) = concat (map postorder ts) @ [a]"

section \<open>Lemmas\<close>

lemma set_fields [simp]:
  "next_item (set_next i v h j) = (if j = i then v else next_item (h j))"
  "prev_item (set_next i v h j) = prev_item (h j)"
  "child_item (set_next i v h j) = child_item (h j)"
  "is_reference (set_next i v h j) = is_reference (h j)"
  "next_item (set_prev i v h j) = next_item (h j)"
  "prev_item (set_prev i v h j) = (if j = i then v else prev_item (h j))"
  "child_item (set_prev i v h j) = child_item (h j)"
  "is_reference (set_prev i v h j) = is_reference (h j)"
  "next_item (set_child i v h j) = next_item (h j)"
  "prev_item (set_child i v h j) = prev_item (h j)"
  "child_item (set_child i v h j) = (if j = i then v else child_item (h j))"
  "is_reference (set_child i v h j) = is_reference (h j)"
  by (simp_all add: set_next_def set_prev_def set_child_def)

lemma set_other [simp]:
  "j \<noteq> i \<Longrightarrow> set_next i v h j = h j" "j \<noteq> i \<Longrightarrow> set_prev i v h j = h j" "j \<noteq> i \<Longrightarrow> set_child i v h j = h j"
  by (simp_all add: set_next_def set_prev_def set_child_def)

text \<open>A list of items is linked when its neighbours are; only the pointers between them matter.\<close>

lemma links_Cons: "links h (x # xs) \<longleftrightarrow> xs = [] \<or> next_item (h x) = Some (hd xs) \<and> prev_item (h (hd xs)) = Some x \<and> links h xs"
  by (cases xs) auto

lemma links_append:
  "links h (xs @ ys) \<longleftrightarrow> links h xs \<and> links h ys \<and>
     (xs = [] \<or> ys = [] \<or> next_item (h (last xs)) = Some (hd ys) \<and> prev_item (h (hd ys)) = Some (last xs))"
  by (induction xs) (auto simp: links_Cons hd_append)

lemma links_same:
  assumes "\<And>x. x \<in> set (butlast xs) \<Longrightarrow> next_item (h' x) = next_item (h x)"
    and "\<And>x. x \<in> set (tl xs) \<Longrightarrow> prev_item (h' x) = prev_item (h x)"
  shows "links h' xs = links h xs"
  using assms by (induction xs rule: induct_list012) (auto simp: links_Cons)

lemma children_are_Nil: "children_are h a [] \<longleftrightarrow> child_item (h a) = None"
  by (simp add: children_are_def)

lemma children_are_split:
  "children_are h a (ys @ x # zs) \<longleftrightarrow>
     distinct (a # ys @ x # zs) \<and> links h ys \<and> links h zs \<and>
     child_item (h a) = Some (hd (ys @ [x])) \<and>
     prev_item (h (hd (ys @ [x]))) = Some (last (x # zs)) \<and>
     next_item (h (last (x # zs))) = None \<and>
     (ys \<noteq> [] \<longrightarrow> next_item (h (last ys)) = Some x \<and> prev_item (h x) = Some (last ys)) \<and>
     (zs \<noteq> [] \<longrightarrow> next_item (h x) = Some (hd zs) \<and> prev_item (h (hd zs)) = Some x)"
  by (cases ys; cases zs) (auto simp: children_are_def links_append links_Cons)

lemma walk_links:
  "links h xs \<Longrightarrow> (xs \<noteq> [] \<longrightarrow> next_item (h (last xs)) = None) \<Longrightarrow>
     walk h (if xs = [] then None else Some (hd xs)) k = (if k < length xs then Some (xs ! k) else None)"
proof (induction xs arbitrary: k)
  case (Cons x xs)
  then show ?case by (cases k; cases xs) (auto simp: links_Cons)
qed simp

lemma get_array_item_nth:
  "children_are h a xs \<Longrightarrow> get_array_item h (Some a) k = (if k < length xs then Some (xs ! k) else None)"
  using walk_links [of h xs k] by (auto simp: get_array_item_def children_are_def split: if_splits)

lemma butlast_other: "distinct xs \<Longrightarrow> x \<in> set (butlast xs) \<Longrightarrow> x \<noteq> last xs \<and> x \<in> set xs"
  by (induction xs) auto

lemma tl_other: "distinct xs \<Longrightarrow> x \<in> set (tl xs) \<Longrightarrow> x \<noteq> hd xs \<and> x \<in> set xs"
  by (cases xs) auto

lemma add_item_to_array_appends:
  assumes "children_are h a xs" and "i \<notin> set (a # xs)" and "next_item (h i) = None"
  shows "\<exists>h'. add_item_to_array (Some a) (Some i) h = (True, h') \<and> children_are h' a (xs @ [i]) \<and>
           (\<forall>b. b \<notin> set (a # i # xs) \<longrightarrow> h' b = h b)"
proof (cases xs rule: rev_cases)
  case Nil
  then show ?thesis using assms
    by (auto simp: add_item_to_array_def children_are_def)
next
  case (snoc ys y)
  let ?h = "set_prev (hd xs) (Some i) (suffix_object y i h)"
  have add: "add_item_to_array (Some a) (Some i) h = (True, ?h)"
    using assms snoc by (auto simp: add_item_to_array_def children_are_def)
  have "links ?h xs = links h xs"
    using assms(1,2) snoc butlast_other [of xs] tl_other [of xs]
    by (intro links_same) (auto simp: suffix_object_def children_are_def)
  then have "children_are ?h a (xs @ [i])"
    using assms snoc by (auto simp: children_are_def links_append suffix_object_def hd_append)
  moreover have "\<forall>b. b \<notin> set (a # i # xs) \<longrightarrow> ?h b = h b"
    using snoc by (cases ys) (auto simp: suffix_object_def)
  ultimately show ?thesis using add by blast
qed

lemma links_set [simp]:
  "x \<notin> set (butlast xs) \<Longrightarrow> links (set_next x v h) xs = links h xs"
  "x \<notin> set (tl xs) \<Longrightarrow> links (set_prev x v h) xs = links h xs"
  "links (set_child x v h) xs = links h xs"
  by (rule links_same; auto)+

lemma ends_once:
  "distinct xs \<Longrightarrow> xs \<noteq> [] \<Longrightarrow> hd xs \<notin> set (tl xs)" "distinct xs \<Longrightarrow> xs \<noteq> [] \<Longrightarrow> last xs \<notin> set (butlast xs)"
  "x \<notin> set xs \<Longrightarrow> x \<notin> set (tl xs)" "x \<notin> set xs \<Longrightarrow> x \<notin> set (butlast xs)"
  using butlast_other [of xs] tl_other [of xs] by (auto dest: in_set_butlastD intro: list.set_sel(2))

lemma outside_ends:
  "b \<notin> set xs \<Longrightarrow> xs \<noteq> [] \<Longrightarrow> b \<noteq> hd xs" "b \<notin> set xs \<Longrightarrow> xs \<noteq> [] \<Longrightarrow> hd xs \<noteq> b"
  "b \<notin> set xs \<Longrightarrow> xs \<noteq> [] \<Longrightarrow> b \<noteq> last xs" "b \<notin> set xs \<Longrightarrow> xs \<noteq> [] \<Longrightarrow> last xs \<noteq> b"
  "set xs \<inter> set ys = {} \<Longrightarrow> xs \<noteq> [] \<Longrightarrow> last xs \<notin> set ys"
  using last_in_set [of xs] hd_in_set [of xs] by blast+

lemma neighbours:
  fixes ys zs :: "'a list"
  obtains "ys = []" "zs = []" | z zs' where "ys = []" "zs = z # zs'" | y ys' where "ys = y # ys'" "zs = []"
  | y ys' z zs' where "ys = y # ys'" "zs = z # zs'"
  by (cases ys; cases zs)

lemmas position_simps = children_are_def links_Cons links_append ends_once outside_ends

text \<open>Detaching a child: the four positions it can have.\<close>

lemma detach_removes:
  assumes "children_are h a (ys @ x # zs)"
  shows "\<exists>h'. cJSON_DetachItemViaPointer (Some a) (Some x) h = Some (Some x, h') \<and> children_are h' a (ys @ zs) \<and>
           next_item (h' x) = None \<and> prev_item (h' x) = None \<and>
           (\<forall>b. b \<noteq> a \<longrightarrow> child_item (h' b) = child_item (h b)) \<and>
           (\<forall>b. is_reference (h' b) = is_reference (h b)) \<and> (\<forall>b. b \<notin> set (a # ys @ x # zs) \<longrightarrow> h' b = h b)"
  using assms [unfolded children_are_split]
  by (cases rule: neighbours [of ys zs]) (auto simp: cJSON_DetachItemViaPointer_def position_simps)

lemma insert_before:
  assumes "children_are h a (ys @ x # zs)" and "i \<notin> set (a # ys @ x # zs)"
  shows "\<exists>h'. cJSON_InsertItemInArray (Some a) (int (length ys)) (Some i) h = Some (True, h') \<and> children_are h' a (ys @ i # x # zs) \<and>
           (\<forall>b. b \<notin> set (a # i # ys @ x # zs) \<longrightarrow> h' b = h b)"
proof -
  have "get_array_item h (Some a) (length ys) = Some x"
    using get_array_item_nth [OF assms(1), of "length ys"] by simp
  then obtain k where "k = int (length ys)" and "0 \<le> k" and "get_array_item h (Some a) (nat k) = Some x" by simp
  then show ?thesis using assms(2) assms(1) [unfolded children_are_split]
    unfolding \<open>k = int (length ys)\<close> [symmetric]
    by (cases rule: neighbours [of ys zs]) (auto simp: cJSON_InsertItemInArray_def position_simps Let_def)
qed

lemma replace_swaps:
  assumes "children_are h a (ys @ x # zs)" and "i \<notin> set (a # ys @ x # zs)"
  shows "\<exists>h'. cJSON_ReplaceItemViaPointer (Some a) (Some x) (Some i) h freed = map_option (\<lambda>f. (True, h', f)) (cJSON_Delete h' (Some x) freed) \<and>
           children_are h' a (ys @ i # zs) \<and> next_item (h' x) = None \<and> prev_item (h' x) = None \<and>
           (\<forall>b. b \<noteq> a \<longrightarrow> child_item (h' b) = child_item (h b)) \<and>
           (\<forall>b. is_reference (h' b) = is_reference (h b)) \<and> (\<forall>b. b \<notin> set (a # i # ys @ x # zs) \<longrightarrow> h' b = h b)"
  using assms(2) assms(1) [unfolded children_are_split]
  by (cases rule: neighbours [of ys zs]) (auto simp: cJSON_ReplaceItemViaPointer_def position_simps Let_def)

section \<open>Deletion frees every item once\<close>

lemma root_in_postorder: "tree_root t \<in> set (postorder t)"
  by (cases t) simp

lemma delete_forest:
  assumes "\<And>t freed. t \<in> set ts \<Longrightarrow> in_heap h t \<Longrightarrow> distinct (freed @ postorder t) \<Longrightarrow>
      cJSON_Delete h (Some (tree_root t)) freed = cJSON_Delete h (next_item (h (tree_root t))) (freed @ postorder t)"
    and "list_all (in_heap h) ts" and "links h (map tree_root ts)" and "ts \<noteq> []"
    and "next_item (h (last (map tree_root ts))) = None" and "distinct (freed @ concat (map postorder ts))"
  shows "cJSON_Delete h (Some (hd (map tree_root ts))) freed = Some (freed @ concat (map postorder ts))"
  using assms
proof (induction ts arbitrary: freed)
  case (Cons t ts)
  have first: "cJSON_Delete h (Some (tree_root t)) freed = cJSON_Delete h (next_item (h (tree_root t))) (freed @ postorder t)"
    using Cons.prems(1) [of t freed] Cons.prems(2,6) by auto
  show ?case
  proof (cases ts)
    case Nil
    then show ?thesis using first Cons.prems(5) by (simp add: cJSON_Delete.simps [of h None])
  next
    case (Cons u us)
    have "cJSON_Delete h (Some (hd (map tree_root ts))) (freed @ postorder t) = Some ((freed @ postorder t) @ concat (map postorder ts))"
      by (rule Cons.IH) (use Cons.prems Cons in \<open>auto simp: links_Cons\<close>)
    then show ?thesis using first Cons.prems(3) Cons by simp
  qed
qed simp

lemma delete_tree:
  "in_heap h t \<Longrightarrow> distinct (freed @ postorder t) \<Longrightarrow>
     cJSON_Delete h (Some (tree_root t)) freed = cJSON_Delete h (next_item (h (tree_root t))) (freed @ postorder t)"
proof (induction t arbitrary: freed)
  case (Tree a ts)
  have "(if \<not> is_reference (h a) \<and> child_item (h a) \<noteq> None then cJSON_Delete h (child_item (h a)) freed else Some freed)
      = Some (freed @ concat (map postorder ts))"
    using Tree.prems delete_forest [OF Tree.IH, of ts freed] by (cases "ts = []") (auto simp: children_are_def)
  then show ?case using Tree.prems by (subst cJSON_Delete.simps) auto
qed

section \<open>Trees of items\<close>

lemma root_last: "tree_root t = last (postorder t)"
  by (cases t) simp

lemma children_are_frame:
  assumes "child_item (h' a) = child_item (h a)" and "\<And>x. x \<in> set xs \<Longrightarrow> h' x = h x"
  shows "children_are h' a xs = children_are h a xs"
proof -
  have "links h' xs = links h xs" by (cases xs) (auto intro!: links_same simp: assms(2) dest: in_set_butlastD split: if_splits)
  then show ?thesis using assms by (auto simp: children_are_def)
qed

lemma in_heap_frame:
  assumes "in_heap h t" and "\<And>b. b \<in> set (postorder t) \<Longrightarrow> child_item (h' b) = child_item (h b) \<and> is_reference (h' b) = is_reference (h b)"
    and "\<And>b. b \<in> set (postorder t) \<Longrightarrow> b \<noteq> tree_root t \<Longrightarrow> h' b = h b" and "distinct (postorder t)"
  shows "in_heap h' t"
  using assms
proof (induction t)
  case (Tree a ts)
  have below: "b \<noteq> a" if "t \<in> set ts" "b \<in> set (postorder t)" for t b using Tree.prems(4) that by auto
  have "children_are h' a (map tree_root ts) = children_are h a (map tree_root ts)"
    using Tree.prems(2,3) below by (intro children_are_frame) (auto, metis root_in_postorder)
  moreover have "in_heap h' t" if t: "t \<in> set ts" for t
  proof (rule Tree.IH [OF t])
    show "in_heap h t" using Tree.prems(1) t by (simp add: list_all_iff)
    show "distinct (postorder t)" using Tree.prems(4) t by (auto simp: distinct_concat_iff)
  qed (use Tree.prems(2,3) below t in auto)
  ultimately show ?case using Tree.prems by (simp add: list_all_iff)
qed

text \<open>A subtree does not see changes of the pointers between the subtrees.\<close>

lemma subtree_kept:
  assumes "t \<in> set ts" and "in_heap h t" and "distinct (postorder (Tree a ts))"
    and "\<And>b. b \<noteq> a \<Longrightarrow> child_item (h' b) = child_item (h b)" and "\<And>b. is_reference (h' b) = is_reference (h b)"
    and "\<And>b. b \<notin> set (a # map tree_root ts) \<Longrightarrow> h' b = h b"
  shows "in_heap h' t"
proof (rule in_heap_frame [OF assms(2)])
  show "distinct (postorder t)" using assms(1,3) by (auto simp: distinct_concat_iff)
  fix b assume b: "b \<in> set (postorder t)"
  then have "b \<noteq> a" using assms(1,3) by auto
  then show "child_item (h' b) = child_item (h b) \<and> is_reference (h' b) = is_reference (h b)"
    using assms(4,5) by blast
  assume "b \<noteq> tree_root t"
  have "b \<noteq> tree_root u" if u: "u \<in> set ts" for u
  proof
    assume "b = tree_root u"
    then have "b \<in> set (postorder u)" using root_in_postorder by simp
    then have "postorder u = postorder t" using b u assms(1,3) by (auto simp: distinct_concat_iff)
    then show False using \<open>b \<noteq> tree_root t\<close> \<open>b = tree_root u\<close> by (simp add: root_last)
  qed
  then show "h' b = h b" using assms(6) \<open>b \<noteq> a\<close> by auto
qed

lemma delete_detached:
  assumes "in_heap h t" and "distinct (postorder t)" and "next_item (h (tree_root t)) = None"
  shows "cJSON_Delete h (Some (tree_root t)) [] = Some (postorder t)"
  using delete_tree [OF assms(1), of "[]"] assms(2,3) by (simp add: cJSON_Delete.simps [of h None])

lemma item_at:
  assumes "children_are h a (ys @ x # zs)"
  shows "get_array_item h (Some a) (length ys) = Some x"
  using get_array_item_nth [OF assms, of "length ys"] by simp

lemma delete_from_array:
  assumes "in_heap h (Tree a (ts1 @ t # ts2))" and "distinct (postorder (Tree a (ts1 @ t # ts2)))"
  shows "\<exists>h'. cJSON_DeleteItemFromArray (Some a) (int (length ts1)) h [] = Some (h', postorder t) \<and> in_heap h' (Tree a (ts1 @ ts2))"
proof -
  let ?ys = "map tree_root ts1" let ?zs = "map tree_root ts2"
  have ch: "children_are h a (?ys @ tree_root t # ?zs)" and ref: "\<not> is_reference (h a)"
    and sub: "\<And>u. u \<in> set (ts1 @ t # ts2) \<Longrightarrow> in_heap h u"
    using assms(1) by (auto simp: list_all_iff)
  from detach_removes [OF ch] obtain h' where
      h': "cJSON_DetachItemViaPointer (Some a) (Some (tree_root t)) h = Some (Some (tree_root t), h')"
      "children_are h' a (?ys @ ?zs)" "next_item (h' (tree_root t)) = None"
      and frame: "\<And>b. b \<noteq> a \<Longrightarrow> child_item (h' b) = child_item (h b)" "\<And>b. is_reference (h' b) = is_reference (h b)"
      "\<And>b. b \<notin> set (a # map tree_root (ts1 @ t # ts2)) \<Longrightarrow> h' b = h b" by auto
  have kept: "in_heap h' u" if "u \<in> set (ts1 @ t # ts2)" for u
    using subtree_kept [OF that sub [OF that] assms(2) frame] .
  then have "cJSON_Delete h' (Some (tree_root t)) [] = Some (postorder t)"
    using assms(2) h'(3) by (intro delete_detached) auto
  moreover have "in_heap h' (Tree a (ts1 @ ts2))" using kept h'(2) frame(2) ref by (simp add: list_all_iff)
  ultimately show ?thesis using h'(1) item_at [OF ch]
    by (simp add: cJSON_DeleteItemFromArray_def cJSON_DetachItemFromArray_def)
qed

lemma replace_in_array:
  assumes "in_heap h (Tree a (ts1 @ t # ts2))" and "in_heap h u" and "distinct (postorder (Tree a (u # ts1 @ t # ts2)))"
  shows "\<exists>h'. cJSON_ReplaceItemInArray (Some a) (int (length ts1)) (Some (tree_root u)) h [] = Some (True, h', postorder t) \<and>
           in_heap h' (Tree a (ts1 @ u # ts2))"
proof -
  let ?ys = "map tree_root ts1" let ?zs = "map tree_root ts2"
  have ch: "children_are h a (?ys @ tree_root t # ?zs)" and ref: "\<not> is_reference (h a)"
    and sub: "\<And>v. v \<in> set (u # ts1 @ t # ts2) \<Longrightarrow> in_heap h v"
    using assms(1,2) by (auto simp: list_all_iff)
  have "tree_root v \<notin> set (postorder u)" if "v \<in> set (ts1 @ t # ts2)" for v
    using assms(3) root_in_postorder [of v] that by auto
  then have new: "tree_root u \<notin> set (a # ?ys @ tree_root t # ?zs)"
    using root_in_postorder [of u] assms(3) by auto
  from replace_swaps [OF ch new, of "[]"] obtain h' where
      h': "cJSON_ReplaceItemViaPointer (Some a) (Some (tree_root t)) (Some (tree_root u)) h [] =
           map_option (\<lambda>f. (True, h', f)) (cJSON_Delete h' (Some (tree_root t)) [])"
      "children_are h' a (?ys @ tree_root u # ?zs)" "next_item (h' (tree_root t)) = None"
      and frame: "\<And>b. b \<noteq> a \<Longrightarrow> child_item (h' b) = child_item (h b)" "\<And>b. is_reference (h' b) = is_reference (h b)"
      "\<And>b. b \<notin> set (a # map tree_root (u # ts1 @ t # ts2)) \<Longrightarrow> h' b = h b" by auto
  have kept: "in_heap h' v" if "v \<in> set (u # ts1 @ t # ts2)" for v
    using subtree_kept [OF that sub [OF that] assms(3) frame] .
  then have "cJSON_Delete h' (Some (tree_root t)) [] = Some (postorder t)"
    using assms(3) h'(3) by (intro delete_detached) auto
  moreover have "in_heap h' (Tree a (ts1 @ u # ts2))" using kept h'(2) frame(2) ref by (simp add: list_all_iff)
  ultimately show ?thesis using h'(1) item_at [OF ch] by (simp add: cJSON_ReplaceItemInArray_def)
qed

section \<open>Properties\<close>

text \<open>
  C11. The functions that edit an array implement the operations on the list of its items:
  adding appends, inserting puts the item in front of the one with the index (or at the end),
  and detaching takes out exactly the item with the index, or nothing; the pointers of the
  changed list are again complete, with the first item pointing to the last.
\<close>

theorem editing_refines_lists:
  assumes "children_are h a xs" and "i \<notin> set (a # xs)" and "next_item (h i) = None"
  shows "(\<exists>h'. add_item_to_array (Some a) (Some i) h = (True, h') \<and> children_are h' a (xs @ [i])) \<and>
    (\<exists>h'. cJSON_InsertItemInArray (Some a) which (Some i) h = Some (0 \<le> which, h') \<and>
       children_are h' a (if which < 0 then xs else take (nat which) xs @ i # drop (nat which) xs)) \<and>
    (\<exists>h'. cJSON_DetachItemFromArray (Some a) which h =
            Some (if 0 \<le> which \<and> which < int (length xs) then Some (xs ! nat which) else None, h') \<and>
       children_are h' a (if 0 \<le> which then take (nat which) xs @ drop (Suc (nat which)) xs else xs))"
proof -
  obtain h1 where add: "add_item_to_array (Some a) (Some i) h = (True, h1)" "children_are h1 a (xs @ [i])"
    using add_item_to_array_appends [OF assms] by blast
  consider "which < 0" | "0 \<le> which" "int (length xs) \<le> which" | k where "which = int k" "k < length xs"
    by (metis not_less zero_le_imp_eq_int of_nat_less_iff)
  then show ?thesis
  proof cases
    case 1
    then show ?thesis using add assms(1)
      by (simp add: cJSON_InsertItemInArray_def cJSON_DetachItemFromArray_def)
  next
    case 2
    then have "get_array_item h (Some a) (nat which) = None" using get_array_item_nth [OF assms(1)] by simp
    then show ?thesis using 2 add assms(1)
      by (simp add: cJSON_InsertItemInArray_def cJSON_DetachItemFromArray_def cJSON_DetachItemViaPointer_def)
  next
    case (3 k)
    define ys x zs where "ys = take k xs" and "x = xs ! k" and "zs = drop (Suc k) xs"
    have xs: "xs = ys @ x # zs" "length ys = k" using id_take_nth_drop [of k xs] 3 by (simp_all add: ys_def x_def zs_def)
    from insert_before [of h a ys x zs i] detach_removes [of h a ys x zs] item_at [of h a ys x zs] assms(1,2) add 3
    show ?thesis unfolding xs(1) by (auto simp: xs(2) [symmetric] cJSON_DetachItemFromArray_def)
  qed
qed

text \<open>
  C12. Deleting an item of an array of trees ends; it frees the items of that tree and no
  others, each of them once, and what is left is the array without the tree.  Replacing an
  item frees the old tree in the same way and leaves the new one in its place.
\<close>

theorem deleted_items_freed_once:
  assumes "in_heap h (Tree a ts)" and "in_heap h u" and "distinct (postorder (Tree a (u # ts)))" and "k < length ts"
  shows "(\<exists>h'. cJSON_DeleteItemFromArray (Some a) (int k) h [] = Some (h', postorder (ts ! k)) \<and>
            in_heap h' (Tree a (take k ts @ drop (Suc k) ts))) \<and>
         (\<exists>h'. cJSON_ReplaceItemInArray (Some a) (int k) (Some (tree_root u)) h [] = Some (True, h', postorder (ts ! k)) \<and>
            in_heap h' (Tree a (ts[k := u])))"
proof -
  have ts: "ts = take k ts @ ts ! k # drop (Suc k) ts" and k: "length (take k ts) = k"
    using assms(4) id_take_nth_drop by auto
  have "distinct (postorder (Tree a ts))" using assms(3) by auto
  with assms(1-3) ts have
    "in_heap h (Tree a (take k ts @ ts ! k # drop (Suc k) ts))" "in_heap h u"
    "distinct (postorder (Tree a (take k ts @ ts ! k # drop (Suc k) ts)))"
    "distinct (postorder (Tree a (u # take k ts @ ts ! k # drop (Suc k) ts)))" by simp_all
  with delete_from_array [of h a "take k ts" "ts ! k" "drop (Suc k) ts"]
    replace_in_array [of h a "take k ts" "ts ! k" "drop (Suc k) ts" u]
  show ?thesis unfolding k by (simp add: upd_conv_take_nth_drop assms(4))
qed

end
