(* ===== verification/CJsonReference.thy ===== *)
theory CJsonReference
  imports CJsonHeap
begin

text \<open>
  References of cJSON: items that point to the children of another item.  Deleting one frees
  the reference and leaves what it points to alone.  \<open>fresh\<close> is the address that the allocator
  returns.
\<close>

definition cJSON_New_node :: "nat \<Rightarrow> heap \<Rightarrow> heap" where
  "cJSON_New_node fresh h =
     h(fresh := \<lparr>next_item = None, prev_item = None, child_item = None, is_reference = False\<rparr>)"

definition create_reference :: "nat option \<Rightarrow> nat \<Rightarrow> heap \<Rightarrow> nat option \<times> heap" where
  "create_reference item fresh h =
     (case item of
        None \<Rightarrow> (None, h)
      | Some i \<Rightarrow>
          (let h = cJSON_New_node fresh h
           in (Some fresh, h(fresh := (h i)\<lparr>next_item := None, prev_item := None, is_reference := True\<rparr>))))"

definition cJSON_AddItemReferenceToArray :: "nat option \<Rightarrow> nat option \<Rightarrow> nat \<Rightarrow> heap \<Rightarrow> bool \<times> heap" where
  "cJSON_AddItemReferenceToArray array item fresh h =
     (case array of
        None \<Rightarrow> (False, h)
      | Some a \<Rightarrow> (let (reference, h) = create_reference item fresh h in add_item_to_array array reference h))"

definition cJSON_CreateObjectReference :: "nat option \<Rightarrow> nat \<Rightarrow> heap \<Rightarrow> nat \<times> heap" where
  "cJSON_CreateObjectReference child fresh h =
     (let h = cJSON_New_node fresh h in (fresh, h(fresh := (h fresh)\<lparr>is_reference := True, child_item := child\<rparr>)))"

definition cJSON_CreateArrayReference :: "nat option \<Rightarrow> nat \<Rightarrow> heap \<Rightarrow> nat \<times> heap" where
  "cJSON_CreateArrayReference child fresh h =
     (let h = cJSON_New_node fresh h in (fresh, h(fresh := (h fresh)\<lparr>is_reference := True, child_item := child\<rparr>)))"

section \<open>Lemmas\<close>

lemma add_item_keeps:
  "b \<noteq> a \<Longrightarrow> child_item (snd (add_item_to_array (Some a) (Some i) h) b) = child_item (h b)"
  "is_reference (snd (add_item_to_array (Some a) (Some i) h) b) = is_reference (h b)"
  by (simp_all add: add_item_to_array_def suffix_object_def split: option.splits)

lemma delete_reference:
  "is_reference (h r) \<Longrightarrow> next_item (h r) = None \<Longrightarrow> cJSON_Delete h (Some r) [] = Some [r]"
  by (simp add: cJSON_Delete.simps [of h "Some r"] cJSON_Delete.simps [of h None])

lemma created_reference_freed_alone:
  "cJSON_CreateObjectReference child r h = (r', h') \<Longrightarrow> cJSON_Delete h' (Some r') [] = Some [r]"
  "cJSON_CreateArrayReference child r h = (r', h') \<Longrightarrow> cJSON_Delete h' (Some r') [] = Some [r]"
  by (auto simp: cJSON_CreateObjectReference_def cJSON_CreateArrayReference_def cJSON_New_node_def Let_def
      intro!: delete_reference)

text \<open>
  A reference that is added to an array has the children of the item; when it is deleted from
  the array only the reference is freed, the array is as before, and the trees of other items
  are still there.
\<close>

lemma reference_freed_alone:
  assumes "children_are h a xs" and "r \<notin> set (i # a # xs)"
  obtains h1 h2 where "cJSON_AddItemReferenceToArray (Some a) (Some i) r h = (True, h1)"
    and "children_are h1 a (xs @ [r])" and "child_item (h1 r) = child_item (h i)"
    and "cJSON_DeleteItemFromArray (Some a) (int (length xs)) h1 [] = Some (h2, [r])" and "children_are h2 a xs"
    and "\<And>t. in_heap h t \<Longrightarrow> distinct (postorder t) \<Longrightarrow> set (postorder t) \<inter> set (r # a # xs) = {} \<Longrightarrow> in_heap h2 t"
proof -
  let ?h = "h(r := (h i)\<lparr>next_item := None, prev_item := None, is_reference := True\<rparr>)"
  have new: "create_reference (Some i) r h = (Some r, ?h)"
    using assms(2) by (auto simp: create_reference_def cJSON_New_node_def Let_def)
  have "children_are ?h a xs" using assms(1,2) by (subst children_are_frame [of _ _ h]) auto
  then obtain h1 where add: "add_item_to_array (Some a) (Some r) ?h = (True, h1)" "children_are h1 a (xs @ [r])"
      and frame1: "\<And>b. b \<notin> set (a # r # xs) \<Longrightarrow> h1 b = ?h b"
    using add_item_to_array_appends [of ?h a xs r] assms(2) by auto
  have r: "child_item (h1 r) = child_item (h i)" "is_reference (h1 r)"
    using add_item_keeps(1) [of r a r ?h] add_item_keeps(2) [of a r ?h r] add(1) assms(2) by auto
  obtain h2 where det: "cJSON_DetachItemViaPointer (Some a) (Some r) h1 = Some (Some r, h2)" "children_are h2 a xs"
      "next_item (h2 r) = None" "is_reference (h2 r)" and frame2: "\<And>b. b \<notin> set (a # xs @ [r]) \<Longrightarrow> h2 b = h1 b"
    using detach_removes [OF add(2)] r(2) by auto
  have "cJSON_DeleteItemFromArray (Some a) (int (length xs)) h1 [] = Some (h2, [r])"
    using det(1) item_at [OF add(2)] delete_reference [of h2 r] det(3,4)
    by (simp add: cJSON_DeleteItemFromArray_def cJSON_DetachItemFromArray_def)
  moreover have "in_heap h2 t" if "in_heap h t" "distinct (postorder t)" "set (postorder t) \<inter> set (r # a # xs) = {}" for t
  proof (rule in_heap_frame [OF that(1)])
    have same: "h2 b = h b" if "b \<in> set (postorder t)" for b
      using that \<open>set (postorder t) \<inter> set (r # a # xs) = {}\<close> frame1 [of b] frame2 [of b] by auto
    show "child_item (h2 b) = child_item (h b) \<and> is_reference (h2 b) = is_reference (h b)" "h2 b = h b"
      if "b \<in> set (postorder t)" for b using same [OF that] by simp_all
  qed (rule that(2))
  ultimately show ?thesis
    using that add r(1) det(2) new by (simp add: cJSON_AddItemReferenceToArray_def)
qed

end
