(* ===== verification/CJsonEdit.thy ===== *)
theory CJsonEdit
  imports RoundTrip
begin

text \<open>
  The rest of the interface of cJSON on trees: the types of items, constructors, and the
  members of objects, which are found, added, detached and replaced.  What the functions do
  with the pointers between the items is the subject of the theory \<open>CJsonHeap\<close>.
\<close>

section \<open>Access\<close>

definition cJSON_GetArrayItem :: "cJSON \<Rightarrow> int \<Rightarrow> cJSON option" where
  "cJSON_GetArrayItem array index =
     (if index < 0 then None
      else if nat index < length (children array) then Some (children array ! nat index) else None)"

text \<open>
  The search with case sensitivity stops at the first child without a name, and finds nothing
  then; the other one goes on.
\<close>

fun find_sensitive :: "string \<Rightarrow> cJSON list \<Rightarrow> nat option" where
  "find_sensitive name [] = None"
| "find_sensitive name (c # cs) =
     (case item_string c of
        None \<Rightarrow> None
      | Some s \<Rightarrow> if name = s then Some 0 else map_option Suc (find_sensitive name cs))"

fun find_insensitive :: "string \<Rightarrow> cJSON list \<Rightarrow> nat option" where
  "find_insensitive name [] = None"
| "find_insensitive name (c # cs) =
     (if (case item_string c of None \<Rightarrow> False | Some s \<Rightarrow> case_insensitive_equal name s) then Some 0
      else map_option Suc (find_insensitive name cs))"

definition get_object_index :: "bool \<Rightarrow> cJSON \<Rightarrow> string \<Rightarrow> nat option" where
  "get_object_index case_sensitive object name =
     (if case_sensitive then find_sensitive name (children object) else find_insensitive name (children object))"

definition get_object_item :: "cJSON \<Rightarrow> string \<Rightarrow> bool \<Rightarrow> cJSON option" where
  "get_object_item object name case_sensitive =
     map_option (\<lambda>k. children object ! k) (get_object_index case_sensitive object name)"

definition cJSON_GetObjectItemCaseSensitive :: "cJSON \<Rightarrow> string \<Rightarrow> cJSON option" where
  "cJSON_GetObjectItemCaseSensitive object name = get_object_item object name True"

definition cJSON_HasObjectItem :: "cJSON \<Rightarrow> string \<Rightarrow> bool" where
  "cJSON_HasObjectItem object name \<longleftrightarrow> cJSON_GetObjectItem object name \<noteq> None"

definition cJSON_GetStringValue :: "cJSON \<Rightarrow> string option" where
  "cJSON_GetStringValue item = (if cJSON_IsString item then valuestring item else None)"

section \<open>Types of items\<close>

definition cJSON_IsInvalid :: "cJSON \<Rightarrow> bool" where "cJSON_IsInvalid item \<longleftrightarrow> item_type item = cJSON_Invalid"

definition cJSON_IsFalse :: "cJSON \<Rightarrow> bool" where "cJSON_IsFalse item \<longleftrightarrow> item_type item = cJSON_False"

definition cJSON_IsTrue :: "cJSON \<Rightarrow> bool" where "cJSON_IsTrue item \<longleftrightarrow> item_type item = cJSON_True"

definition cJSON_IsBool :: "cJSON \<Rightarrow> bool" where
  "cJSON_IsBool item \<longleftrightarrow> item_type item = cJSON_True \<or> item_type item = cJSON_False"

definition cJSON_IsNull :: "cJSON \<Rightarrow> bool" where "cJSON_IsNull item \<longleftrightarrow> item_type item = cJSON_NULL"

definition cJSON_IsNumber :: "cJSON \<Rightarrow> bool" where "cJSON_IsNumber item \<longleftrightarrow> item_type item = cJSON_Number"

text \<open>The result \<open>None\<close> is the NaN that stands for no number.\<close>

definition cJSON_GetNumberValue :: "cJSON \<Rightarrow> double option" where
  "cJSON_GetNumberValue item = (if cJSON_IsNumber item then Some (valuedouble item) else None)"

definition cJSON_IsObject :: "cJSON \<Rightarrow> bool" where "cJSON_IsObject item \<longleftrightarrow> item_type item = cJSON_Object"

definition cJSON_IsRaw :: "cJSON \<Rightarrow> bool" where "cJSON_IsRaw item \<longleftrightarrow> item_type item = cJSON_Raw"

section \<open>Constructors\<close>

definition cJSON_CreateNull :: cJSON where "cJSON_CreateNull = Item cJSON_NULL None 0 (Finite 0) None []"

definition cJSON_CreateTrue :: cJSON where "cJSON_CreateTrue = Item cJSON_True None 0 (Finite 0) None []"

definition cJSON_CreateFalse :: cJSON where "cJSON_CreateFalse = Item cJSON_False None 0 (Finite 0) None []"

definition cJSON_CreateBool :: "bool \<Rightarrow> cJSON" where
  "cJSON_CreateBool boolean = Item (if boolean then cJSON_True else cJSON_False) None 0 (Finite 0) None []"

definition cJSON_CreateRaw :: "string \<Rightarrow> cJSON" where
  "cJSON_CreateRaw raw = Item cJSON_Raw (Some raw) 0 (Finite 0) None []"

definition cJSON_CreateArray :: cJSON where "cJSON_CreateArray = Item cJSON_Array None 0 (Finite 0) None []"

definition with_children :: "cJSON list \<Rightarrow> cJSON \<Rightarrow> cJSON" where
  "with_children ch x = Item (item_type x) (valuestring x) (valueint x) (valuedouble x) (item_string x) ch"

text \<open>The arrays: \<open>count\<close> elements of a C array, or nothing for a negative count.\<close>

definition cJSON_CreateIntArray :: "int list \<Rightarrow> int \<Rightarrow> cJSON option" where
  "cJSON_CreateIntArray numbers count =
     (if count < 0 then None
      else Some (with_children (map (\<lambda>n. cJSON_CreateNumber (Finite (of_int n))) (take (nat count) numbers)) cJSON_CreateArray))"

definition cJSON_CreateDoubleArray :: "double list \<Rightarrow> int \<Rightarrow> cJSON option" where
  "cJSON_CreateDoubleArray numbers count =
     (if count < 0 then None
      else Some (with_children (map cJSON_CreateNumber (take (nat count) numbers)) cJSON_CreateArray))"

text \<open>The numbers are those that the values of type \<^verbatim>\<open>float\<close> are converted to.\<close>

definition cJSON_CreateFloatArray :: "double list \<Rightarrow> int \<Rightarrow> cJSON option" where
  "cJSON_CreateFloatArray numbers count =
     (if count < 0 then None
      else Some (with_children (map cJSON_CreateNumber (take (nat count) numbers)) cJSON_CreateArray))"

definition cJSON_CreateStringArray :: "string list \<Rightarrow> int \<Rightarrow> cJSON option" where
  "cJSON_CreateStringArray strings count =
     (if count < 0 then None
      else Some (with_children (map cJSON_CreateString (take (nat count) strings)) cJSON_CreateArray))"

definition cJSON_AddItemToArray :: "cJSON \<Rightarrow> cJSON \<Rightarrow> cJSON" where
  "cJSON_AddItemToArray array x = with_children (children array @ [x]) array"

text \<open>A constant name is not copied and not freed; the text of the name is the same.\<close>

definition cJSON_AddItemToObjectCS :: "cJSON \<Rightarrow> string \<Rightarrow> cJSON \<Rightarrow> cJSON" where
  "cJSON_AddItemToObjectCS object name x = cJSON_AddItemToObject object name x"

definition cJSON_AddNullToObject :: "cJSON \<Rightarrow> string \<Rightarrow> cJSON" where
  "cJSON_AddNullToObject object name = cJSON_AddItemToObject object name cJSON_CreateNull"

definition cJSON_AddTrueToObject :: "cJSON \<Rightarrow> string \<Rightarrow> cJSON" where
  "cJSON_AddTrueToObject object name = cJSON_AddItemToObject object name cJSON_CreateTrue"

definition cJSON_AddFalseToObject :: "cJSON \<Rightarrow> string \<Rightarrow> cJSON" where
  "cJSON_AddFalseToObject object name = cJSON_AddItemToObject object name cJSON_CreateFalse"

definition cJSON_AddBoolToObject :: "cJSON \<Rightarrow> string \<Rightarrow> bool \<Rightarrow> cJSON" where
  "cJSON_AddBoolToObject object name boolean = cJSON_AddItemToObject object name (cJSON_CreateBool boolean)"

definition cJSON_AddRawToObject :: "cJSON \<Rightarrow> string \<Rightarrow> string \<Rightarrow> cJSON" where
  "cJSON_AddRawToObject object name raw = cJSON_AddItemToObject object name (cJSON_CreateRaw raw)"

definition cJSON_AddObjectToObject :: "cJSON \<Rightarrow> string \<Rightarrow> cJSON" where
  "cJSON_AddObjectToObject object name = cJSON_AddItemToObject object name cJSON_CreateObject"

definition cJSON_AddArrayToObject :: "cJSON \<Rightarrow> string \<Rightarrow> cJSON" where
  "cJSON_AddArrayToObject object name = cJSON_AddItemToObject object name cJSON_CreateArray"

section \<open>Changes\<close>

definition cJSON_SetNumberHelper :: "cJSON \<Rightarrow> double \<Rightarrow> cJSON" where
  "cJSON_SetNumberHelper object number =
     Item (item_type object) (valuestring object) (saturate number) number (item_string object) (children object)"

text \<open>The new text does not overlap the old one in memory; \<open>None\<close> is the null pointer that reports an error.\<close>

definition cJSON_SetValuestring :: "cJSON \<Rightarrow> string option \<Rightarrow> string option \<times> cJSON" where
  "cJSON_SetValuestring object new_text =
     (if item_type object \<noteq> cJSON_String \<or> valuestring object = None \<or> new_text = None then (None, object)
      else (new_text, Item (item_type object) new_text (valueint object) (valuedouble object) (item_string object) (children object)))"

text \<open>The item that was taken out, if any, and the object without it.\<close>

definition detach_index :: "cJSON \<Rightarrow> nat option \<Rightarrow> cJSON option \<times> cJSON" where
  "detach_index object index =
     (case index of
        None \<Rightarrow> (None, object)
      | Some k \<Rightarrow>
          (Some (children object ! k), with_children (take k (children object) @ drop (Suc k) (children object)) object))"

definition cJSON_DetachItemFromObject :: "cJSON \<Rightarrow> string \<Rightarrow> cJSON option \<times> cJSON" where
  "cJSON_DetachItemFromObject object name = detach_index object (get_object_index False object name)"

definition cJSON_DetachItemFromObjectCaseSensitive :: "cJSON \<Rightarrow> string \<Rightarrow> cJSON option \<times> cJSON" where
  "cJSON_DetachItemFromObjectCaseSensitive object name = detach_index object (get_object_index True object name)"

definition cJSON_DeleteItemFromObject :: "cJSON \<Rightarrow> string \<Rightarrow> cJSON" where
  "cJSON_DeleteItemFromObject object name = snd (cJSON_DetachItemFromObject object name)"

definition cJSON_DeleteItemFromObjectCaseSensitive :: "cJSON \<Rightarrow> string \<Rightarrow> cJSON" where
  "cJSON_DeleteItemFromObjectCaseSensitive object name = snd (cJSON_DetachItemFromObjectCaseSensitive object name)"

definition replace_item_in_object :: "cJSON \<Rightarrow> string \<Rightarrow> cJSON \<Rightarrow> bool \<Rightarrow> bool \<times> cJSON" where
  "replace_item_in_object object name replacement case_sensitive =
     (case get_object_index case_sensitive object name of
        None \<Rightarrow> (False, object)
      | Some k \<Rightarrow> (True, with_children ((children object)[k := with_string (Some name) replacement]) object))"

definition cJSON_ReplaceItemInObject :: "cJSON \<Rightarrow> string \<Rightarrow> cJSON \<Rightarrow> bool \<times> cJSON" where
  "cJSON_ReplaceItemInObject object name newitem = replace_item_in_object object name newitem False"

definition cJSON_ReplaceItemInObjectCaseSensitive :: "cJSON \<Rightarrow> string \<Rightarrow> cJSON \<Rightarrow> bool \<times> cJSON" where
  "cJSON_ReplaceItemInObjectCaseSensitive object name newitem = replace_item_in_object object name newitem True"

definition same_name :: "bool \<Rightarrow> cJSON \<Rightarrow> cJSON \<Rightarrow> cJSON option" where
  "same_name case_sensitive object x =
     (case item_string x of None \<Rightarrow> None | Some name \<Rightarrow> get_object_item object name case_sensitive)"

section \<open>Lemmas\<close>

lemma child_smaller: "x \<in> set (children a) \<Longrightarrow> size x < size a"
  by (cases a) (auto dest: size_list_estimation' [of _ _ _ size, OF _ order_refl] simp: less_Suc_eq_le)

lemma find_bound:
  "find_sensitive name cs = Some k \<Longrightarrow> k < length cs" "find_insensitive name cs = Some k \<Longrightarrow> k < length cs"
  by (induction cs arbitrary: k) (auto split: option.splits if_splits)

lemma same_name_child: "same_name cs a x = Some y \<Longrightarrow> y \<in> set (children a)"
  by (auto simp: same_name_def get_object_item_def get_object_index_def find_bound split: option.splits if_splits)

lemma zip_smaller: "(x, y) \<in> set (zip (children a) (children b)) \<Longrightarrow> size x + size y < size a + size b"
  by (blast intro: add_strict_mono child_smaller dest: set_zip_leftD set_zip_rightD)

text \<open>The search without regard to case is the one the client uses.\<close>

lemma get_object_item_insensitive: "get_object_item object name False = cJSON_GetObjectItem object name"
proof -
  have "map_option (\<lambda>k. cs ! k) (find_insensitive name cs) =
      find (\<lambda>c. case item_string c of None \<Rightarrow> False | Some s \<Rightarrow> case_insensitive_equal name s) cs" for cs
    by (induction cs) (auto simp: option.map_comp comp_def)
  then show ?thesis by (simp add: get_object_item_def get_object_index_def cJSON_GetObjectItem_def)
qed

text \<open>Names after an edit.\<close>

lemma find_added:
  "item_string y = Some name \<Longrightarrow> find_insensitive name cs = None \<Longrightarrow> find_insensitive name (cs @ [y]) = Some (length cs)"
  by (induction cs) (auto simp: case_insensitive_equal_def split: if_splits)

lemma added_then_found:
  "cJSON_GetObjectItem object name = None \<Longrightarrow>
     cJSON_GetObjectItem (cJSON_AddItemToObject object name x) name = Some (with_string (Some name) x)"
  unfolding get_object_item_insensitive [symmetric]
  by (auto simp: get_object_item_def get_object_index_def cJSON_AddItemToObject_def find_added with_string_def)

lemma find_replaced:
  "find_sensitive name cs = Some k \<Longrightarrow> item_string y = Some name \<Longrightarrow> find_sensitive name (cs[k := y]) = Some k"
  "find_insensitive name cs = Some k \<Longrightarrow> item_string y = Some name \<Longrightarrow> find_insensitive name (cs[k := y]) = Some k"
  by (induction cs arbitrary: k) (auto simp: case_insensitive_equal_def split: option.splits if_splits)

lemma replaced_then_found:
  "replace_item_in_object object name x case_sensitive = (True, object') \<Longrightarrow>
     get_object_item object' name case_sensitive = Some (with_string (Some name) x)"
  by (auto simp: replace_item_in_object_def get_object_item_def get_object_index_def with_children_def with_string_def
      find_replaced find_bound split: option.splits if_splits)

end
