(* ===== verification/CJsonCopy.thy ===== *)
theory CJsonCopy
  imports CJsonEdit
begin

text \<open>
  Copies of trees, the comparison of trees and the removal of white space from a text; and
  what the trees that the parser builds are like.
\<close>

section \<open>Copies and comparison\<close>

definition CJSON_CIRCULAR_LIMIT :: nat where "CJSON_CIRCULAR_LIMIT = 10000"

fun cJSON_Duplicate_rec :: "cJSON \<Rightarrow> nat \<Rightarrow> bool \<Rightarrow> cJSON option" where
  "cJSON_Duplicate_rec (Item t vs vi vd nm ch) depth recurse =
     (if \<not> recurse then Some (Item t vs vi vd nm [])
      else if ch \<noteq> [] \<and> CJSON_CIRCULAR_LIMIT \<le> depth then None
      else map_option (Item t vs vi vd nm) (those (map (\<lambda>c. cJSON_Duplicate_rec c (depth + 1) True) ch)))"

definition cJSON_Duplicate :: "cJSON \<Rightarrow> bool \<Rightarrow> cJSON option" where
  "cJSON_Duplicate item recurse = cJSON_Duplicate_rec item 0 recurse"

text \<open>The comparison of two different items; an item is always equal to itself when it is valid.\<close>

function cJSON_Compare :: "cJSON \<Rightarrow> cJSON \<Rightarrow> bool \<Rightarrow> bool" where
  "cJSON_Compare a b case_sensitive =
     (if item_type a \<noteq> item_type b then False
      else
        (case item_type a of
           cJSON_Invalid \<Rightarrow> False
         | cJSON_False \<Rightarrow> True
         | cJSON_True \<Rightarrow> True
         | cJSON_NULL \<Rightarrow> True
         | cJSON_Number \<Rightarrow> compare_double (valuedouble a) (valuedouble b)
         | cJSON_String \<Rightarrow> valuestring a \<noteq> None \<and> valuestring a = valuestring b
         | cJSON_Raw \<Rightarrow> valuestring a \<noteq> None \<and> valuestring a = valuestring b
         | cJSON_Array \<Rightarrow>
             list_all (\<lambda>(x, y). cJSON_Compare x y case_sensitive) (zip (children a) (children b)) \<and>
             length (children a) = length (children b)
         | cJSON_Object \<Rightarrow>
             list_all (\<lambda>x. case same_name case_sensitive b x of None \<Rightarrow> False | Some y \<Rightarrow> cJSON_Compare x y case_sensitive)
               (children a) \<and>
             list_all (\<lambda>y. case same_name case_sensitive a y of None \<Rightarrow> False | Some x \<Rightarrow> cJSON_Compare y x case_sensitive)
               (children b)))"
  by pat_completeness auto
termination
  by (relation "measure (\<lambda>(a, b, _). size a + size b)")
    (auto dest!: same_name_child child_smaller zip_smaller intro: add_strict_mono)

declare cJSON_Compare.simps [simp del]

section \<open>Minify\<close>

fun skip_oneline_comment :: "string \<Rightarrow> string" where
  "skip_oneline_comment [] = []"
| "skip_oneline_comment (c # r) = (if c = CHR 0x0A then r else skip_oneline_comment r)"

fun skip_multiline_comment :: "string \<Rightarrow> string" where
  "skip_multiline_comment (c # d # r) =
     (if c = CHR ''*'' \<and> d = CHR ''/'' then r else skip_multiline_comment (d # r))"
| "skip_multiline_comment r = []"

text \<open>What is behind the opening quote: the bytes that are copied, with the closing quote, and the rest.\<close>

fun minify_string :: "string \<Rightarrow> string \<times> string" where
  "minify_string [] = ([], [])"
| "minify_string (c # r) =
     (if c = CHR 0x22 then ([c], r)
      else if c = CHR 0x5C \<and> r \<noteq> [] \<and> hd r = CHR 0x22 then
        (let (b, rest) = minify_string (tl r) in (c # CHR 0x22 # b, rest))
      else (let (b, rest) = minify_string r in (c # b, rest)))"

function cJSON_Minify :: "string \<Rightarrow> string" where
  "cJSON_Minify [] = []"
| "cJSON_Minify (c # r) =
     (if c \<in> {CHR '' '', CHR 0x09, CHR 0x0D, CHR 0x0A} then cJSON_Minify r
      else if c = CHR ''/'' then
        (if r \<noteq> [] \<and> hd r = CHR ''/'' then cJSON_Minify (skip_oneline_comment (tl r))
         else if r \<noteq> [] \<and> hd r = CHR ''*'' then cJSON_Minify (skip_multiline_comment (tl r))
         else cJSON_Minify r)
      else if c = CHR 0x22 then c # fst (minify_string r) @ cJSON_Minify (snd (minify_string r))
      else c # cJSON_Minify r)"
  by pat_completeness auto
termination
proof -
  have one: "length (skip_oneline_comment r) \<le> length r" for r by (induction r) auto
  have multi: "length (skip_multiline_comment r) \<le> length r" for r
    by (induction r rule: skip_multiline_comment.induct) auto
  have string: "length (snd (minify_string r)) \<le> length r" for r
    by (induction r rule: minify_string.induct) (auto split: prod.splits simp: Let_def)
  show ?thesis
    by (relation "measure length") (auto simp: less_Suc_eq_le string intro: order_trans [OF one] order_trans [OF multi])
qed

section \<open>Specifications\<close>

text \<open>Trees as the parser builds them.\<close>

fun well_typed :: "cJSON \<Rightarrow> bool" where
  "well_typed (Item t vs vi vd nm ch) \<longleftrightarrow>
     (case t of
        cJSON_NULL \<Rightarrow> vs = None \<and> ch = []
      | cJSON_False \<Rightarrow> vs = None \<and> ch = []
      | cJSON_True \<Rightarrow> vs = None \<and> ch = []
      | cJSON_Number \<Rightarrow> vs = None \<and> vi = saturate vd \<and> ch = []
      | cJSON_String \<Rightarrow> (case vs of None \<Rightarrow> False | Some s \<Rightarrow> c_text s) \<and> ch = []
      | cJSON_Array \<Rightarrow> vs = None \<and> list_all (\<lambda>x. item_string x = None \<and> well_typed x) ch
      | cJSON_Object \<Rightarrow> vs = None \<and> list_all (\<lambda>x. (case item_string x of None \<Rightarrow> False | Some k \<Rightarrow> c_text k) \<and> well_typed x) ch
      | _ \<Rightarrow> False)"

text \<open>Trees that are equal to their copies: no infinite numbers, and names that differ for the comparison.\<close>

definition name_key :: "bool \<Rightarrow> cJSON \<Rightarrow> string option" where
  "name_key case_sensitive x = map_option (if case_sensitive then (\<lambda>s. s) else map to_lower) (item_string x)"

fun comparable :: "bool \<Rightarrow> cJSON \<Rightarrow> bool" where
  "comparable case_sensitive (Item t vs vi vd nm ch) \<longleftrightarrow>
     (t = cJSON_Number \<longrightarrow> (\<exists>q. vd = Finite q)) \<and>
     (t = cJSON_Object \<longrightarrow> distinct (map (name_key case_sensitive) ch)) \<and> list_all (comparable case_sensitive) ch"

text \<open>No text and no name ends with a backslash.\<close>

definition no_final_backslash :: "string option \<Rightarrow> bool" where
  "no_final_backslash t \<longleftrightarrow> (case t of None \<Rightarrow> True | Some s \<Rightarrow> s = [] \<or> last s \<noteq> CHR 0x5C)"

fun minifiable :: "cJSON \<Rightarrow> bool" where
  "minifiable (Item t vs vi vd nm ch) \<longleftrightarrow> no_final_backslash vs \<and> no_final_backslash nm \<and> list_all minifiable ch"

section \<open>White space\<close>

lemma minify_string_copies:
  "c \<noteq> CHR 0x22 \<Longrightarrow> \<not> (c = CHR 0x5C \<and> r \<noteq> [] \<and> hd r = CHR 0x22) \<Longrightarrow>
     minify_string (c # r) = (c # fst (minify_string r), snd (minify_string r))"
  by (auto simp: Let_def split: prod.splits)

lemma escape_head: "escape_char c \<noteq> [] \<and> hd (escape_char c) \<noteq> CHR 0x22"
  by (auto simp: escape_char_def)

lemma escape_forms:
  obtains "escape_char c = [c]" "c \<noteq> CHR 0x22" "c \<noteq> CHR 0x5C" | "c = CHR 0x5C" "escape_char c = [CHR 0x5C, CHR 0x5C]"
  | "escape_char c = [CHR 0x5C, CHR 0x22]" "c \<noteq> CHR 0x5C"
  | e where "escape_char c = [CHR 0x5C, e]" "e \<noteq> CHR 0x22" "e \<noteq> CHR 0x5C" "c \<noteq> CHR 0x5C"
  | h1 h2 where "escape_char c = [CHR 0x5C, CHR ''u'', CHR ''0'', CHR ''0'', h1, h2]"
      "h1 \<noteq> CHR 0x22" "h1 \<noteq> CHR 0x5C" "h2 \<noteq> CHR 0x22" "h2 \<noteq> CHR 0x5C" "c \<noteq> CHR 0x5C"
proof -
  consider "c = CHR 0x5C" | "c = CHR 0x22" | "c \<noteq> CHR 0x5C" "c \<noteq> CHR 0x22" "31 < (of_char c :: nat)"
    | "c \<in> {CHR 0x08, CHR 0x0C, CHR 0x0A, CHR 0x0D, CHR 0x09}"
    | "c \<notin> {CHR 0x5C, CHR 0x22, CHR 0x08, CHR 0x0C, CHR 0x0A, CHR 0x0D, CHR 0x09}" "(of_char c :: nat) \<le> 31" by fastforce
  then show thesis
  proof cases
    case 5
    have "(of_char c :: nat) div 16 < 16" "(of_char c :: nat) mod 16 < 16" using 5(2) by simp_all
    then have "hex_digit (of_char c div 16) \<notin> {CHR 0x22, CHR 0x5C}" "hex_digit (of_char c mod 16) \<notin> {CHR 0x22, CHR 0x5C}"
      using hex_digit_plain by blast+
    then show thesis using 5 by (intro that(5) [of "hex_digit (of_char c div 16)" "hex_digit (of_char c mod 16)"]) (auto simp: escape_char_def)
  qed (use that in \<open>auto simp: escape_char_def\<close>)
qed

text \<open>The quote behind an escaped character is seen as one, except behind a backslash.\<close>

lemma minify_escape_char:
  assumes "c = CHR 0x5C \<longrightarrow> r \<noteq> [] \<and> hd r \<noteq> CHR 0x22"
  shows "minify_string (escape_char c @ r) = (escape_char c @ fst (minify_string r), snd (minify_string r))"
  using assms by (cases rule: escape_forms [of c]) (simp_all add: Let_def split: prod.splits)

lemma minify_string_escaped:
  "no_final_backslash (Some s) \<Longrightarrow>
     minify_string (concat (map escape_char s) @ CHR 0x22 # r) = (concat (map escape_char s) @ [CHR 0x22], r)"
proof (induction s)
  case (Cons c s)
  have "c = CHR 0x5C \<longrightarrow> concat (map escape_char s) @ CHR 0x22 # r \<noteq> [] \<and> hd (concat (map escape_char s) @ CHR 0x22 # r) \<noteq> CHR 0x22"
    using Cons.prems escape_head by (cases s) (auto simp: no_final_backslash_def)
  moreover have "no_final_backslash (Some s)" using Cons.prems by (auto simp: no_final_backslash_def)
  ultimately show ?case using Cons.IH by (simp add: minify_escape_char)
qed simp

lemma minify_text:
  "no_final_backslash s \<Longrightarrow> cJSON_Minify (print_string_ptr s @ r) = print_string_ptr s @ cJSON_Minify r"
  by (cases s) (auto simp: print_string_ptr_def minify_string_escaped)

lemma minify_kept:
  "\<forall>c \<in> set t. c \<notin> {CHR '' '', CHR 0x09, CHR 0x0D, CHR 0x0A, CHR ''/'', CHR 0x22} \<Longrightarrow> cJSON_Minify (t @ r) = t @ cJSON_Minify r"
  by (induction t) auto

lemma minify_number: "cJSON_Minify (to_string k @ r) = to_string k @ cJSON_Minify r"
  using to_string_chars [of k] by (intro minify_kept) (auto simp: number_char_def is_digit_def)

lemma minify_tabs: "cJSON_Minify (replicate n (CHR 0x09) @ r) = cJSON_Minify r"
  by (induction n) auto

lemma minify_print_value:
  "print_value fmt d x = Some t \<Longrightarrow> fmt \<Longrightarrow> canonical x \<Longrightarrow> minifiable x \<Longrightarrow>
     \<exists>u. print_value False d' x = Some u \<and> (\<forall>r. cJSON_Minify (t @ r) = u @ cJSON_Minify r)"
  "print_elements fmt d xs = Some t \<Longrightarrow> fmt \<Longrightarrow> \<forall>x \<in> set xs. canonical x \<and> minifiable x \<Longrightarrow>
     \<exists>u. print_elements False d' xs = Some u \<and> (\<forall>r. cJSON_Minify (t @ r) = u @ cJSON_Minify r)"
  "print_members fmt d xs = Some t \<Longrightarrow> fmt \<Longrightarrow> \<forall>x \<in> set xs. canonical x \<and> minifiable x \<Longrightarrow>
     \<exists>u. print_members False d' xs = Some u \<and> (\<forall>r. cJSON_Minify (t @ r) = u @ cJSON_Minify r)"
proof (induction fmt d x and fmt d xs and fmt d xs arbitrary: t d' and t d' and t d' rule: print_value_print_elements_print_members.induct)
  case (1 fmt d ty vs vi vd nm ch)
  show ?case
  proof (cases ty)
    case cJSON_Array
    then obtain b where b: "print_elements fmt (d + 1) ch = Some b" "t = CHR ''['' # b @ '']''" using 1(3) by auto
    then obtain u where "print_elements False (d' + 1) ch = Some u" "\<And>r. cJSON_Minify (b @ r) = u @ cJSON_Minify r"
      using 1(1) [OF cJSON_Array b(1) 1(4), of "d' + 1"] 1(5,6) cJSON_Array by (auto simp: list_all_iff)
    then show ?thesis using cJSON_Array b(2) by simp
  next
    case cJSON_Object
    then obtain b where b: "print_members fmt (d + 1) ch = Some b"
        "t = ''{\<newline>'' @ b @ replicate d (CHR 0x09) @ ''}''" using 1(3,4) by auto
    then obtain u where "print_members False (d' + 1) ch = Some u" "\<And>r. cJSON_Minify (b @ r) = u @ cJSON_Minify r"
      using 1(2) [OF cJSON_Object b(1) 1(4), of "d' + 1"] 1(5,6) cJSON_Object by (auto simp: list_all_iff)
    then show ?thesis using cJSON_Object b(2) by (simp add: minify_tabs)
  qed (use 1 in \<open>auto simp: print_number_def minify_number minify_text\<close>)
next
  case (3 fmt d x xs)
  then obtain b r where b: "print_value fmt d x = Some b" "print_elements fmt d xs = Some r"
      "t = b @ (if xs = [] then [] else '', '') @ r" by (auto split: option.splits)
  obtain u where "print_value False d' x = Some u" "\<And>r. cJSON_Minify (b @ r) = u @ cJSON_Minify r"
    using 3(1) [OF b(1) 3(4), of d'] 3(5) by auto
  moreover obtain v where "print_elements False d' xs = Some v" "\<And>r'. cJSON_Minify (r @ r') = v @ cJSON_Minify r'"
    using 3(2) [OF b(1) b(2) 3(4), of d'] 3(5) by auto
  ultimately show ?case using b(3) by simp
next
  case (5 fmt d x xs)
  then obtain b r where b: "print_value fmt d x = Some b" "print_members fmt d xs = Some r"
      "t = replicate d (CHR 0x09) @ print_string_ptr (item_string x) @ [CHR '':'', CHR 0x09] @ b @
         (if xs = [] then [] else '','') @ ''\<newline>'' @ r" by (auto split: option.splits)
  obtain u where "print_value False d' x = Some u" "\<And>r. cJSON_Minify (b @ r) = u @ cJSON_Minify r"
    using 5(1) [OF b(1) 5(4), of d'] 5(5) by auto
  moreover obtain v where "print_members False d' xs = Some v" "\<And>r'. cJSON_Minify (r @ r') = v @ cJSON_Minify r'"
    using 5(2) [OF b(1) b(2) 5(4), of d'] 5(5) by auto
  moreover have "no_final_backslash (item_string x)" using 5(5) by (cases x) simp
  ultimately show ?case using b(3) by (simp add: minify_tabs minify_text)
qed auto

lemma canonical_printed:
  "canonical x \<Longrightarrow> \<exists>t. print_value fmt d x = Some t"
  "\<forall>x \<in> set xs. canonical x \<Longrightarrow> \<exists>t. print_elements fmt d xs = Some t"
  "\<forall>x \<in> set xs. canonical x \<Longrightarrow> \<exists>t. print_members fmt d xs = Some t"
proof (induction fmt d x and fmt d xs and fmt d xs rule: print_value_print_elements_print_members.induct)
  case (1 fmt d t vs vi vd nm ch)
  then show ?case by (cases t) (auto simp: list_all_iff split: option.splits)
qed auto

text \<open>
  A string that ends with a backslash: its closing quote is taken for an escaped one, and the
  next string loses its blank.
\<close>

lemma minify_final_backslash:
  "cJSON_Minify ([CHR ''['', CHR 0x22, CHR 0x5C, CHR 0x5C, CHR 0x22, CHR '','', CHR 0x22] @ ''x y'' @ [CHR 0x22, CHR '']'']) =
     [CHR ''['', CHR 0x22, CHR 0x5C, CHR 0x5C, CHR 0x22, CHR '','', CHR 0x22] @ ''xy'' @ [CHR 0x22, CHR '']'']"
  by simp

section \<open>What the parser builds\<close>

lemma c_string_is_text: "c_text (c_string s)"
  unfolding c_text_def c_string_def by (auto dest: set_takeWhileD)

lemma parse_string_text: "parse_string r = Some (s, r') \<Longrightarrow> c_text s"
  by (auto simp: parse_string_def c_string_is_text split: list.splits if_splits option.splits)

lemma parse_number_item: "parse_number r = Some (x, r') \<Longrightarrow> \<exists>d. x = Item cJSON_Number None (saturate d) d None []"
  by (auto simp: parse_number_def Let_def split: option.splits)

lemma well_typed_with_string: "well_typed (with_string k x) = well_typed x" "nesting (with_string k x) = nesting x"
  by (cases x; simp add: with_string_def)+

lemma array_loop_all:
  assumes "array_loop fuel value r = Some (xs, r')" and "\<And>r x r'. value r = Some (x, r') \<Longrightarrow> Q x"
  shows "list_all Q xs"
  using assms(1)
proof (induction fuel arbitrary: r xs r')
  case (Suc fuel)
  then show ?case using assms(2) by (auto split: option.splits list.splits if_splits)
qed simp

lemma object_loop_all:
  assumes "object_loop fuel value r = Some (xs, r')" and "\<And>r x r'. value r = Some (x, r') \<Longrightarrow> Q x"
  shows "list_all (\<lambda>y. \<exists>k x. c_text k \<and> y = with_string (Some k) x \<and> Q x) xs"
  using assms(1)
proof (induction fuel arbitrary: r xs r')
  case (Suc fuel)
  then show ?case using assms(2) parse_string_text
    by (auto split: option.splits list.splits if_splits) blast+
qed simp

lemma nesting_bound: "list_all (\<lambda>x. nesting x \<le> l) ch \<Longrightarrow> nesting (Item t vs vi vd nm ch) \<le> Suc l"
proof -
  assume "list_all (\<lambda>x. nesting x \<le> l) ch"
  then have "foldr (\<lambda>x n. max (nesting x) n) ch 0 \<le> l" by (induction ch) auto
  then show ?thesis by simp
qed

lemma parse_array_typed:
  assumes "parse_array value r = Some (x, r')" and "\<And>r x r'. value r = Some (x, r') \<Longrightarrow> Q x"
  shows "\<exists>xs. x = Item cJSON_Array None 0 (Finite 0) None xs \<and> list_all Q xs"
  using assms(1) array_loop_all [OF _ assms(2)]
  by (auto simp: parse_array_def simp del: array_loop.simps split: list.splits if_splits)

lemma parse_object_typed:
  assumes "parse_object value r = Some (x, r')" and "\<And>r x r'. value r = Some (x, r') \<Longrightarrow> Q x"
  shows "\<exists>xs. x = Item cJSON_Object None 0 (Finite 0) None xs \<and>
    list_all (\<lambda>y. \<exists>k x. c_text k \<and> y = with_string (Some k) x \<and> Q x) xs"
  using assms(1) object_loop_all [OF _ assms(2)]
  by (auto simp: parse_object_def simp del: object_loop.simps split: list.splits if_splits)

lemma parse_value_with_typed:
  assumes "parse_value_with nested r = Some (x, r')"
    and nested: "\<And>value r x r'. nested = Some value \<Longrightarrow> value r = Some (x, r') \<Longrightarrow> well_typed x \<and> item_string x = None \<and> nesting x \<le> l"
  shows "well_typed x \<and> item_string x = None \<and> nesting x \<le> (if nested = None then 0 else Suc l)"
proof -
  let ?Q = "\<lambda>x. well_typed x \<and> item_string x = None \<and> nesting x \<le> l"
  consider (leaf) "well_typed x" "item_string x = None" "nesting x = 0"
    | (arr) p t where "nested = Some p" "parse_array p t = Some (x, r')"
    | (obj) p t where "nested = Some p" "parse_object p t = Some (x, r')"
    using assms(1)
    by (auto simp: parse_value_with_def dest!: parse_number_item parse_string_text split: if_splits list.splits option.splits)
  then show ?thesis
  proof cases
    case arr
    then obtain xs where "x = Item cJSON_Array None 0 (Finite 0) None xs" "list_all ?Q xs"
      using parse_array_typed [of p t x r' ?Q] nested by blast
    then show ?thesis using arr(1) nesting_bound [of l xs] by (simp add: list_all_iff del: nesting.simps)
  next
    case obj
    then obtain xs where "x = Item cJSON_Object None 0 (Finite 0) None xs"
        "list_all (\<lambda>y. \<exists>k x. c_text k \<and> y = with_string (Some k) x \<and> ?Q x) xs"
      using parse_object_typed [of p t x r' ?Q] nested by blast
    moreover then have "list_all (\<lambda>y. (case item_string y of None \<Rightarrow> False | Some k \<Rightarrow> c_text k) \<and> well_typed y \<and> nesting y \<le> l) xs"
      by (auto simp: list_all_iff well_typed_with_string) (auto simp: with_string_def)
    ultimately show ?thesis using obj(1) nesting_bound [of l xs] by (simp add: list_all_iff del: nesting.simps)
  qed simp
qed

lemma parse_value_typed:
  "parse_value levels r = Some (x, r') \<Longrightarrow> well_typed x \<and> item_string x = None \<and> nesting x \<le> levels"
proof (induction levels arbitrary: r x r')
  case 0
  then show ?case using parse_value_with_typed [of None r x r' 0] by simp
next
  case (Suc l)
  then show ?case using parse_value_with_typed [of "Some (parse_value l)" r x r' l] by simp
qed

lemma well_typed_printed:
  "well_typed x \<Longrightarrow> \<exists>t. print_value fmt d x = Some t"
  "list_all well_typed xs \<Longrightarrow> \<exists>t. print_elements fmt d xs = Some t"
  "list_all well_typed xs \<Longrightarrow> \<exists>t. print_members fmt d xs = Some t"
proof (induction fmt d x and fmt d xs and fmt d xs rule: print_value_print_elements_print_members.induct)
  case (1 fmt d t vs vi vd nm ch)
  then show ?case by (cases t) (auto simp: list_all_iff split: option.splits)
qed auto

section \<open>Copies\<close>

lemma those_same: "(\<And>c. c \<in> set cs \<Longrightarrow> f c = Some c) \<Longrightarrow> those (map f cs) = Some cs"
  by (induction cs) auto

lemma duplicate_same: "well_typed x \<Longrightarrow> nesting x + depth \<le> CJSON_CIRCULAR_LIMIT \<Longrightarrow> cJSON_Duplicate_rec x depth True = Some x"
proof (induction x arbitrary: depth)
  case (Item t vs vi vd nm ch)
  show ?case
  proof (cases "ch = []")
    case False
    then have t: "t = cJSON_Array \<or> t = cJSON_Object" using Item.prems(1) by (cases t) auto
    then have "well_typed c \<and> nesting c + Suc depth \<le> CJSON_CIRCULAR_LIMIT" if "c \<in> set ch" for c
      using Item.prems nesting_members [OF that] that by (auto simp: list_all_iff)
    then have "those (map (\<lambda>c. cJSON_Duplicate_rec c (depth + 1) True) ch) = Some ch"
      using Item.IH by (intro those_same) auto
    then show ?thesis using False t Item.prems(2) by auto
  qed simp
qed

lemma to_double_nonneg: "0 \<le> q \<Longrightarrow> to_double q = Finite v \<Longrightarrow> 0 \<le> v"
  by (auto simp: to_double_def round_half_even_def Let_def split: if_splits)

lemma compare_double_refl: "compare_double (Finite q) (Finite q)"
proof -
  have "to_double 0 = Finite 0" by (simp add: to_double_def)
  then show ?thesis using to_double_nonneg [of "\<bar>q\<bar> * 2 powi - 52"]
    by (auto simp: compare_double_def split: double.splits)
qed

lemma find_named:
  assumes "distinct (map (name_key cs) ch)" and "\<forall>c \<in> set ch. item_string c \<noteq> None" and "c \<in> set ch" and "item_string c = Some k"
  shows "\<exists>i < length ch. (if cs then find_sensitive k ch else find_insensitive k ch) = Some i \<and> ch ! i = c"
  using assms
proof (induction ch)
  case (Cons x ch)
  show ?case
  proof (cases "name_key cs x = name_key cs c")
    case True
    then have "x = c" using Cons.prems by force
    then show ?thesis using Cons.prems(4) by (auto simp: case_insensitive_equal_def)
  next
    case False
    then have "c \<in> set ch" using Cons.prems(3) by auto
    with Cons obtain i where "i < length ch" "(if cs then find_sensitive k ch else find_insensitive k ch) = Some i" "ch ! i = c" by auto
    then show ?thesis using False Cons.prems(2,4)
      by (cases "item_string x") (auto simp: name_key_def case_insensitive_equal_def split: if_splits intro!: exI [of _ "Suc i"])
  qed
qed simp

lemma compare_refl: "well_typed x \<Longrightarrow> comparable cs x \<Longrightarrow> cJSON_Compare x x cs"
proof (induction x)
  case (Item t vs vi vd nm ch)
  show ?case
  proof (cases t)
    case cJSON_Object
    then have names: "\<forall>c \<in> set ch. item_string c \<noteq> None" and d: "distinct (map (name_key cs) ch)"
      using Item.prems by (auto simp: list_all_iff split: option.splits)
    have "same_name cs (Item t vs vi vd nm ch) c = Some c" if c: "c \<in> set ch" for c
    proof -
      obtain k where "item_string c = Some k" using names c by auto
      then show ?thesis using find_named [OF d names c] by (auto simp: same_name_def get_object_item_def get_object_index_def)
    qed
    then show ?thesis using Item cJSON_Object by (subst cJSON_Compare.simps) (auto simp: list_all_iff)
  next
    case cJSON_Array
    then show ?thesis using Item by (subst cJSON_Compare.simps) (auto simp: list_all_iff in_set_zip)
  qed (use Item compare_double_refl in \<open>auto simp: cJSON_Compare.simps [of "Item _ _ _ _ _ _"] split: option.splits\<close>)
qed

section \<open>Properties\<close>

text \<open>
  C22. Whatever text the parser accepts, the tree has the shape that the rest of the code
  relies on: texts and names are C strings, the members of an object have names and the
  elements of an array have none, the integer of a number is its saturated value, leaves have
  no children, the nesting is within the limit, and the tree can be printed.
\<close>

theorem parsed_trees_well_typed:
  assumes "cJSON_Parse t = Some x"
  shows "well_typed x \<and> item_string x = None \<and> nesting x \<le> CJSON_NESTING_LIMIT \<and>
    (\<exists>u. cJSON_PrintUnformatted x = Some u) \<and> (\<exists>u. cJSON_Print x = Some u)"
  using assms parse_value_typed well_typed_printed(1)
  by (fastforce simp: cJSON_Parse_value cJSON_PrintUnformatted_def cJSON_Print_def)

text \<open>
  C39. A copy of a tree is the tree, and it compares equal to it, with or without regard to
  case, when the numbers are finite and no two members of an object have the same name for the
  comparison.
\<close>

theorem copies_compare_equal:
  assumes "well_typed x" and "nesting x \<le> CJSON_CIRCULAR_LIMIT" and "comparable case_sensitive x"
  shows "\<exists>y. cJSON_Duplicate x True = Some y \<and> y = x \<and> cJSON_Compare x y case_sensitive"
  using duplicate_same [of x 0] compare_refl assms by (simp add: cJSON_Duplicate_def)

text \<open>
  C40. The formatted text without its white space is the unformatted text, for every tree of
  null, booleans, 32-bit integers, strings, arrays and objects in which no string ends with a
  backslash.
\<close>

theorem minified_print:
  assumes "canonical x" and "minifiable x"
  shows "\<exists>t. cJSON_Print x = Some t \<and> cJSON_PrintUnformatted x = Some (cJSON_Minify t)"
proof -
  obtain u where "print_value False 0 x = Some u" using print_canonical(1) [OF assms(1)] by blast
  moreover obtain t where "print_value True 0 x = Some t" using canonical_printed(1) [OF assms(1)] by blast
  ultimately show ?thesis
    using minify_print_value(1) [OF _ _ assms, of True 0 t 0] by (fastforce simp: cJSON_Print_def cJSON_PrintUnformatted_def dest: spec [of _ "[]"])
qed

end
