(* ===== verification/CJsonBuffer.thy ===== *)
theory CJsonBuffer
  imports CJsonCopy
begin

text \<open>
  The printer of cJSON as it works on memory: every piece of text is written behind the offset
  into a buffer that grows by reallocation or, for \<^verbatim>\<open>cJSON_PrintPreallocated\<close>, has a fixed size.
  A write outside the buffer, or the search for a terminator that is not there, has no result;
  it is shown that this does not happen and that the text is the one of \<open>print_value\<close>.
\<close>

section \<open>The buffer\<close>

text \<open>\<open>buffer\<close> is the memory itself; \<open>junk\<close> is what new memory contains.\<close>

record printbuffer =
  buffer :: string
  pb_offset :: nat
  pb_depth :: nat
  noalloc :: bool
  pb_format :: bool
  junk :: char

definition pb_length :: "printbuffer \<Rightarrow> nat" where
  "pb_length p = length (buffer p)"

text \<open>The new size when \<open>needed\<close> bytes do not fit.\<close>

definition new_size :: "nat \<Rightarrow> nat option" where
  "new_size needed =
     (if nat INT_MAX div 2 < needed then (if needed \<le> nat INT_MAX then Some (nat INT_MAX) else None)
      else Some (needed * 2))"

definition ensure :: "nat \<Rightarrow> printbuffer \<Rightarrow> printbuffer option" where
  "ensure needed p =
     (if 0 < pb_length p \<and> pb_length p \<le> pb_offset p then None
      else if nat INT_MAX < needed then None
      else
        (let needed = needed + pb_offset p + 1
         in if needed \<le> pb_length p then Some p
            else if noalloc p then None
            else map_option (\<lambda>n. p\<lparr>buffer := buffer p @ replicate (n - pb_length p) (junk p)\<rparr>) (new_size needed)))"

definition store :: "string \<Rightarrow> printbuffer \<Rightarrow> printbuffer option" where
  "store t p =
     (if pb_offset p + length t \<le> pb_length p
      then Some (p\<lparr>buffer := take (pb_offset p) (buffer p) @ t @ drop (pb_offset p + length t) (buffer p)\<rparr>)
      else None)"

text \<open>Space for \<open>needed\<close> bytes, the bytes \<open>t\<close> at the offset, and the offset moved by \<open>n\<close>.\<close>

definition emit :: "nat \<Rightarrow> string \<Rightarrow> nat \<Rightarrow> printbuffer \<Rightarrow> (bool \<times> printbuffer) option" where
  "emit needed t n p =
     (case ensure needed p of
        None \<Rightarrow> Some (False, p)
      | Some p \<Rightarrow> map_option (\<lambda>p. (True, p\<lparr>pb_offset := pb_offset p + n\<rparr>)) (store t p))"

definition update_offset :: "printbuffer \<Rightarrow> printbuffer option" where
  "update_offset p =
     (let rest = drop (pb_offset p) (buffer p)
      in if CHR 0x00 \<in> set rest
         then Some (p\<lparr>pb_offset := pb_offset p + length (takeWhile (\<lambda>c. c \<noteq> CHR 0x00) rest)\<rparr>)
         else None)"

text \<open>Go on unless the call has failed.\<close>

definition if_ok :: "(bool \<times> printbuffer) option \<Rightarrow> (printbuffer \<Rightarrow> (bool \<times> printbuffer) option) \<Rightarrow> (bool \<times> printbuffer) option" where
  "if_ok m f = (case m of None \<Rightarrow> None | Some (ok, p) \<Rightarrow> if ok then f p else Some (False, p))"

definition updated :: "printbuffer \<Rightarrow> (bool \<times> printbuffer) option" where
  "updated p = map_option (Pair True) (update_offset p)"

section \<open>Printing\<close>

definition buffer_number :: "cJSON \<Rightarrow> printbuffer \<Rightarrow> (bool \<times> printbuffer) option" where
  "buffer_number item p =
     (let t = print_number item
      in if 25 < length t then Some (False, p) else emit (length t + 1) (t @ [CHR 0x00]) (length t) p)"

definition buffer_string_ptr :: "string option \<Rightarrow> printbuffer \<Rightarrow> (bool \<times> printbuffer) option" where
  "buffer_string_ptr input p = (let t = print_string_ptr input in emit (length t + 1) (t @ [CHR 0x00]) 0 p)"

text \<open>print\_value, and the loops of print\_array and print\_object.\<close>

fun buffer_value :: "cJSON \<Rightarrow> printbuffer \<Rightarrow> (bool \<times> printbuffer) option"
and buffer_elements :: "cJSON list \<Rightarrow> printbuffer \<Rightarrow> (bool \<times> printbuffer) option"
and buffer_members :: "cJSON list \<Rightarrow> printbuffer \<Rightarrow> (bool \<times> printbuffer) option" where
  "buffer_value (Item t vs vi vd nm ch) p =
     (case t of
        cJSON_NULL \<Rightarrow> emit 5 (''null'' @ [CHR 0x00]) 0 p
      | cJSON_False \<Rightarrow> emit 6 (''false'' @ [CHR 0x00]) 0 p
      | cJSON_True \<Rightarrow> emit 5 (''true'' @ [CHR 0x00]) 0 p
      | cJSON_Number \<Rightarrow> buffer_number (Item t vs vi vd nm ch) p
      | cJSON_Raw \<Rightarrow>
          (case vs of None \<Rightarrow> Some (False, p) | Some s \<Rightarrow> emit (length s + 1) (s @ [CHR 0x00]) 0 p)
      | cJSON_String \<Rightarrow> buffer_string_ptr vs p
      | cJSON_Array \<Rightarrow>
          if_ok (emit 1 ''['' 1 p) (\<lambda>p.
          if_ok (buffer_elements ch (p\<lparr>pb_depth := pb_depth p + 1\<rparr>)) (\<lambda>p.
          if_ok (emit 2 ('']'' @ [CHR 0x00]) 0 p) (\<lambda>p. Some (True, p\<lparr>pb_depth := pb_depth p - 1\<rparr>))))
      | cJSON_Object \<Rightarrow>
          (let len = (if pb_format p then 2 else 1)
           in if_ok (emit (len + 1) (if pb_format p then ''{\<newline>'' else ''{'') len p) (\<lambda>p.
              if_ok (buffer_members ch (p\<lparr>pb_depth := pb_depth p + 1\<rparr>)) (\<lambda>p.
              if_ok (emit (if pb_format p then pb_depth p + 1 else 2)
                       ((if pb_format p then replicate (pb_depth p - 1) (CHR 0x09) else []) @ ''}'' @ [CHR 0x00]) 0 p)
                (\<lambda>p. Some (True, p\<lparr>pb_depth := pb_depth p - 1\<rparr>)))))
      | cJSON_Invalid \<Rightarrow> Some (False, p))"
| "buffer_elements [] p = Some (True, p)"
| "buffer_elements (x # xs) p =
     if_ok (buffer_value x p) (\<lambda>p. if_ok (updated p) (\<lambda>p.
     if xs = [] then Some (True, p)
     else
       (let len = (if pb_format p then 2 else 1)
        in if_ok (emit (len + 1) ((if pb_format p then '', '' else '','') @ [CHR 0x00]) len p) (buffer_elements xs))))"
| "buffer_members [] p = Some (True, p)"
| "buffer_members (x # xs) p =
     if_ok (if pb_format p then emit (pb_depth p) (replicate (pb_depth p) (CHR 0x09)) (pb_depth p) p else Some (True, p)) (\<lambda>p.
     if_ok (buffer_string_ptr (item_string x) p) (\<lambda>p. if_ok (updated p) (\<lambda>p.
     let len = (if pb_format p then 2 else 1)
     in if_ok (emit len (if pb_format p then [CHR '':'', CHR 0x09] else '':'') len p) (\<lambda>p.
        if_ok (buffer_value x p) (\<lambda>p. if_ok (updated p) (\<lambda>p.
        let t = (if xs = [] then [] else '','') @ (if pb_format p then ''\<newline>'' else [])
        in if_ok (emit (length t + 1) (t @ [CHR 0x00]) (length t) p) (buffer_members xs)))))))"

definition cJSON_PrintPreallocated :: "cJSON \<Rightarrow> string \<Rightarrow> bool \<Rightarrow> (bool \<times> string) option" where
  "cJSON_PrintPreallocated item memory format =
     map_option (\<lambda>(ok, p). (ok, buffer p))
       (buffer_value item \<lparr>buffer = memory, pb_offset = 0, pb_depth = 0, noalloc = True, pb_format = format, junk = CHR 0x00\<rparr>)"

text \<open>The text in the buffer that is returned, or a null pointer.\<close>

definition cJSON_PrintBuffered :: "cJSON \<Rightarrow> string \<Rightarrow> bool \<Rightarrow> char \<Rightarrow> string option option" where
  "cJSON_PrintBuffered item memory format new_memory =
     map_option (\<lambda>(ok, p). if ok then Some (c_string (buffer p)) else None)
       (buffer_value item \<lparr>buffer = memory, pb_offset = 0, pb_depth = 0, noalloc = False, pb_format = format, junk = new_memory\<rparr>)"

text \<open>The function behind cJSON\_Print and cJSON\_PrintUnformatted; \<open>memory\<close> are its first 256 bytes.\<close>

definition print_buffer :: "cJSON \<Rightarrow> string \<Rightarrow> bool \<Rightarrow> char \<Rightarrow> string option option" where
  "print_buffer item memory format new_memory =
     Option.bind
       (buffer_value item \<lparr>buffer = memory, pb_offset = 0, pb_depth = 0, noalloc = False, pb_format = format, junk = new_memory\<rparr>)
       (\<lambda>(ok, p). if \<not> ok then Some None else map_option (\<lambda>p. Some (take (pb_offset p) (buffer p))) (update_offset p))"

section \<open>Specifications\<close>

text \<open>How much the buffer can hold.\<close>

definition room :: "printbuffer \<Rightarrow> nat" where
  "room p = (if noalloc p then pb_length p else nat INT_MAX)"

definition ready :: "printbuffer \<Rightarrow> bool" where
  "ready p \<longleftrightarrow> (pb_offset p < pb_length p \<or> pb_length p = 0 \<and> pb_offset p = 0) \<and> pb_length p \<le> nat INT_MAX"

text \<open>The bytes \<open>t\<close> are behind what was there, and the offset has moved by \<open>n\<close>.\<close>

definition wrote :: "printbuffer \<Rightarrow> string \<Rightarrow> nat \<Rightarrow> printbuffer \<Rightarrow> bool" where
  "wrote p t n p' \<longleftrightarrow>
     ready p' \<and> pb_offset p' = pb_offset p + n \<and> noalloc p' = noalloc p \<and> room p' = room p \<and>
     pb_format p' = pb_format p \<and> pb_depth p' = pb_depth p \<and>
     pb_offset p + length t \<le> pb_length p' \<and>
     take (pb_offset p + length t) (buffer p') = take (pb_offset p) (buffer p) @ t"

definition wrote_value :: "printbuffer \<Rightarrow> string \<Rightarrow> printbuffer \<Rightarrow> bool" where
  "wrote_value p t p' \<longleftrightarrow> (\<exists>n \<le> length t. wrote p (t @ [CHR 0x00]) n p')"

text \<open>A call that succeeds exactly when the room is at least \<open>r\<close>.\<close>

definition outcome :: "nat \<Rightarrow> nat \<Rightarrow> (printbuffer \<Rightarrow> bool) \<Rightarrow> (bool \<times> printbuffer) option \<Rightarrow> bool" where
  "outcome c r R m \<longleftrightarrow> (if r \<le> c then \<exists>p. m = Some (True, p) \<and> R p else \<exists>p. m = Some (False, p))"

section \<open>Lemmas\<close>

lemma if_ok_outcome:
  assumes "outcome c r1 R1 m" and "\<And>p. r1 \<le> c \<Longrightarrow> R1 p \<Longrightarrow> outcome c r2 R2 (f p)" and "r1 \<le> r2"
  shows "outcome c r2 R2 (if_ok m f)"
  using assms by (auto simp: outcome_def if_ok_def split: if_splits)

lemma outcome_cong: "outcome c r R m \<Longrightarrow> (\<And>p. R p \<Longrightarrow> R' p) \<Longrightarrow> r = r' \<Longrightarrow> outcome c r' R' m"
  by (auto simp: outcome_def split: if_splits)

lemma new_size_fits: "new_size k = Some n \<Longrightarrow> k \<le> n \<and> n \<le> nat INT_MAX" "k \<le> nat INT_MAX \<Longrightarrow> \<exists>n. new_size k = Some n"
  by (auto simp: new_size_def INT_MAX_def split: if_splits)

lemma ensure_ok:
  assumes "ready p" and "needed + pb_offset p + 1 \<le> room p"
  shows "\<exists>b. ensure needed p = Some (p\<lparr>buffer := buffer p @ b\<rparr>) \<and> needed + pb_offset p + 1 \<le> length (buffer p @ b) \<and>
           length (buffer p @ b) \<le> nat INT_MAX \<and> (noalloc p \<longrightarrow> b = [])"
proof (cases "needed + pb_offset p + 1 \<le> pb_length p")
  case True
  then show ?thesis using assms by (intro exI [of _ "[]"]) (auto simp: ensure_def ready_def pb_length_def)
next
  case False
  then have alloc: "\<not> noalloc p" using assms(2) by (auto simp: room_def)
  then obtain n where "new_size (needed + pb_offset p + 1) = Some n" "needed + pb_offset p + 1 \<le> n" "n \<le> nat INT_MAX"
    using new_size_fits(1) new_size_fits(2) [of "needed + pb_offset p + 1"] assms(2) by (fastforce simp: room_def)
  then show ?thesis using False alloc assms
    by (intro exI [of _ "replicate (n - pb_length p) (junk p)"]) (auto simp: ensure_def ready_def pb_length_def room_def)
qed

lemma ensure_fails: "room p < needed + pb_offset p + 1 \<Longrightarrow> ready p \<Longrightarrow> ensure needed p = None"
  by (auto simp: ensure_def room_def ready_def new_size_def Let_def)

lemma emit_outcome:
  assumes "ready p" and "length t \<le> needed + 1" and "n \<le> needed"
  shows "outcome (room p) (needed + pb_offset p + 1) (wrote p t n) (emit needed t n p)"
proof (cases "needed + pb_offset p + 1 \<le> room p")
  case True
  obtain b where b: "ensure needed p = Some (p\<lparr>buffer := buffer p @ b\<rparr>)" "needed + pb_offset p + 1 \<le> length (buffer p @ b)"
      "length (buffer p @ b) \<le> nat INT_MAX" "noalloc p \<longrightarrow> b = []"
    using ensure_ok [OF assms(1) True] by blast
  have "pb_offset p \<le> length (buffer p)" using assms(1) by (auto simp: ready_def pb_length_def)
  then show ?thesis using True b assms
    by (auto simp: outcome_def emit_def store_def pb_length_def wrote_def ready_def room_def)
next
  case False
  then show ?thesis using ensure_fails assms(1) by (auto simp: outcome_def emit_def)
qed

lemma wrote_trans:
  assumes "wrote p t (length t) p1" and "wrote p1 u n p2"
  shows "wrote p (t @ u) (length t + n) p2"
proof -
  have "take (pb_offset p1) (buffer p1) = take (pb_offset p) (buffer p) @ t"
    using assms(1) by (simp add: wrote_def)
  then show ?thesis using assms by (auto simp: wrote_def add.assoc)
qed

lemma wrote_depth: "wrote (p\<lparr>pb_depth := d\<rparr>) t n p' \<longleftrightarrow> wrote p t n (p'\<lparr>pb_depth := pb_depth p\<rparr>) \<and> pb_depth p' = d"
  by (auto simp: wrote_def ready_def room_def pb_length_def)

lemma updated_wrote:
  assumes "wrote_value p t p'" and "c_text t"
  shows "\<exists>p''. updated p' = Some (True, p'') \<and> wrote p t (length t) p''"
proof -
  obtain n where n: "n \<le> length t" "wrote p (t @ [CHR 0x00]) n p'"
    using assms(1) by (auto simp: wrote_value_def)
  define a z where "a = take (pb_offset p) (buffer p)" and "z = drop (pb_offset p + length t + 1) (buffer p')"
  have eq: "take (pb_offset p + length t + 1) (buffer p') = a @ t @ [CHR 0x00]"
    and le: "pb_offset p + length t + 1 \<le> length (buffer p')" using n(2) by (simp_all add: wrote_def a_def pb_length_def)
  have b: "buffer p' = a @ t @ CHR 0x00 # z"
    using append_take_drop_id [of "pb_offset p + length t + 1" "buffer p'", symmetric] unfolding eq z_def by simp
  have off: "pb_offset p' = pb_offset p + n" using n(2) by (simp add: wrote_def)
  have len: "length a = pb_offset p" using arg_cong [OF eq, of length] le by simp
  have "takeWhile (\<lambda>c. c \<noteq> CHR 0x00) (drop n t @ CHR 0x00 # z) = drop n t"
    using assms(2) by (auto simp: c_text_def takeWhile_append dest: in_set_dropD)
  then have "updated p' = Some (True, p'\<lparr>pb_offset := pb_offset p + length t\<rparr>)"
    using n(1) off by (simp add: updated_def update_offset_def b len [symmetric])
  moreover have "wrote p t (length t) (p'\<lparr>pb_offset := pb_offset p + length t\<rparr>)"
    using n(2) le by (simp add: wrote_def ready_def room_def pb_length_def a_def [symmetric]) (auto simp: b len pb_length_def)
  ultimately show ?thesis by blast
qed

lemma emit_then:
  assumes "ready p" and "c = room p" and "length t \<le> needed + 1" and "n \<le> needed" and "needed + pb_offset p + 1 \<le> r"
    and "\<And>p'. needed + pb_offset p + 1 \<le> c \<Longrightarrow> wrote p t n p' \<Longrightarrow> outcome c r R (f p')"
  shows "outcome c r R (if_ok (emit needed t n p) f)"
  using if_ok_outcome [OF emit_outcome [OF assms(1,3,4)] _ assms(5)] assms(2,6) by blast

lemma wrote_self: "ready p \<Longrightarrow> wrote p [] 0 p"
  by (auto simp: wrote_def ready_def)

lemma wroteD: "wrote p t n p' \<Longrightarrow> ready p' \<and> room p' = room p \<and> pb_offset p' = pb_offset p + n \<and>
    pb_format p' = pb_format p \<and> pb_depth p' = pb_depth p"
  by (simp add: wrote_def)

lemma nat_to_string_length: "n < 10 ^ Suc k \<Longrightarrow> length (nat_to_string n) \<le> Suc k"
proof (induction k arbitrary: n)
  case (Suc k)
  then have "n div 10 < 10 ^ Suc k" by (simp add: less_mult_imp_div_less)
  then show ?case using Suc.IH by (subst nat_to_string.simps) simp
qed (simp add: nat_to_string.simps)

lemma int32_short: "is_int32 k \<Longrightarrow> length (to_string k) \<le> 25"
proof -
  assume "is_int32 k"
  then have "nat k < 10 ^ Suc 9" "nat (- k) < 10 ^ Suc 9" by (auto simp: is_int32_def)
  from this [THEN nat_to_string_length] show ?thesis by (simp add: to_string_def)
qed

lemma leaf_outcome:
  assumes "ready p" and "n \<le> length t"
  shows "outcome (room p) (pb_offset p + length t + 2) (wrote_value p t) (emit (length t + 1) (t @ [CHR 0x00]) n p)"
proof (rule outcome_cong [OF emit_outcome [OF assms(1), of "t @ [CHR 0x00]" "length t + 1" n]])
  fix p' assume "wrote p (t @ [CHR 0x00]) n p'"
  then show "wrote_value p t p'" using assms(2) by (auto simp: wrote_value_def)
qed (use assms(2) in auto)

lemma done_outcome: "R p \<Longrightarrow> r \<le> c \<Longrightarrow> outcome c r R (Some (True, p))"
  by (simp add: outcome_def)

lemma wrote_prefix: "wrote p (t @ u) n p' \<Longrightarrow> wrote p t n p'"
proof -
  assume w: "wrote p (t @ u) n p'"
  then have eq: "take (pb_offset p + length t + length u) (buffer p') = take (pb_offset p) (buffer p) @ t @ u"
    and le: "pb_offset p + length t + length u \<le> length (buffer p')" by (simp_all add: wrote_def pb_length_def add.assoc)
  have "length (take (pb_offset p) (buffer p)) = pb_offset p" using arg_cong [OF eq, of length] le by simp
  then have "take (pb_offset p + length t) (buffer p') = take (pb_offset p) (buffer p) @ t"
    using arg_cong [OF eq, of "take (pb_offset p + length t)"] by simp
  with w show ?thesis by (simp add: wrote_def)
qed

text \<open>One more piece behind the text so far: written at once, or by a call that leaves a terminator.\<close>

lemma step_emit:
  assumes "wrote p0 t (length t) p" and "c = room p0" and "length (u @ z) \<le> needed + 1" and "length u \<le> needed"
    and "needed + pb_offset p0 + length t + 1 \<le> r"
    and "\<And>p'. needed + pb_offset p0 + length t + 1 \<le> c \<Longrightarrow> wrote p0 (t @ u) (length (t @ u)) p' \<Longrightarrow> outcome c r R (f p')"
  shows "outcome c r R (if_ok (emit needed (u @ z) (length u) p) f)"
proof (rule emit_then)
  fix p' assume "needed + pb_offset p + 1 \<le> c" and "wrote p (u @ z) (length u) p'"
  then have "wrote p0 (t @ u) (length (t @ u)) p'" using wrote_trans [OF assms(1) wrote_prefix] by simp
  then show "outcome c r R (f p')" using assms(6) \<open>needed + pb_offset p + 1 \<le> c\<close> wroteD [OF assms(1)] by simp
qed (use assms(2-5) wroteD [OF assms(1)] in auto)

lemma step_value:
  assumes "wrote p0 t (length t) p" and "outcome (room p) (pb_offset p + length u + 2) (wrote_value p u) m" and "c_text u"
    and "c = room p0" and "pb_offset p0 + length t + length u + 2 \<le> r"
    and "\<And>p'. pb_offset p0 + length t + length u + 2 \<le> c \<Longrightarrow> wrote p0 (t @ u) (length (t @ u)) p' \<Longrightarrow> outcome c r R (f p')"
  shows "outcome c r R (if_ok m (\<lambda>p. if_ok (updated p) f))"
proof (rule if_ok_outcome [OF assms(2) [unfolded wroteD [OF assms(1), THEN conjunct2, THEN conjunct1] assms(4) [symmetric]]])
  fix p1 assume fits: "pb_offset p + length u + 2 \<le> c" and "wrote_value p u p1"
  with updated_wrote [OF _ assms(3)] obtain p2 where p2: "updated p1 = Some (True, p2)" "wrote p u (length u) p2" by blast
  then have "wrote p0 (t @ u) (length (t @ u)) p2" using wrote_trans [OF assms(1)] by simp
  then show "outcome c r R (if_ok (updated p1) f)" using p2(1) fits assms(6) wroteD [OF assms(1)] by (simp add: if_ok_def)
qed (use assms(5) wroteD [OF assms(1)] in auto)

lemma step_rest:
  assumes "wrote p0 t (length t) p" and "outcome (room p) r (wrote p u (length u)) m"
    and "c = room p0" and "v = t @ u"
  shows "outcome c r (wrote p0 v (length v)) m"
  using outcome_cong [OF assms(2), of "wrote p0 v (length v)" r] wrote_trans [OF assms(1), of u "length u"] wroteD [OF assms(1)] assms(3,4)
  by simp

text \<open>An array or an object: what opens it, the loop one level deeper, and what closes it.\<close>

lemma container_outcome:
  assumes "ready p" and "t = left @ b @ right" and "length left \<le> n" and "n \<le> length t + 1"
    and "\<And>q. ready q \<Longrightarrow> room q = room p \<Longrightarrow> pb_format q = pb_format p \<Longrightarrow> pb_depth q = pb_depth p + 1 \<Longrightarrow>
      pb_offset q = pb_offset p + length left \<Longrightarrow> outcome (room p) r (wrote q b (length b)) (inner q)"
    and "r \<le> pb_offset p + length t + 2"
    and "\<And>q. pb_format q = pb_format p \<Longrightarrow> pb_depth q = pb_depth p + 1 \<Longrightarrow> N q = length right + 1 \<and> C q = right"
  shows "outcome (room p) (pb_offset p + length t + 2) (wrote_value p t)
    (if_ok (emit n left (length left) p) (\<lambda>p. if_ok (inner (p\<lparr>pb_depth := pb_depth p + 1\<rparr>)) (\<lambda>p.
       if_ok (emit (N p) (C p @ [CHR 0x00]) 0 p) (\<lambda>p. Some (True, p\<lparr>pb_depth := pb_depth p - 1\<rparr>)))))"
proof (rule emit_then [OF assms(1) refl])
  fix p1 assume p1: "wrote p left (length left) p1"
  let ?q = "p1\<lparr>pb_depth := pb_depth p1 + 1\<rparr>"
  have q: "ready ?q" "room ?q = room p" "pb_format ?q = pb_format p" "pb_depth ?q = pb_depth p + 1"
      "pb_offset ?q = pb_offset p + length left"
    using wroteD [OF p1] by (auto simp: ready_def room_def pb_length_def)
  show "outcome (room p) (pb_offset p + length t + 2) (wrote_value p t) (if_ok (inner ?q) (\<lambda>p.
      if_ok (emit (N p) (C p @ [CHR 0x00]) 0 p) (\<lambda>p. Some (True, p\<lparr>pb_depth := pb_depth p - 1\<rparr>))))"
  proof (rule if_ok_outcome [OF assms(5) [OF q] _ assms(6)])
    fix p2 assume p2: "wrote ?q b (length b) p2"
    have closes: "N p2 = length right + 1" "C p2 = right" using wroteD [OF p2] q(3,4) assms(7) by auto
    show "outcome (room p) (pb_offset p + length t + 2) (wrote_value p t)
       (if_ok (emit (N p2) (C p2 @ [CHR 0x00]) 0 p2) (\<lambda>p. Some (True, p\<lparr>pb_depth := pb_depth p - 1\<rparr>)))"
    proof (rule if_ok_outcome)
      have "ready p2" "room p2 = room p" "pb_offset p2 = pb_offset p + length left + length b"
        using wroteD [OF p2] q(2,5) by auto
      then show "outcome (room p) (pb_offset p + length t + 2) (wrote p2 (right @ [CHR 0x00]) 0) (emit (N p2) (C p2 @ [CHR 0x00]) 0 p2)"
        using emit_outcome [of p2 "right @ [CHR 0x00]" "length right + 1" 0] by (simp add: closes assms(2) algebra_simps)
      fix p3 assume fits: "pb_offset p + length t + 2 \<le> room p" and p3: "wrote p2 (right @ [CHR 0x00]) 0 p3"
      have "wrote p1 (b @ right @ [CHR 0x00]) (length b) (p3\<lparr>pb_depth := pb_depth p1\<rparr>)" and d: "pb_depth p3 = pb_depth p1 + 1"
        using wrote_trans [OF p2 p3] by (simp_all add: wrote_depth)
      from wrote_trans [OF p1 this(1)] have "wrote p (t @ [CHR 0x00]) (length left + length b) (p3\<lparr>pb_depth := pb_depth p3 - 1\<rparr>)"
        by (simp add: d assms(2))
      then show "outcome (room p) (pb_offset p + length t + 2) (wrote_value p t) (Some (True, p3\<lparr>pb_depth := pb_depth p3 - 1\<rparr>))"
        using fits by (auto simp: outcome_def wrote_value_def assms(2) intro!: exI [of _ "length left + length b"])
    qed simp
  qed
qed (use assms(3,4) in auto)

text \<open>The cases of the printer; \<open>printed\<close> is what is known of the values inside.\<close>

lemma array_outcome:
  assumes "ready p" and "t = ''['' @ b @ '']''"
    and "\<And>q. ready q \<Longrightarrow> pb_format q = pb_format p \<Longrightarrow> pb_depth q = pb_depth p + 1 \<Longrightarrow>
      outcome (room q) (if ch = [] then 0 else pb_offset q + length b + 2) (wrote q b (length b)) (buffer_elements ch q)"
  shows "outcome (room p) (pb_offset p + length t + 2) (wrote_value p t) (buffer_value (Item cJSON_Array vs vi vd nm ch) p)"
proof -
  have "outcome (room p) (pb_offset p + length t + 2) (wrote_value p t)
      (if_ok (emit 1 ''['' (length ''['') p) (\<lambda>p. if_ok (buffer_elements ch (p\<lparr>pb_depth := pb_depth p + 1\<rparr>)) (\<lambda>p.
        if_ok (emit 2 ('']'' @ [CHR 0x00]) 0 p) (\<lambda>p. Some (True, p\<lparr>pb_depth := pb_depth p - 1\<rparr>)))))"
  proof (rule container_outcome [OF assms(1,2), where r = "if ch = [] then 0 else pb_offset p + 1 + length b + 2"])
    fix q assume "ready q" "room q = room p" "pb_format q = pb_format p" "pb_depth q = pb_depth p + 1" "pb_offset q = pb_offset p + length ''[''"
    then show "outcome (room p) (if ch = [] then 0 else pb_offset p + 1 + length b + 2) (wrote q b (length b)) (buffer_elements ch q)"
      using assms(3) [of q] by (auto split: if_splits)
  qed (auto simp: assms(2))
  then show ?thesis by simp
qed

lemma object_outcome:
  assumes "ready p" and "left = (if pb_format p then ''{\<newline>'' else ''{'')"
    and "right = (if pb_format p then replicate (pb_depth p) (CHR 0x09) else []) @ ''}''" and "t = left @ b @ right"
    and "\<And>q. ready q \<Longrightarrow> pb_format q = pb_format p \<Longrightarrow> pb_depth q = pb_depth p + 1 \<Longrightarrow>
      outcome (room q) (if ch = [] then 0 else pb_offset q + length b + 2) (wrote q b (length b)) (buffer_members ch q)"
  shows "outcome (room p) (pb_offset p + length t + 2) (wrote_value p t) (buffer_value (Item cJSON_Object vs vi vd nm ch) p)"
proof -
  have "outcome (room p) (pb_offset p + length t + 2) (wrote_value p t)
      (if_ok (emit (length left + 1) left (length left) p) (\<lambda>p. if_ok (buffer_members ch (p\<lparr>pb_depth := pb_depth p + 1\<rparr>)) (\<lambda>p.
        if_ok (emit (if pb_format p then pb_depth p + 1 else 2)
            (((if pb_format p then replicate (pb_depth p - 1) (CHR 0x09) else []) @ ''}'') @ [CHR 0x00]) 0 p)
          (\<lambda>p. Some (True, p\<lparr>pb_depth := pb_depth p - 1\<rparr>)))))"
  proof (rule container_outcome [OF assms(1,4), where r = "if ch = [] then 0 else pb_offset p + length left + length b + 2"])
    fix q assume "ready q" "room q = room p" "pb_format q = pb_format p" "pb_depth q = pb_depth p + 1" "pb_offset q = pb_offset p + length left"
    then show "outcome (room p) (if ch = [] then 0 else pb_offset p + length left + length b + 2) (wrote q b (length b)) (buffer_members ch q)"
      using assms(5) [of q] by (auto split: if_splits)
  qed (auto simp: assms(3,4))
  moreover have "length left = (if pb_format p then 2 else 1)" by (simp add: assms(2))
  ultimately show ?thesis by (simp add: assms(2) Let_def split: if_splits)
qed

lemma element_outcome:
  assumes "ready p" and "sep = (if pb_format p then '', '' else '','')" and "t = b @ (if xs = [] then [] else sep) @ r"
    and "c_text b" and "xs = [] \<longrightarrow> r = []"
    and "outcome (room p) (pb_offset p + length b + 2) (wrote_value p b) (buffer_value x p)"
    and "\<And>q. ready q \<Longrightarrow> pb_format q = pb_format p \<Longrightarrow> pb_depth q = pb_depth p \<Longrightarrow>
      outcome (room q) (if xs = [] then 0 else pb_offset q + length r + 2) (wrote q r (length r)) (buffer_elements xs q)"
  shows "outcome (room p) (pb_offset p + length t + 2) (wrote p t (length t)) (buffer_elements (x # xs) p)"
proof -
  have start: "wrote p [] (length ([] :: string)) p" using wrote_self [OF assms(1)] by simp
  show ?thesis unfolding buffer_elements.simps
  proof (rule step_value [OF start assms(6,4) refl])
    fix p1 assume fits: "pb_offset p + length ([] :: string) + length b + 2 \<le> room p" and "wrote p ([] @ b) (length ([] @ b)) p1"
    then have p1: "wrote p b (length b) p1" by simp
    have "outcome (room p) (pb_offset p + length t + 2) (wrote p t (length t))
        (if_ok (emit (length sep + 1) (sep @ [CHR 0x00]) (length sep) p1) (buffer_elements xs))" if "xs \<noteq> []"
    proof (rule step_emit [OF p1 refl])
      fix p2 assume p2: "wrote p (b @ sep) (length (b @ sep)) p2"
      from step_rest [OF p2 assms(7) refl, of t]
      show "outcome (room p) (pb_offset p + length t + 2) (wrote p t (length t)) (buffer_elements xs p2)"
        using wroteD [OF p2] that assms(3) by (simp add: add.assoc)
    qed (use that assms(3) in auto)
    then show "outcome (room p) (pb_offset p + length t + 2) (wrote p t (length t)) (if xs = [] then Some (True, p1)
        else let len = if pb_format p1 then 2 else 1
             in if_ok (emit (len + 1) ((if pb_format p1 then '', '' else '','') @ [CHR 0x00]) len p1) (buffer_elements xs))"
      using p1 fits assms(2,3,5) wroteD [OF p1] by (auto simp: Let_def eval_nat_numeral intro: done_outcome)
  qed (use assms(3) in auto)
qed

text \<open>A member of an object: from the end of its value on, and then the whole.\<close>

lemma member_end_outcome:
  assumes "wrote p acc (length acc) p1" and "ending = (if xs = [] then [] else '','') @ (if pb_format p then ''\<newline>'' else [])"
    and "t = acc @ ending @ r" and "xs = [] \<longrightarrow> r = []"
    and "\<And>q. ready q \<Longrightarrow> pb_format q = pb_format p \<Longrightarrow> pb_depth q = pb_depth p \<Longrightarrow>
      outcome (room q) (if xs = [] then 0 else pb_offset q + length r + 2) (wrote q r (length r)) (buffer_members xs q)"
  shows "outcome (room p) (pb_offset p + length t + 2) (wrote p t (length t))
    (let e = (if xs = [] then [] else '','') @ (if pb_format p1 then ''\<newline>'' else [])
     in if_ok (emit (length e + 1) (e @ [CHR 0x00]) (length e) p1) (buffer_members xs))"
proof -
  have "outcome (room p) (pb_offset p + length t + 2) (wrote p t (length t))
      (if_ok (emit (length ending + 1) (ending @ [CHR 0x00]) (length ending) p1) (buffer_members xs))"
  proof (rule step_emit [OF assms(1) refl])
    fix p2 assume fits: "length ending + 1 + pb_offset p + length acc + 1 \<le> room p"
      and p2: "wrote p (acc @ ending) (length (acc @ ending)) p2"
    show "outcome (room p) (pb_offset p + length t + 2) (wrote p t (length t)) (buffer_members xs p2)"
    proof (cases "xs = []")
      case True
      then show ?thesis using p2 fits assms(3,4) by (auto simp: add.assoc intro!: done_outcome)
    next
      case False
      with step_rest [OF p2 assms(5) refl, of t] show ?thesis
        using wroteD [OF p2] assms(3) by (simp add: add.assoc)
    qed
  qed (use assms(3) in auto)
  then show ?thesis using wroteD [OF assms(1)] assms(2) by (simp add: Let_def)
qed

lemma member_outcome:
  assumes "ready p" and "tabs = (if pb_format p then replicate (pb_depth p) (CHR 0x09) else [])"
    and "colon = (if pb_format p then [CHR '':'', CHR 0x09] else '':'')"
    and "ending = (if xs = [] then [] else '','') @ (if pb_format p then ''\<newline>'' else [])"
    and "key = print_string_ptr (item_string x)" and "t = tabs @ key @ colon @ b @ ending @ r" and "c_text t" and "xs = [] \<longrightarrow> r = []"
    and val: "\<And>q. ready q \<Longrightarrow> pb_format q = pb_format p \<Longrightarrow> pb_depth q = pb_depth p \<Longrightarrow>
      outcome (room q) (pb_offset q + length b + 2) (wrote_value q b) (buffer_value x q)"
    and rest: "\<And>q. ready q \<Longrightarrow> pb_format q = pb_format p \<Longrightarrow> pb_depth q = pb_depth p \<Longrightarrow>
      outcome (room q) (if xs = [] then 0 else pb_offset q + length r + 2) (wrote q r (length r)) (buffer_members xs q)"
  shows "outcome (room p) (pb_offset p + length t + 2) (wrote p t (length t)) (buffer_members (x # xs) p)"
proof -
  let ?out = "outcome (room p) (pb_offset p + length t + 2) (wrote p t (length t))"
  let ?tail = "\<lambda>p. let e = (if xs = [] then [] else '','') @ (if pb_format p then ''\<newline>'' else [])
     in if_ok (emit (length e + 1) (e @ [CHR 0x00]) (length e) p) (buffer_members xs)"
  let ?member = "\<lambda>p. let len = (if pb_format p then 2 else 1)
     in if_ok (emit len (if pb_format p then [CHR '':'', CHR 0x09] else '':'') len p) (\<lambda>p. if_ok (buffer_value x p) (\<lambda>p. if_ok (updated p) ?tail))"
  have sub: "c_text key" "c_text b" using assms(6,7) by (auto simp: c_text_def)
  have start: "wrote p [] (length ([] :: string)) p" using wrote_self [OF assms(1)] by simp
  have at_end: "?out (?tail p3)" if "wrote p (tabs @ key @ colon @ b) (length (tabs @ key @ colon @ b)) p3" for p3
    using that assms(6) by (intro member_end_outcome [OF that assms(4) _ assms(8) rest]) simp_all
  have at_value: "?out (?member p2)" if p2: "wrote p (tabs @ key) (length (tabs @ key)) p2" for p2
  proof -
    have "?out (if_ok (emit (length colon) (colon @ []) (length colon) p2) (\<lambda>p. if_ok (buffer_value x p) (\<lambda>p. if_ok (updated p) ?tail)))"
    proof (rule step_emit [OF p2 refl])
      fix p3 assume p3: "wrote p ((tabs @ key) @ colon) (length ((tabs @ key) @ colon)) p3"
      show "?out (if_ok (buffer_value x p3) (\<lambda>p. if_ok (updated p) ?tail))"
        using wroteD [OF p3] assms(6) at_end by (intro step_value [OF p3 val sub(2) refl]) simp_all
    qed (use assms(6) in auto)
    then show ?thesis using wroteD [OF p2] assms(3) by (simp add: Let_def eval_nat_numeral split: if_splits)
  qed
  have at_key: "?out (if_ok (buffer_string_ptr (item_string x) p1) (\<lambda>p. if_ok (updated p) ?member))"
    if p1: "wrote p tabs (length tabs) p1" for p1
    using leaf_outcome [of p1 0 key] wroteD [OF p1] assms(5,6) at_value
    by (intro step_value [OF p1 _ sub(1) refl]) (simp_all add: buffer_string_ptr_def Let_def)
  have "?out (if_ok (emit (length tabs) (tabs @ []) (length tabs) p) (\<lambda>p. if_ok (buffer_string_ptr (item_string x) p) (\<lambda>p. if_ok (updated p) ?member)))"
    if "pb_format p" using at_key assms(6) by (intro step_emit [OF start refl]) simp_all
  moreover have "?out (if_ok (buffer_string_ptr (item_string x) p) (\<lambda>p. if_ok (updated p) ?member))" if "\<not> pb_format p"
    using at_key [of p] start that assms(2) by simp
  ultimately show ?thesis unfolding buffer_members.simps by (cases "pb_format p") (simp_all add: assms(2) if_ok_def)
qed

lemma buffer_print:
  "print_value fmt d x = Some t \<Longrightarrow> canonical x \<Longrightarrow> c_text t \<Longrightarrow> ready p \<Longrightarrow> pb_format p = fmt \<Longrightarrow> pb_depth p = d \<Longrightarrow>
     outcome (room p) (pb_offset p + length t + 2) (wrote_value p t) (buffer_value x p)"
  "print_elements fmt d xs = Some t \<Longrightarrow> \<forall>x \<in> set xs. canonical x \<Longrightarrow> c_text t \<Longrightarrow> ready p \<Longrightarrow> pb_format p = fmt \<Longrightarrow> pb_depth p = d \<Longrightarrow>
     outcome (room p) (if xs = [] then 0 else pb_offset p + length t + 2) (wrote p t (length t)) (buffer_elements xs p)"
  "print_members fmt d xs = Some t \<Longrightarrow> \<forall>x \<in> set xs. canonical x \<Longrightarrow> c_text t \<Longrightarrow> ready p \<Longrightarrow> pb_format p = fmt \<Longrightarrow> pb_depth p = d \<Longrightarrow>
     outcome (room p) (if xs = [] then 0 else pb_offset p + length t + 2) (wrote p t (length t)) (buffer_members xs p)"
proof (induction fmt d x and fmt d xs and fmt d xs arbitrary: t p and t p and t p rule: print_value_print_elements_print_members.induct)
  case (1 fmt d ty vs vi vd nm ch)
  show ?case
  proof (cases ty)
    case cJSON_Array
    then obtain b where b: "print_elements fmt (d + 1) ch = Some b" "t = ''['' @ b @ '']''" using 1(3) by auto
    have "\<forall>x \<in> set ch. canonical x" "c_text b" using 1(4,5) cJSON_Array b(2) by (auto simp: list_all_iff c_text_def)
    then show ?thesis using 1(1) [OF cJSON_Array b(1)] array_outcome [OF 1(6) b(2), of ch vs vi vd nm] 1(7,8) cJSON_Array
      by (simp del: buffer_value.simps)
  next
    case cJSON_Object
    then obtain b where b: "print_members fmt (d + 1) ch = Some b"
        "t = (if pb_format p then ''{\<newline>'' else ''{'') @ b @ (if pb_format p then replicate (pb_depth p) (CHR 0x09) else []) @ ''}''"
      using 1(3,7,8) by auto
    have "\<forall>x \<in> set ch. canonical x" "c_text b" using 1(4,5) cJSON_Object b(2) by (auto simp: list_all_iff c_text_def)
    then show ?thesis using 1(2) [OF cJSON_Object b(1)] object_outcome [OF 1(6) refl refl b(2), of ch vs vi vd nm] 1(7,8) cJSON_Object
      by (simp del: buffer_value.simps)
  next
    case cJSON_Number
    then have "t = print_number (Item ty vs vi vd nm ch)" "length t \<le> 25" using 1 int32_short by (auto simp: print_number_def)
    then show ?thesis using cJSON_Number leaf_outcome [OF 1(6), of "length t" t] by (simp add: buffer_number_def Let_def)
  qed (use 1(3,4) leaf_outcome [OF 1(6), of 0 t] in \<open>auto simp: buffer_string_ptr_def eval_nat_numeral\<close>)
next
  case (3 fmt d x xs)
  then obtain b r where b: "print_value fmt d x = Some b" "print_elements fmt d xs = Some r"
      "t = b @ (if xs = [] then [] else if pb_format p then '', '' else '','') @ r" by (auto split: option.splits)
  have "c_text b" "c_text r" "xs = [] \<longrightarrow> r = []" using 3(5) b(2,3) by (auto simp: c_text_def)
  then show ?case using 3 b element_outcome [OF 3(6) refl b(3)] by simp
next
  case (5 fmt d x xs)
  then obtain b r where b: "print_value fmt d x = Some b" "print_members fmt d xs = Some r"
      "t = (if pb_format p then replicate (pb_depth p) (CHR 0x09) else []) @ print_string_ptr (item_string x) @
         (if pb_format p then [CHR '':'', CHR 0x09] else '':'') @ b @
         ((if xs = [] then [] else '','') @ (if pb_format p then ''\<newline>'' else [])) @ r"
    by (auto split: option.splits)
  have "c_text b" "c_text r" "xs = [] \<longrightarrow> r = []" using 5(5) b(2,3) by (auto simp: c_text_def)
  then show ?case using 5 b member_outcome [OF 5(6) refl refl refl refl b(3)] by simp
qed (auto simp: outcome_def wrote_self)

lemma printed_text:
  "print_value fmt d x = Some t \<Longrightarrow> canonical x \<Longrightarrow> c_text t"
  "print_elements fmt d xs = Some t \<Longrightarrow> \<forall>x \<in> set xs. canonical x \<Longrightarrow> c_text t"
  "print_members fmt d xs = Some t \<Longrightarrow> \<forall>x \<in> set xs. canonical x \<and> (case item_string x of None \<Rightarrow> False | Some k \<Rightarrow> c_text k) \<Longrightarrow> c_text t"
proof (induction fmt d x and fmt d xs and fmt d xs arbitrary: t and t and t rule: print_value_print_elements_print_members.induct)
  case (1 fmt d ty vs vi vd nm ch)
  then show ?case using print_string_text
    by (cases ty) (auto simp: list_all_iff c_text_def print_number_def to_string_text split: option.splits if_splits)
next
  case (5 fmt d x xs)
  then show ?case using print_string_text by (fastforce simp: c_text_def split: option.splits if_splits)
qed (auto simp: c_text_def split: option.splits if_splits)

text \<open>The text at the start of the buffer.\<close>

lemma wrote_start:
  assumes "wrote_value p t p'" and "pb_offset p = 0" and "c_text t"
  shows "take (length t + 1) (buffer p') = t @ [CHR 0x00]" and "c_string (buffer p') = t"
    and "\<exists>p''. update_offset p' = Some p'' \<and> take (pb_offset p'') (buffer p'') = t"
    and "noalloc p \<Longrightarrow> length (buffer p') = length (buffer p)"
proof -
  show start: "take (length t + 1) (buffer p') = t @ [CHR 0x00]" and "noalloc p \<Longrightarrow> length (buffer p') = length (buffer p)"
    using assms(1,2) by (auto simp: wrote_value_def wrote_def room_def pb_length_def)
  obtain z where "buffer p' = t @ CHR 0x00 # z"
    using append_take_drop_id [of "length t + 1" "buffer p'", symmetric] unfolding start by auto
  then show "c_string (buffer p') = t" using assms(3) by (simp add: c_string_def c_text_def takeWhile_append)
  from updated_wrote [OF assms(1,3)] show "\<exists>p''. update_offset p' = Some p'' \<and> take (pb_offset p'') (buffer p'') = t"
    using assms(2) by (auto simp: updated_def wrote_def)
qed

section \<open>Properties\<close>


end
