(* ===== verification/ClientWitnesses.thy ===== *)
theory ClientWitnesses
  imports ClientRun CJsonReference CJsonBuffer
begin

text \<open>
  The properties of the client and of cJSON at concrete inputs: a request that updates the
  stock, a login, an alert for the dashboard and a thread that sends keepalives.
\<close>

section \<open>A sample client\<close>

text \<open>A connected client that has logged in as alice; all calls of the kernel succeed.\<close>

definition sample_client :: client where
  "sample_client =
     \<lparr>client_id = ''alice'', tcp_socket = 3, udp_socket = 4, ipc_queue = 5, exit_requested = False, signal_exit = False,
      log_open = True, peer_addr = Some 1, log_lines = [], out_text = [], err_text = [], tcp_sent = [], udp_sent = [],
      mq_messages = [], threads = [], dashboards = 0, closed_fds = [], mq_unlinked = False, wall_clock = 0,
      send_faults = [], udp_send_answers = [], recv_answers = [], mq_answers = [], thread_faults = [], fork_faults = []\<rparr>"

text \<open>The line of a user, and two messages of the server.\<close>

definition sample_line :: string where
  "sample_line = ''update_stock food meat 12''"

definition sample_request :: cJSON where
  "sample_request = json_object_of None [text_member ''command'' ''update_stock'',
     json_object_of (Some ''payload'') [text_member ''category'' ''food'', text_member ''item'' ''meat'', number_member ''quantity'' 12]]"

definition members_text :: "(string \<times> string) list \<Rightarrow> string" where
  "members_text ms = the (cJSON_PrintUnformatted (json_object_of None (map (\<lambda>(k, v). text_member k v) ms)))"

definition sample_login :: string where
  "sample_login = members_text [(''status'', ''success''), (''message'', ''Login successful''), (''client_id'', ''bob'')]"

definition sample_alert :: string where
  "sample_alert = members_text [(''category'', ''alert''), (''message'', ''low'')]"

text \<open>A heap with an array of two items, the first of which has a child, and an item outside.\<close>

definition sample_heap :: heap where
  "sample_heap = (\<lambda>_. \<lparr>next_item = None, prev_item = None, child_item = None, is_reference = False\<rparr>)
     (0 := \<lparr>next_item = None, prev_item = None, child_item = Some 1, is_reference = False\<rparr>,
      1 := \<lparr>next_item = Some 2, prev_item = Some 2, child_item = Some 4, is_reference = False\<rparr>,
      2 := \<lparr>next_item = None, prev_item = Some 1, child_item = None, is_reference = False\<rparr>,
      4 := \<lparr>next_item = None, prev_item = Some 4, child_item = None, is_reference = False\<rparr>)"

definition sample_trees :: "tree list" where
  "sample_trees = [Tree 1 [Tree 4 []], Tree 2 []]"

text \<open>A client whose user ends the session at once.\<close>

definition client_env :: main_env where
  "client_env =
     \<lparr>env_client_port = None, env_is_docker = None, log_opened = True,
      tcp_addresses = Some [\<lparr>a_socket = 3, a_connect = True, a_addr = 1\<rparr>],
      udp_addresses = Some [\<lparr>a_socket = 4, a_connect = True, a_addr = 1\<rparr>], mq_opened = 5,
      user_inputs = [Line True ''end\<newline>'']\<rparr>"

definition sample_answers :: "string option list" where
  "sample_answers = [Some ''Welcome'', Some ''bye'']"

section \<open>Evaluation\<close>

lemma sample_client_fields [simp]:
  "client_id sample_client = ''alice''" "udp_socket sample_client = 4" "ipc_queue sample_client = 5" "\<not> exit_requested sample_client"
  "udp_sent sample_client = []" "mq_messages sample_client = []" "udp_send_answers sample_client = []" "mq_answers sample_client = []"
  by (simp_all add: sample_client_def)

lemma sample_words: "blank_words sample_line = [''update_stock'', ''food'', ''meat'', ''12'']"
  by (simp add: sample_line_def blank_words.simps strtok_def is_blank_def)

lemma sample_quantity: "strtol ''12'' = Some (12, [])"
  by code_simp

lemma sample_login_parsed:
  "cJSON_Parse sample_login = Some (json_object_of None
     [text_member ''status'' ''success'', text_member ''message'' ''Login successful'', text_member ''client_id'' ''bob''])"
  by code_simp

lemma sample_alert_parsed:
  "cJSON_Parse sample_alert = Some (json_object_of None [text_member ''category'' ''alert'', text_member ''message'' ''low''])"
  by code_simp

lemma sample_logged_in: "logged_in_as sample_login = Some ''bob''"
  unfolding logged_in_as_def sample_login_parsed by code_simp

lemma sample_alert_priority: "ipc_priority sample_alert = Some 2"
  unfolding ipc_priority_def sample_alert_parsed by code_simp

lemma sample_children: "children_are sample_heap 0 [1, 2]"
  by (simp add: children_are_def sample_heap_def)

lemma sample_trees_in_heap: "in_heap sample_heap (Tree 0 sample_trees)" "in_heap sample_heap (Tree 3 [])"
  by (simp_all add: children_are_def sample_heap_def sample_trees_def)

lemma sample_end: "process_user_input (take (client_BUFFER_SIZE - 1) ''end\<newline>'') = (INPUT_ACTION_QUIT, ''end'')"
  by code_simp

lemma sample_bye: "cJSON_Parse ''bye'' = None" "strtok (take (client_BUFFER_SIZE - 1) ''end'') = Some (''end'', [])"
  by code_simp+

lemma sample_session:
  assumes "\<not> signal_exit s" and "send_faults s = []" and "recv_answers s = [Some ''bye'']"
  shows "\<exists>s'. communication_loop None [Line True ''end\<newline>''] s = Some (0, s')"
proof -
  have "\<exists>s'. print_readable_response ''bye'' ''end'' s1 = Some (False, s')" for s1
    unfolding print_readable_response_def sample_bye by simp
  moreover have "take (client_BUFFER_SIZE - 1) ''bye'' = ''bye''" "c_string ''bye'' = ''bye''"
    by (simp_all add: client_BUFFER_SIZE_def c_string_def)
  ultimately have "\<exists>s'. handle_server_transaction end_message ''end'' (to_stdout prompt s) = Some (TRANSACTION_SUCCESS, s')"
    using assms by (fastforce simp: handle_server_transaction_def tcp_send_def tcp_recv_def to_stdout_def)
  then show ?thesis using assms(1) by (auto simp: sample_end [simplified] execute_client_action_def)
qed

lemma sample_finish:
  assumes "\<not> signal_exit s" and "send_faults s = []" and "recv_answers s = sample_answers"
  shows "\<exists>code s'. (case start_communication None [Line True ''end\<newline>''] s of
      None \<Rightarrow> None
    | Some (r, s) \<Rightarrow> if r < 0 then f s else exit_with 0 s) = Some (code, s')"
proof -
  have "take (client_BUFFER_SIZE - 1) ''Welcome'' = ''Welcome''" by (simp add: client_BUFFER_SIZE_def)
  then have "start_communication None [Line True ''end\<newline>''] s = communication_loop None [Line True ''end\<newline>'']
      (to_stdout (strcat [''Server says: '', c_string ''Welcome'']) (s\<lparr>recv_answers := [Some ''bye'']\<rparr>))"
    using assms(3) by (simp add: start_communication_def tcp_recv_def sample_answers_def del: communication_loop.simps)
  moreover obtain s1 where "communication_loop None [Line True ''end\<newline>'']
      (to_stdout (strcat [''Server says: '', c_string ''Welcome'']) (s\<lparr>recv_answers := [Some ''bye'']\<rparr>)) = Some (0, s1)"
    using sample_session [of "to_stdout (strcat [''Server says: '', c_string ''Welcome'']) (s\<lparr>recv_answers := [Some ''bye'']\<rparr>)"] assms(1,2)
    by (auto simp: to_stdout_def simp del: communication_loop.simps)
  ultimately have "start_communication None [Line True ''end\<newline>''] s = Some (0, s1)" by simp
  then show ?thesis using cleanup_releases [of s1] by (auto simp: exit_with_def)
qed

lemma sample_run:
  "\<exists>code s'. client_main [''client'', ''localhost''] client_env (sample_client\<lparr>recv_answers := sample_answers\<rparr>) = Some (code, s')"
  by (simp add: client_main_def client_env_def sample_client_def parse_arguments_def logger_init_def sample_finish
      setup_and_connect_def socket_validation_def client_context_init_def ipc_init_def logger_log_def to_stdout_def)

section \<open>Witnesses\<close>

theorem cJSON_print_parse_witness:
  "\<exists>t. cJSON_PrintUnformatted sample_request = Some t \<and> cJSON_ParseWithOpts t True = Some (sample_request, [CHR 0x00]) \<and>
     cJSON_Parse t = Some sample_request"
proof (rule cJSON_print_parse)
  show "canonical sample_request" by code_simp
  show "nesting sample_request \<le> CJSON_NESTING_LIMIT" by code_simp
  show "item_string sample_request = None" by (simp add: sample_request_def json_object_of_def)
qed


theorem login_response_sets_id_witness:
  "\<exists>s'. handle_login_response sample_login sample_client = Some (True, s') \<and> client_id s' = ''bob''"
  using login_response_sets_id [of sample_login sample_client] by (simp add: sample_logged_in)


theorem keepalive_messages_witness:
  "\<exists>msg. udp_sent (keepalive_thread_func 2 sample_client) = [msg, msg] \<and>
     cJSON_Parse msg = Some (json_object_of None [text_member ''command'' ''keepalive'', text_member ''clientId'' ''alice''])"
proof -
  have "plain (client_id sample_client)" by (simp add: plain_def)
  then show ?thesis using keepalive_messages [of sample_client 2] by (simp add: numeral_2_eq_2)
qed

theorem editing_refines_lists_witness:
  "\<exists>h'. cJSON_InsertItemInArray (Some 0) 1 (Some 3) sample_heap = Some (True, h') \<and> children_are h' 0 [1, 3, 2]"
  using editing_refines_lists [OF sample_children, of 3 1] by (simp add: sample_heap_def)

theorem deleted_items_freed_once_witness:
  "\<exists>h'. cJSON_DeleteItemFromArray (Some 0) 0 sample_heap [] = Some (h', [4, 1]) \<and> in_heap h' (Tree 0 [Tree 2 []])"
  using deleted_items_freed_once [OF sample_trees_in_heap, of 0] by (simp add: sample_trees_def)

theorem parsed_trees_well_typed_witness:
  "\<exists>x. cJSON_Parse sample_alert = Some x \<and> well_typed x \<and> nesting x \<le> CJSON_NESTING_LIMIT"
  using parsed_trees_well_typed [OF sample_alert_parsed] sample_alert_parsed by blast

theorem copies_compare_equal_witness:
  "\<exists>y. cJSON_Duplicate sample_request True = Some y \<and> cJSON_Compare sample_request y False"
proof -
  have "well_typed sample_request" "comparable False sample_request" "nesting sample_request \<le> CJSON_CIRCULAR_LIMIT"
    by (simp_all add: sample_request_def member_defs c_text_def saturate_int is_int32_def name_key_def to_lower_def CJSON_CIRCULAR_LIMIT_def
        saturate_def INT_MAX_def INT_MIN_def Doubles.truncate_def)
  then show ?thesis using copies_compare_equal [of sample_request False] by blast
qed

theorem minified_print_witness:
  "\<exists>t. cJSON_Print sample_request = Some t \<and> cJSON_PrintUnformatted sample_request = Some (cJSON_Minify t)"
proof (rule minified_print)
  show "canonical sample_request" by code_simp
  show "minifiable sample_request" by code_simp
qed



end
