(* ===== verification/Platform.thy ===== *)
theory Platform
  imports Prelude
begin

text \<open>
  The code the server calls and that is not part of the repository, as parameters of the
  model: the JSON library (nlohmann::json), the password hashing library (bcrypt), the
  texts of exceptions (\<^verbatim>\<open>what()\<close>), the order in which SQLite returns rows with equal sort
  keys, the order in which an \<^verbatim>\<open>unordered_set\<close> is traversed, and zlib.  A definition that
  uses one of them takes a value of type \<open>'j platform\<close>, where \<open>'j\<close> is the type
  of JSON values.  What the code relies on is stated in the locales below, which the
  theory Reference\_Platform shows to be satisfiable.
\<close>

record 'j platform =
  json_parse :: "string \<Rightarrow> 'j option"
  json_dump :: "'j \<Rightarrow> string"
  json_contains :: "'j \<Rightarrow> string \<Rightarrow> bool"
  json_at :: "'j \<Rightarrow> string \<Rightarrow> 'j res"
  json_value :: "'j \<Rightarrow> string \<Rightarrow> string \<Rightarrow> string res"
  json_get_string :: "'j \<Rightarrow> string res"
  json_get_int :: "'j \<Rightarrow> int res"
  json_put :: "'j \<Rightarrow> string \<Rightarrow> 'j \<Rightarrow> 'j res"
  json_string :: "string \<Rightarrow> 'j"
  json_int :: "int \<Rightarrow> 'j"
  json_object :: "(string \<times> 'j) list \<Rightarrow> 'j"
  json_array :: "'j list \<Rightarrow> 'j"
  json_of_inventory :: "(string \<rightharpoonup> string \<rightharpoonup> int) \<Rightarrow> 'j"
  bcrypt_generateHash :: "nat \<Rightarrow> string \<Rightarrow> string"
  bcrypt_validatePassword :: "string \<Rightarrow> string \<Rightarrow> bool"
  exn_what :: "exn \<Rightarrow> string"
  sql_order_desc :: "string list \<Rightarrow> nat list"
  hash_set_order :: "string set \<Rightarrow> string list"
  gzip_chunks :: "string list \<Rightarrow> string"
  gunzip :: "string \<Rightarrow> string"

text \<open>
  The operations of the JSON library in the source's notation:
  \<^item> \<open>json_parse P t\<close> is \<^verbatim>\<open>json::parse(t, nullptr, false)\<close>, \<open>None\<close> for a discarded
    value; \<open>json_dump\<close> is \<^verbatim>\<open>dump()\<close>;
  \<^item> \<open>json_at P j k\<close> is \<^verbatim>\<open>j.at(k)\<close>, \<open>json_contains\<close> is \<^verbatim>\<open>contains\<close>,
    \<open>json_value P j k d\<close> is \<^verbatim>\<open>j.value(k, d)\<close> with a string default;
  \<^item> \<open>json_get_string\<close> and \<open>json_get_int\<close> are the implicit conversions to
    \<^verbatim>\<open>std::string\<close> and \<^verbatim>\<open>int\<close>; \<open>json_put P j k v\<close> is \<^verbatim>\<open>j[k] = v\<close>;
  \<^item> \<open>json_object P kvs\<close> is a default-constructed value after the assignments
    \<^verbatim>\<open>j[k] = v\<close> of \<open>kvs\<close>, in that order.
  \<open>bcrypt_generateHash P n p\<close> is the hash the \<open>n\<close>-th call of
  \<^verbatim>\<open>bcrypt::generateHash\<close> returns for \<open>p\<close> (each call draws a fresh salt).
  \<open>sql_order_desc P ks\<close> lists the positions of the rows with the sort keys \<open>ks\<close> in the
  order in which \<^verbatim>\<open>ORDER BY ... DESC\<close> returns them.
\<close>

definition json_parse_throwing :: "'j platform \<Rightarrow> string \<Rightarrow> 'j res" where
  "json_parse_throwing P t =
     (case json_parse P t of None \<Rightarrow> Inl (JsonException 101) | Some j \<Rightarrow> Inr j)"

definition json_str_field :: "'j platform \<Rightarrow> 'j \<Rightarrow> string \<Rightarrow> string res" where
  "json_str_field P j k = bind_res (json_at P j k) (json_get_string P)"

definition json_int_field :: "'j platform \<Rightarrow> 'j \<Rightarrow> string \<Rightarrow> int res" where
  "json_int_field P j k = bind_res (json_at P j k) (json_get_int P)"

section \<open>What the code relies on\<close>

text \<open>
  The documented behaviour of nlohmann::json the handlers use: \<^verbatim>\<open>contains\<close> tells whether
  \<^verbatim>\<open>at\<close> succeeds; the accessors throw exceptions of the library only; \<^verbatim>\<open>value\<close> returns
  the converted element when the key is there, and otherwise the default or (for a value
  that is not an object) error 306; an assignment is read back by \<^verbatim>\<open>at\<close> and leaves the
  other keys alone.
\<close>

locale json_api =
  fixes P :: "'j platform"
  assumes contains_iff_at: "json_contains P j k \<longleftrightarrow> (\<exists>v. json_at P j k = Inr v)"
    and at_throws: "json_at P j k = Inl e \<Longrightarrow> is_json_exception e"
    and get_string_throws: "json_get_string P j = Inl e \<Longrightarrow> is_json_exception e"
    and get_int_throws: "json_get_int P j = Inl e \<Longrightarrow> is_json_exception e"
    and put_throws: "json_put P j k v = Inl e \<Longrightarrow> is_json_exception e"
    and get_int_range: "json_get_int P j = Inr n \<Longrightarrow> is_int32 n"
    and get_string_of_string: "json_get_string P (json_string P t) = Inr t"
    and value_present: "json_contains P j k \<Longrightarrow> json_value P j k d = json_str_field P j k"
    and value_absent: "\<not> json_contains P j k \<Longrightarrow>
      json_value P j k d = Inr d \<or> json_value P j k d = Inl (JsonException 306)"
    and put_at: "json_put P j k v = Inr j' \<Longrightarrow> json_at P j' k = Inr v"
    and put_at_other: "json_put P j k v = Inr j' \<Longrightarrow> k' \<noteq> k \<Longrightarrow> json_contains P j k' \<Longrightarrow>
      json_at P j' k' = json_at P j k'"
    and put_contains: "json_put P j k v = Inr j' \<Longrightarrow> k' \<noteq> k \<Longrightarrow> json_contains P j' k' = json_contains P j k'"
    and put_object: "json_contains P j k' \<Longrightarrow> \<exists>j'. json_put P j k v = Inr j'"
    and at_object: "map_of (rev kvs) k = Some v \<Longrightarrow> json_at P (json_object P kvs) k = Inr v"
begin

lemma str_field_throws: "json_str_field P j k = Inl e \<Longrightarrow> is_json_exception e"
  by (cases "json_at P j k")
    (auto simp: json_str_field_def dest: at_throws get_string_throws)

lemma int_field_throws: "json_int_field P j k = Inl e \<Longrightarrow> is_json_exception e"
  by (cases "json_at P j k")
    (auto simp: json_int_field_def dest: at_throws get_int_throws)

lemma int_field_range: "json_int_field P j k = Inr n \<Longrightarrow> is_int32 n"
  by (cases "json_at P j k") (auto simp: json_int_field_def dest: get_int_range)

lemma str_field_contains: "json_str_field P j k = Inr v \<Longrightarrow> json_contains P j k"
  using contains_iff_at [of j k] by (cases "json_at P j k") (auto simp: json_str_field_def)

text \<open>Assigning one field keeps the others, also the missing and the ill-typed ones.\<close>

lemma put_str_field:
  assumes "json_put P j k x = Inr j'" and "k' \<noteq> k"
  shows "json_str_field P j k' = Inr v \<Longrightarrow> json_str_field P j' k' = Inr v"
    and "json_str_field P j k' = Inl e \<Longrightarrow> \<exists>e'. json_str_field P j' k' = Inl e' \<and> is_json_exception e'"
proof -
  show "json_str_field P j k' = Inr v \<Longrightarrow> json_str_field P j' k' = Inr v"
    using put_at_other [OF assms str_field_contains [of j k' v]] by (simp add: json_str_field_def)
  assume err: "json_str_field P j k' = Inl e"
  show "\<exists>e'. json_str_field P j' k' = Inl e' \<and> is_json_exception e'"
  proof (cases "json_contains P j k'")
    case True
    from put_at_other [OF assms True] err str_field_throws [OF err] show ?thesis
      by (simp add: json_str_field_def)
  next
    case False
    with put_contains [OF assms] contains_iff_at [of j' k'] obtain e' where "json_at P j' k' = Inl e'"
      by (cases "json_at P j' k'") auto
    with at_throws show ?thesis by (auto simp: json_str_field_def)
  qed
qed

lemma value_throws: "json_value P j k d = Inl e \<Longrightarrow> is_json_exception e"
  by (cases "json_contains P j k")
    (auto simp: value_present dest: str_field_throws dest!: value_absent [of j k d])

end

text \<open>bcrypt: the hash generated for a password validates that password.\<close>

locale bcrypt_api =
  fixes P :: "'j platform"
  assumes validate_generated: "bcrypt_validatePassword P p (bcrypt_generateHash P n p)"

text \<open>\<^verbatim>\<open>ORDER BY key DESC\<close>: every row once, with descending keys.\<close>

locale order_by_api =
  fixes P :: "'j platform"
  assumes order_perm: "distinct (sql_order_desc P ks) \<and> set (sql_order_desc P ks) = {..<length ks}"
    and order_desc: "sorted_wrt (\<lambda>a b. ks ! b \<le> ks ! a) (sql_order_desc P ks)"

text \<open>Traversing an \<^verbatim>\<open>unordered_set\<close> visits every element once, in some order.\<close>

locale set_order_api =
  fixes P :: "'j platform"
  assumes order_set: "finite S \<Longrightarrow> set (hash_set_order P S) = S"
    and order_distinct: "finite S \<Longrightarrow> distinct (hash_set_order P S)"

text \<open>zlib: decompressing a gzip file gives back what was written to it.\<close>

locale gzip_api =
  fixes P :: "'j platform"
  assumes gunzip_gzip: "gunzip P (gzip_chunks P cs) = concat cs"

end
