(* ===== verification/Reference_Platform.thy ===== *)
theory Reference_Platform
  imports Platform
begin

text \<open>
  A concrete platform: JSON values as a datatype with the documented accessors, a toy
  password hash that embeds the password, a stable sort for \<^verbatim>\<open>ORDER BY\<close>, a traversal of
  sets in increasing order and a gzip that stores the text.  The texts that parse are
  given by a finite table.  It satisfies every locale of the theory Platform, so the
  hypotheses the properties make on the platform can hold together, and the witnesses
  evaluate on it.
\<close>

datatype jvalue =
  JNull | JBool bool | JInt int | JString string | JArray "jvalue list"
| JObject "(string \<times> jvalue) list"

fun ref_at :: "jvalue \<Rightarrow> string \<Rightarrow> jvalue res" where
  "ref_at (JObject kvs) k =
     (case map_of kvs k of Some v \<Rightarrow> Inr v | None \<Rightarrow> Inl (JsonException 403))"
| "ref_at _ k = Inl (JsonException 304)"

fun ref_contains :: "jvalue \<Rightarrow> string \<Rightarrow> bool" where
  "ref_contains (JObject kvs) k = (map_of kvs k \<noteq> None)"
| "ref_contains _ k = False"

fun ref_get_string :: "jvalue \<Rightarrow> string res" where
  "ref_get_string (JString t) = Inr t"
| "ref_get_string _ = Inl (JsonException 302)"

fun ref_get_int :: "jvalue \<Rightarrow> int res" where
  "ref_get_int (JInt n) = Inr (to_int32 n)"
| "ref_get_int (JBool b) = Inr (if b then 1 else 0)"
| "ref_get_int _ = Inl (JsonException 302)"

fun ref_put :: "jvalue \<Rightarrow> string \<Rightarrow> jvalue \<Rightarrow> jvalue res" where
  "ref_put JNull k v = Inr (JObject [(k, v)])"
| "ref_put (JObject kvs) k v = Inr (JObject ((k, v) # filter (\<lambda>p. fst p \<noteq> k) kvs))"
| "ref_put _ k v = Inl (JsonException 305)"

fun ref_value :: "jvalue \<Rightarrow> string \<Rightarrow> string \<Rightarrow> string res" where
  "ref_value (JObject kvs) k d =
     (case map_of kvs k of Some v \<Rightarrow> ref_get_string v | None \<Rightarrow> Inr d)"
| "ref_value _ k d = Inl (JsonException 306)"

fun ref_dump :: "jvalue \<Rightarrow> string" where
  "ref_dump JNull = ''null''"
| "ref_dump (JBool b) = (if b then ''true'' else ''false'')"
| "ref_dump (JInt n) = to_string n"
| "ref_dump (JString t) = ''\"'' @ t @ ''\"''"
| "ref_dump (JArray xs) = ''['' @ concat (map (\<lambda>x. ref_dump x @ '','') xs) @ '']''"
| "ref_dump (JObject kvs) =
     ''{'' @ concat (map (\<lambda>(k, v). ''\"'' @ k @ ''\":'' @ ref_dump v @ '','') kvs) @ ''}''"

definition ref_of_inventory :: "(string \<rightharpoonup> string \<rightharpoonup> int) \<Rightarrow> jvalue" where
  "ref_of_inventory m =
     JObject (concat (map (\<lambda>c. case m c of None \<Rightarrow> []
        | Some its \<Rightarrow> [(c, JObject (concat (map (\<lambda>i. case its i of None \<Rightarrow> [] | Some q \<Rightarrow> [(i, JInt q)])
             [''meat'', ''vegetables'', ''fruits'', ''water'', ''bread'', ''antibiotics'',
              ''analgesics'', ''bandages'', ''pistol_rounds'', ''shotgun_shells'', ''grenades''])))])
        [''food'', ''medicine'', ''ammo'']))"

definition reference_platform :: "(string \<times> jvalue) list \<Rightarrow> jvalue platform" where
  "reference_platform tbl =
     \<lparr>json_parse = map_of tbl,
      json_dump = ref_dump,
      json_contains = ref_contains,
      json_at = ref_at,
      json_value = ref_value,
      json_get_string = ref_get_string,
      json_get_int = ref_get_int,
      json_put = ref_put,
      json_string = JString,
      json_int = JInt,
      json_object = (\<lambda>kvs. JObject (rev kvs)),
      json_array = JArray,
      json_of_inventory = ref_of_inventory,
      bcrypt_generateHash = (\<lambda>n p. replicate n (CHR ''.'') @ CHR ''$'' # p),
      bcrypt_validatePassword = (\<lambda>p h. drop 1 (dropWhile (\<lambda>c. c \<noteq> CHR ''$'') h) = p),
      exn_what = (\<lambda>e. ''error''),
      sql_order_desc = (\<lambda>ks. rev (sort_key (\<lambda>i. ks ! i) [0..<length ks])),
      hash_set_order = sorted_list_of_set,
      gzip_chunks = (\<lambda>cs. ''gz:'' @ concat cs),
      gunzip = drop 3\<rparr>"

lemma reference_platform_sel [simp]:
  "json_parse (reference_platform tbl) = map_of tbl"
  "json_dump (reference_platform tbl) = ref_dump"
  "json_contains (reference_platform tbl) = ref_contains"
  "json_at (reference_platform tbl) = ref_at"
  "json_value (reference_platform tbl) = ref_value"
  "json_get_string (reference_platform tbl) = ref_get_string"
  "json_get_int (reference_platform tbl) = ref_get_int"
  "json_put (reference_platform tbl) = ref_put"
  "json_string (reference_platform tbl) = JString"
  "json_int (reference_platform tbl) = JInt"
  "json_object (reference_platform tbl) = (\<lambda>kvs. JObject (rev kvs))"
  "json_array (reference_platform tbl) = JArray"
  "json_of_inventory (reference_platform tbl) = ref_of_inventory"
  "bcrypt_generateHash (reference_platform tbl) = (\<lambda>n p. replicate n (CHR ''.'') @ CHR ''$'' # p)"
  "bcrypt_validatePassword (reference_platform tbl) =
     (\<lambda>p h. drop 1 (dropWhile (\<lambda>c. c \<noteq> CHR ''$'') h) = p)"
  "exn_what (reference_platform tbl) = (\<lambda>e. ''error'')"
  "sql_order_desc (reference_platform tbl) =
     (\<lambda>ks. rev (sort_key (\<lambda>i. ks ! i) [0..<length ks]))"
  "hash_set_order (reference_platform tbl) = sorted_list_of_set"
  "gzip_chunks (reference_platform tbl) = (\<lambda>cs. ''gz:'' @ concat cs)"
  "gunzip (reference_platform tbl) = drop 3"
  by (simp_all add: reference_platform_def)

lemma ref_at_put:
  "ref_put j k v = Inr j' \<Longrightarrow> ref_at j' k' = (if k' = k then Inr v else ref_at j' k')"
  by (cases j) auto

lemma ref_at_put_other:
  "ref_put j k v = Inr j' \<Longrightarrow> k' \<noteq> k \<Longrightarrow> ref_contains j k' \<Longrightarrow> ref_at j' k' = ref_at j k'"
  by (cases j) (auto simp: map_of_filter_key)

interpretation ref_json: json_api "reference_platform tbl"
proof (unfold_locales, goal_cases)
  case (1 j k) show ?case by (cases j) (auto split: option.splits)
next
  case (2 j k e) then show ?case by (cases j) (auto split: option.splits)
next
  case (3 j e) then show ?case by (cases j) auto
next
  case (4 j e) then show ?case by (cases j) auto
next
  case (5 j k v e) then show ?case by (cases j) auto
next
  case (6 j n) then show ?case
    by (cases j) (auto simp: to_int32_range)
next
  case (7 t) show ?case by simp
next
  case (8 j k d) then show ?case by (cases j) (auto simp: json_str_field_def)
next
  case (9 j k d) then show ?case by (cases j) auto
next
  case (10 j k v j') then show ?case by (simp add: ref_at_put [of j k v j' k])
next
  case (11 j k v j' k') then show ?case by (simp add: ref_at_put_other)
next
  case (12 j k v j' k') then show ?case by (cases j) (auto simp: map_of_filter_key)
next
  case (13 j k' k v) then show ?case by (cases j) auto
next
  case (14 kvs k v) then show ?case by simp
qed

interpretation ref_bcrypt: bcrypt_api "reference_platform tbl"
proof
  fix p :: string and n
  show "bcrypt_validatePassword (reference_platform tbl) p
      (bcrypt_generateHash (reference_platform tbl) n p)"
    by (induction n) simp_all
qed

interpretation ref_order_by: order_by_api "reference_platform tbl"
proof (unfold_locales, goal_cases)
  case (1 ks)
  have "set [0..<length ks] = {..<length ks}" by auto
  then show ?case by simp
next
  case (2 ks)
  have "sorted (map (\<lambda>i. ks ! i) (sort_key (\<lambda>i. ks ! i) [0..<length ks]))"
    by (rule sorted_sort_key)
  then show ?case by (simp add: sorted_map sorted_wrt_rev)
qed

interpretation ref_set_order: set_order_api "reference_platform tbl"
  by unfold_locales simp_all

interpretation ref_gzip: gzip_api "reference_platform tbl"
  by unfold_locales simp

end
