(* ===== verification/Storage.thy ===== *)
theory Storage
  imports Platform "HOL-Library.Multiset"
begin

text \<open>
  The class Storage (src/src/server/storage.cpp, src/include/server/storage.hpp): the
  SQLite database as tables of rows, with the constraints of the schema, and one
  definition per method.  Every SQL statement may also fail because of the engine (a busy
  or full disk, a read-only file): \<open>db_faults\<close> holds which of the next statements do.
  The state is an extensible record, so that the components built on Storage extend it.
\<close>

section \<open>The tables\<close>

datatype table = UsersTable | InventoryTable | LogsTable

record user_row =
  u_hostname :: string
  u_password_hash :: string
  u_failed_attempts :: int
  u_last_failed_timestamp :: int
  u_is_locked :: int

record inventory_row =
  i_client_id :: string
  i_category :: string
  i_item :: string
  i_quantity :: int

record log_row =
  l_log_id :: nat
  l_timestamp :: string
  l_level :: string
  l_component :: string
  l_message :: string
  l_client_id :: "string option"

record storage =
  db_tables :: "table set"
  db_foreign_keys :: bool
  db_users :: "user_row list"
  db_inventory :: "inventory_row list"
  db_logs :: "log_row list"
  db_next_log_id :: nat
  db_faults :: "bool list"
  bcrypt_draws :: nat

text \<open>The structs the methods return.\<close>

record userAuthData =
  passwordHash :: string
  failedAttempts :: int
  lastFailedTimestamp :: int
  is_locked :: bool

record LogEntry =
  le_timestamp :: string
  le_level :: string
  le_component :: string
  le_message :: string

type_synonym client_inventory = "string \<rightharpoonup> string \<rightharpoonup> int"

section \<open>Statements\<close>

text \<open>
  Preparing and running a statement on a table: it fails when the engine does or when the
  table is missing.  A failed statement changes no row.
\<close>

definition sql_statement :: "'z storage_scheme \<Rightarrow> unit res \<times> 'z storage_scheme" where
  "sql_statement s =
     (case db_faults s of
        [] \<Rightarrow> (Inr (), s)
      | f # fs \<Rightarrow>
          (if f then Inl (SqliteException EngineFailure) else Inr (), s\<lparr>db_faults := fs\<rparr>))"

definition sql_on :: "table \<Rightarrow> 'z storage_scheme \<Rightarrow> unit res \<times> 'z storage_scheme" where
  "sql_on t s = seq_st (sql_statement s) (\<lambda>_ s.
     if t \<in> db_tables s then (Inr (), s) else (Inl (SqliteException NoSuchTable), s))"

text \<open>\<^verbatim>\<open>length(x)\<close> of SQLite counts the characters in front of the first NUL.\<close>

definition sql_nonempty :: "string \<Rightarrow> bool" where
  "sql_nonempty x = (c_string x \<noteq> [])"

definition user_known :: "'z storage_scheme \<Rightarrow> string \<Rightarrow> bool" where
  "user_known s h = (h \<in> u_hostname ` set (db_users s))"

definition create_table :: "table \<Rightarrow> 'z storage_scheme \<Rightarrow> unit res \<times> 'z storage_scheme" where
  "create_table t s = seq_st (sql_statement s) (\<lambda>_ s.
     (Inr (), s\<lparr>db_tables := insert t (db_tables s)\<rparr>))"

section \<open>The methods\<close>

text \<open>
  The constructor: opening the database throws when the engine fails; a failure of the two
  pragmas is caught.  Foreign keys are not checked on a new connection.
\<close>

definition Storage_construct :: "'z storage_scheme \<Rightarrow> unit res \<times> 'z storage_scheme" where
  "Storage_construct s =
     seq_st (sql_statement s) (\<lambda>_ s.
     catch_st
       (seq_st (sql_statement (s\<lparr>db_foreign_keys := False\<rparr>)) (\<lambda>_ s. sql_statement s))
       (\<lambda>e s. (Inr (), s)))"

definition initializeSchema :: "'z storage_scheme \<Rightarrow> unit res \<times> 'z storage_scheme" where
  "initializeSchema s =
     seq_st (sql_statement s) (\<lambda>_ s.
     seq_st (create_table UsersTable (s\<lparr>db_foreign_keys := True\<rparr>)) (\<lambda>_ s.
     seq_st (create_table InventoryTable s) (\<lambda>_ s.
     create_table LogsTable s)))"

definition inventory_key :: "inventory_row \<Rightarrow> string \<times> string \<times> string" where
  "inventory_key r = (i_client_id r, i_category r, i_item r)"

definition upsert_row ::
  "string \<Rightarrow> string \<Rightarrow> string \<Rightarrow> int \<Rightarrow> inventory_row list \<Rightarrow> inventory_row list" where
  "upsert_row c cat it q rows =
     (if (c, cat, it) \<in> inventory_key ` set rows
      then map (\<lambda>r. if inventory_key r = (c, cat, it) then r\<lparr>i_quantity := q\<rparr> else r) rows
      else rows @ [\<lparr>i_client_id = c, i_category = cat, i_item = it, i_quantity = q\<rparr>])"

definition saveStockUpdate ::
  "string \<Rightarrow> string \<Rightarrow> string \<Rightarrow> int \<Rightarrow> 'z storage_scheme \<Rightarrow> unit res \<times> 'z storage_scheme" where
  "saveStockUpdate clientId category item quantity s =
     seq_st (sql_on InventoryTable s) (\<lambda>_ s.
       if \<not> (sql_nonempty clientId \<and> sql_nonempty category \<and> sql_nonempty item)
       then (Inl (SqliteException CheckConstraint), s)
       else if (clientId, category, item) \<notin> inventory_key ` set (db_inventory s)
         \<and> db_foreign_keys s \<and> \<not> user_known s clientId
       then (Inl (SqliteException ForeignKeyConstraint), s)
       else (Inr (), s\<lparr>db_inventory := upsert_row clientId category item quantity (db_inventory s)\<rparr>))"

definition Storage_getStock ::
  "string \<Rightarrow> string \<Rightarrow> string \<Rightarrow> 'z storage_scheme \<Rightarrow> int option res \<times> 'z storage_scheme" where
  "Storage_getStock clientId category item s =
     seq_st (sql_on InventoryTable s) (\<lambda>_ s.
       (Inr (map_option (\<lambda>r. to_int32 (i_quantity r))
          (find (\<lambda>r. inventory_key r = (clientId, category, item)) (db_inventory s))), s))"

text \<open>\<^verbatim>\<open>inventoryMap[category][item] = quantity\<close>: \<^verbatim>\<open>operator[]\<close> creates the inner map.\<close>

definition map_entry :: "string \<Rightarrow> string \<Rightarrow> int \<Rightarrow> client_inventory \<Rightarrow> client_inventory" where
  "map_entry cat it q m =
     m(cat \<mapsto> ((case m cat of None \<Rightarrow> Map.empty | Some its \<Rightarrow> its)(it \<mapsto> q)))"

definition rows_to_map :: "inventory_row list \<Rightarrow> client_inventory" where
  "rows_to_map rows =
     foldl (\<lambda>m r. map_entry (i_category r) (i_item r) (to_int32 (i_quantity r)) m) Map.empty rows"

definition getFullInventory ::
  "string \<Rightarrow> 'z storage_scheme \<Rightarrow> client_inventory option res \<times> 'z storage_scheme" where
  "getFullInventory clientId s =
     seq_st (sql_on InventoryTable s) (\<lambda>_ s.
       let rows = filter (\<lambda>r. i_client_id r = clientId) (db_inventory s)
       in (Inr (if rows = [] then None else Some (rows_to_map rows)), s))"

definition createUser ::
  "'j platform \<Rightarrow> string \<Rightarrow> string \<Rightarrow> 'z storage_scheme \<Rightarrow> bool res \<times> 'z storage_scheme" where
  "createUser P hostname password s =
     (let password_hash = bcrypt_generateHash P (bcrypt_draws s) password;
          s = s\<lparr>bcrypt_draws := Suc (bcrypt_draws s)\<rparr>
      in seq_st (sql_on UsersTable s) (\<lambda>_ s.
           if \<not> sql_nonempty hostname then (Inl (SqliteException CheckConstraint), s)
           else if user_known s hostname then (Inl (SqliteException PrimaryKeyConstraint), s)
           else (Inr True, s\<lparr>db_users := db_users s @
             [\<lparr>u_hostname = hostname, u_password_hash = password_hash, u_failed_attempts = 0,
               u_last_failed_timestamp = 0, u_is_locked = 0\<rparr>]\<rparr>)))"

definition userExists :: "string \<Rightarrow> 'z storage_scheme \<Rightarrow> bool res \<times> 'z storage_scheme" where
  "userExists hostname s =
     seq_st (sql_on UsersTable s) (\<lambda>_ s.
       (Inr (length (filter (\<lambda>r. u_hostname r = hostname) (db_users s)) = 1), s))"

definition getUserLoginData ::
  "string \<Rightarrow> 'z storage_scheme \<Rightarrow> userAuthData option res \<times> 'z storage_scheme" where
  "getUserLoginData hostname s =
     seq_st (sql_on UsersTable s) (\<lambda>_ s.
       (Inr (map_option (\<lambda>r.
          \<lparr>passwordHash = u_password_hash r,
           failedAttempts = to_int32 (u_failed_attempts r),
           lastFailedTimestamp = to_int32 (u_last_failed_timestamp r),
           is_locked = (to_int32 (u_is_locked r) = 1)\<rparr>)
          (find (\<lambda>r. u_hostname r = hostname) (db_users s))), s))"

definition update_users ::
  "string \<Rightarrow> (user_row \<Rightarrow> user_row) \<Rightarrow> user_row list \<Rightarrow> user_row list" where
  "update_users h f rows = map (\<lambda>r. if u_hostname r = h then f r else r) rows"

definition updateLoginAttempts ::
  "string \<Rightarrow> bool \<Rightarrow> int \<Rightarrow> 'z storage_scheme \<Rightarrow> unit res \<times> 'z storage_scheme" where
  "updateLoginAttempts hostname loginSuccess timeStamp s =
     seq_st (sql_on UsersTable s) (\<lambda>_ s.
       let rows = update_users hostname
             (if loginSuccess then (\<lambda>r. r\<lparr>u_failed_attempts := 0\<rparr>)
              else (\<lambda>r. r\<lparr>u_failed_attempts := u_failed_attempts r + 1,
                          u_last_failed_timestamp := timeStamp\<rparr>)) (db_users s)
       in if list_all (\<lambda>r. u_hostname r = hostname \<longrightarrow> u_failed_attempts r \<le> 3) rows
          then (Inr (), s\<lparr>db_users := rows\<rparr>)
          else (Inl (SqliteException CheckConstraint), s))"

definition saveLogEntry ::
  "string \<Rightarrow> string \<Rightarrow> string \<Rightarrow> string \<Rightarrow> string option \<Rightarrow> 'z storage_scheme
     \<Rightarrow> unit res \<times> 'z storage_scheme" where
  "saveLogEntry date level component message clientId s =
     seq_st (sql_on LogsTable s) (\<lambda>_ s.
       if db_foreign_keys s \<and> (case clientId of None \<Rightarrow> False | Some c \<Rightarrow> \<not> user_known s c)
       then (Inl (SqliteException ForeignKeyConstraint), s)
       else (Inr (), s\<lparr>db_logs := db_logs s @
         [\<lparr>l_log_id = db_next_log_id s, l_timestamp = date, l_level = level,
           l_component = component, l_message = message, l_client_id = clientId\<rparr>],
         db_next_log_id := Suc (db_next_log_id s)\<rparr>))"

definition log_entry_of :: "log_row \<Rightarrow> LogEntry" where
  "log_entry_of r = \<lparr>le_timestamp = l_timestamp r, le_level = l_level r,
     le_component = l_component r, le_message = l_message r\<rparr>"

definition history_rows :: "string \<Rightarrow> 'z storage_scheme \<Rightarrow> log_row list" where
  "history_rows clientId s =
     filter (\<lambda>r. l_client_id r = Some clientId \<and> l_component r = ''Inventory'') (db_logs s)"

definition getInventoryHistoryTransaction ::
  "'j platform \<Rightarrow> string \<Rightarrow> 'z storage_scheme \<Rightarrow> LogEntry list res \<times> 'z storage_scheme" where
  "getInventoryHistoryTransaction P clientId s =
     seq_st (sql_on LogsTable s) (\<lambda>_ s.
       let rows = history_rows clientId s
       in (Inr (map (\<lambda>i. log_entry_of (rows ! i)) (sql_order_desc P (map l_timestamp rows))), s))"

definition setClientLockStatus ::
  "string \<Rightarrow> bool \<Rightarrow> 'z storage_scheme \<Rightarrow> bool res \<times> 'z storage_scheme" where
  "setClientLockStatus hostname isLocked s =
     seq_st (sql_on UsersTable s) (\<lambda>_ s.
       (Inr (length (filter (\<lambda>r. u_hostname r = hostname) (db_users s)) = 1),
        s\<lparr>db_users := update_users hostname
            (\<lambda>r. r\<lparr>u_is_locked := (if isLocked then 1 else 0)\<rparr>) (db_users s)\<rparr>))"

definition Storage_isClientLocked :: "string \<Rightarrow> 'z storage_scheme \<Rightarrow> bool res \<times> 'z storage_scheme" where
  "Storage_isClientLocked hostname s =
     seq_st (sql_on UsersTable s) (\<lambda>_ s.
       (Inr (case find (\<lambda>r. u_hostname r = hostname) (db_users s) of
               None \<Rightarrow> False | Some r \<Rightarrow> to_int32 (u_is_locked r) = 1), s))"

section \<open>The invariant of the database\<close>

text \<open>
  What the schema's constraints and the methods keep true: primary keys are unique,
  checked columns are not empty, the counter of failed logins is between 0 and 3, every
  row that refers to a user refers to one that exists, and the stored quantities fit the
  code's \<^verbatim>\<open>int\<close>.
\<close>

definition users_ok :: "'z storage_scheme \<Rightarrow> bool" where
  "users_ok s \<longleftrightarrow> distinct (map u_hostname (db_users s)) \<and>
     (\<forall>r \<in> set (db_users s). sql_nonempty (u_hostname r) \<and> 0 \<le> u_failed_attempts r
        \<and> u_failed_attempts r \<le> 3 \<and> (u_is_locked r = 0 \<or> u_is_locked r = 1))"

definition inventory_ok :: "'z storage_scheme \<Rightarrow> bool" where
  "inventory_ok s \<longleftrightarrow> distinct (map inventory_key (db_inventory s)) \<and>
     (\<forall>r \<in> set (db_inventory s). sql_nonempty (i_client_id r) \<and> sql_nonempty (i_category r)
        \<and> sql_nonempty (i_item r) \<and> is_int32 (i_quantity r) \<and> user_known s (i_client_id r))"

definition logs_ok :: "'z storage_scheme \<Rightarrow> bool" where
  "logs_ok s \<longleftrightarrow> distinct (map l_log_id (db_logs s)) \<and>
     (\<forall>r \<in> set (db_logs s). l_log_id r < db_next_log_id s
        \<and> (case l_client_id r of None \<Rightarrow> True | Some c \<Rightarrow> user_known s c))"

definition storage_ok :: "'z storage_scheme \<Rightarrow> bool" where
  "storage_ok s \<longleftrightarrow> db_foreign_keys s \<and> users_ok s \<and> inventory_ok s \<and> logs_ok s"

text \<open>The stock of an item and the row of a user, as the queries see them.\<close>

definition stock_of :: "'z storage_scheme \<Rightarrow> string \<Rightarrow> string \<Rightarrow> string \<Rightarrow> int option" where
  "stock_of s c cat it =
     map_option i_quantity (find (\<lambda>r. inventory_key r = (c, cat, it)) (db_inventory s))"

definition user_of :: "'z storage_scheme \<Rightarrow> string \<Rightarrow> user_row option" where
  "user_of s h = find (\<lambda>r. u_hostname r = h) (db_users s)"

text \<open>A database whose engine never fails and whose schema is set up.\<close>

definition storage_ready :: "'z storage_scheme \<Rightarrow> bool" where
  "storage_ready s \<longleftrightarrow> storage_ok s \<and> db_faults s = [] \<and> db_tables s = {UsersTable, InventoryTable, LogsTable}"

definition empty_storage :: storage where
  "empty_storage = \<lparr>db_tables = {}, db_foreign_keys = False, db_users = [], db_inventory = [],
     db_logs = [], db_next_log_id = 1, db_faults = [], bcrypt_draws = 0\<rparr>"

definition inv_lookup :: "client_inventory \<Rightarrow> string \<Rightarrow> string \<Rightarrow> int option" where
  "inv_lookup m cat it = (case m cat of None \<Rightarrow> None | Some its \<Rightarrow> its it)"

section \<open>Lemmas\<close>

subsection \<open>Statements change nothing but the fault schedule\<close>

lemma sql_statement_cases:
  "\<exists>fs. sql_statement s = (Inr (), s\<lparr>db_faults := fs\<rparr>)
     \<or> sql_statement s = (Inl (SqliteException EngineFailure), s\<lparr>db_faults := fs\<rparr>)"
  by (auto simp: sql_statement_def split: list.splits if_splits)
    (metis storage.surjective storage.update_convs(7))+

lemma sql_on_cases:
  "\<exists>fs. (sql_on t s = (Inr (), s\<lparr>db_faults := fs\<rparr>) \<and> t \<in> db_tables s)
     \<or> (\<exists>r. sql_on t s = (Inl (SqliteException r), s\<lparr>db_faults := fs\<rparr>))"
  using sql_statement_cases [of s] by (auto simp: sql_on_def)

lemma sql_on_ready: "storage_ready s \<Longrightarrow> sql_on t s = (Inr (), s)"
  by (cases t) (auto simp: storage_ready_def sql_on_def sql_statement_def)

lemma sql_onE:
  assumes "sql_on t s = (r, s')"
  obtains fs where "r = Inr ()" and "s' = s\<lparr>db_faults := fs\<rparr>"
    | fs e where "r = Inl (SqliteException e)" and "s' = s\<lparr>db_faults := fs\<rparr>"
  using assms sql_on_cases [of t s] by auto

lemma faults_irrelevant [simp]:
  "user_known (s\<lparr>db_faults := fs\<rparr>) = user_known s"
  "users_ok (s\<lparr>db_faults := fs\<rparr>) = users_ok s"
  "inventory_ok (s\<lparr>db_faults := fs\<rparr>) = inventory_ok s"
  "logs_ok (s\<lparr>db_faults := fs\<rparr>) = logs_ok s"
  "storage_ok (s\<lparr>db_faults := fs\<rparr>) = storage_ok s"
  "stock_of (s\<lparr>db_faults := fs\<rparr>) = stock_of s"
  "user_of (s\<lparr>db_faults := fs\<rparr>) = user_of s"
  by (auto simp: user_known_def users_ok_def inventory_ok_def logs_ok_def storage_ok_def
      stock_of_def user_of_def fun_eq_iff split: option.splits)

lemma faults_last:
  "s\<lparr>db_faults := fs, db_users := u\<rparr> = s\<lparr>db_users := u, db_faults := fs\<rparr>"
  "s\<lparr>db_faults := fs, db_inventory := i\<rparr> = s\<lparr>db_inventory := i, db_faults := fs\<rparr>"
  "s\<lparr>db_faults := fs, db_logs := l\<rparr> = s\<lparr>db_logs := l, db_faults := fs\<rparr>"
  "s\<lparr>db_faults := fs, db_next_log_id := n\<rparr> = s\<lparr>db_next_log_id := n, db_faults := fs\<rparr>"
  "s\<lparr>db_faults := fs, bcrypt_draws := d\<rparr> = s\<lparr>bcrypt_draws := d, db_faults := fs\<rparr>"
  "s\<lparr>bcrypt_draws := d, db_users := u\<rparr> = s\<lparr>db_users := u, bcrypt_draws := d\<rparr>"
  by simp_all

lemma user_known_frame [simp]:
  "user_known (s\<lparr>db_inventory := x\<rparr>) = user_known s"
  "user_known (s\<lparr>db_logs := y\<rparr>) = user_known s"
  "user_known (s\<lparr>db_next_log_id := n\<rparr>) = user_known s"
  by (simp_all add: user_known_def fun_eq_iff)

lemma draws_irrelevant [simp]:
  "user_known (s\<lparr>bcrypt_draws := n\<rparr>) = user_known s"
  "storage_ok (s\<lparr>bcrypt_draws := n\<rparr>) = storage_ok s"
  "stock_of (s\<lparr>bcrypt_draws := n\<rparr>) = stock_of s"
  "user_of (s\<lparr>bcrypt_draws := n\<rparr>) = user_of s"
  by (auto simp: user_known_def users_ok_def inventory_ok_def logs_ok_def storage_ok_def
      stock_of_def user_of_def fun_eq_iff split: option.splits)

subsection \<open>Queries change nothing but the fault schedule\<close>

lemma query_frame:
  "\<exists>fs. snd (Storage_getStock c cat it s) = s\<lparr>db_faults := fs\<rparr>"
  "\<exists>fs. snd (getFullInventory c s) = s\<lparr>db_faults := fs\<rparr>"
  "\<exists>fs. snd (userExists h s) = s\<lparr>db_faults := fs\<rparr>"
  "\<exists>fs. snd (getUserLoginData h s) = s\<lparr>db_faults := fs\<rparr>"
  "\<exists>fs. snd (getInventoryHistoryTransaction P c s) = s\<lparr>db_faults := fs\<rparr>"
  "\<exists>fs. snd (Storage_isClientLocked h s) = s\<lparr>db_faults := fs\<rparr>"
  unfolding Storage_getStock_def getFullInventory_def userExists_def getUserLoginData_def
    getInventoryHistoryTransaction_def Storage_isClientLocked_def Let_def
  by (auto split: st_splits elim!: sql_onE intro: exI)

subsection \<open>Updates of the rows\<close>

lemma inventory_key_quantity [simp]: "inventory_key (r\<lparr>i_quantity := q\<rparr>) = inventory_key r"
  by (simp add: inventory_key_def)

lemma upsert_keys:
  "map inventory_key (upsert_row c cat it q rows) =
     (if (c, cat, it) \<in> inventory_key ` set rows then map inventory_key rows
      else map inventory_key rows @ [(c, cat, it)])"
  by (auto simp: upsert_row_def inventory_key_def)

lemma upsert_distinct:
  "distinct (map inventory_key rows) \<Longrightarrow> distinct (map inventory_key (upsert_row c cat it q rows))"
  by (auto simp: upsert_keys)

lemma upsert_member:
  "r \<in> set (upsert_row c cat it q rows) \<Longrightarrow>
     r \<in> set rows \<or> (inventory_key r = (c, cat, it) \<and> i_quantity r = q)"
  by (auto simp: upsert_row_def inventory_key_def split: if_splits)

lemma overwrite_find:
  "map_option i_quantity (find (\<lambda>r. inventory_key r = k)
     (map (\<lambda>r. if inventory_key r = k' then r\<lparr>i_quantity := q\<rparr> else r) rows)) =
     (if k = k' \<and> k' \<in> inventory_key ` set rows then Some q
      else map_option i_quantity (find (\<lambda>r. inventory_key r = k) rows))"
  by (induction rows) auto

lemma upsert_find:
  "map_option i_quantity (find (\<lambda>r. inventory_key r = k) (upsert_row c cat it q rows)) =
     (if k = (c, cat, it) then Some q
      else map_option i_quantity (find (\<lambda>r. inventory_key r = k) rows))"
proof (cases "(c, cat, it) \<in> inventory_key ` set rows")
  case True
  then show ?thesis by (simp add: upsert_row_def overwrite_find)
next
  case False
  then have "find (\<lambda>r. inventory_key r = (c, cat, it)) rows = None"
    by (simp only: find_key_None not_False_eq_True)
  with False show ?thesis
    by (simp add: upsert_row_def find_append inventory_key_def split: option.split)
qed

lemma update_users_hostnames [simp]:
  "(\<And>r. u_hostname (f r) = u_hostname r) \<Longrightarrow>
     map u_hostname (update_users h f rows) = map u_hostname rows"
  by (simp add: update_users_def)

lemma update_users_known:
  "(\<And>r. u_hostname (f r) = u_hostname r) \<Longrightarrow>
     user_known (s\<lparr>db_users := update_users h f (db_users s)\<rparr>) = user_known s"
  by (simp add: user_known_def fun_eq_iff flip: set_map)

lemma update_users_find:
  "(\<And>r. u_hostname (f r) = u_hostname r) \<Longrightarrow>
     find (\<lambda>r. u_hostname r = k) (update_users h f rows) =
       map_option (if k = h then f else id) (find (\<lambda>r. u_hostname r = k) rows)"
  by (induction rows) (auto simp: update_users_def)

subsection \<open>Stock: what an update stores is what the queries return\<close>

lemma saveStockUpdateE:
  assumes "saveStockUpdate c cat it q s = (r, s')"
  obtains fs where "r = Inr ()" and "sql_nonempty c" "sql_nonempty cat" "sql_nonempty it"
      and "db_foreign_keys s \<Longrightarrow>
        (c, cat, it) \<in> inventory_key ` set (db_inventory s) \<or> user_known s c"
      and "s' = s\<lparr>db_inventory := upsert_row c cat it q (db_inventory s), db_faults := fs\<rparr>"
    | fs e where "r = Inl (SqliteException e)" and "s' = s\<lparr>db_faults := fs\<rparr>"
  using assms unfolding saveStockUpdate_def
  by (auto simp: faults_last split: st_splits if_splits elim!: sql_onE)

lemma saveStockUpdate_stock:
  "saveStockUpdate c cat it q s = (Inr (), s') \<Longrightarrow>
     stock_of s' = (\<lambda>c' cat' it'. if (c', cat', it') = (c, cat, it) then Some q else stock_of s c' cat' it')"
  by (erule saveStockUpdateE) (auto simp: stock_of_def upsert_find fun_eq_iff)

lemma saveStockUpdate_error:
  "saveStockUpdate c cat it q s = (Inl e, s') \<Longrightarrow>
     (\<exists>r. e = SqliteException r) \<and> stock_of s' = stock_of s"
  by (erule saveStockUpdateE) auto

lemma Storage_getStock_value:
  assumes "Storage_getStock c cat it s = (Inr v, s')" and "inventory_ok s"
  shows "v = stock_of s c cat it"
proof -
  obtain fs where v: "v = map_option (\<lambda>r. to_int32 (i_quantity r))
      (find (\<lambda>r. inventory_key r = (c, cat, it)) (db_inventory s))"
    using assms(1) unfolding Storage_getStock_def by (auto split: st_splits elim!: sql_onE)
  have "find (\<lambda>r. inventory_key r = (c, cat, it)) (db_inventory s) = Some r \<Longrightarrow>
      is_int32 (i_quantity r)" for r
    using assms(2) by (auto simp: inventory_ok_def dest: find_Some_mem)
  with v show ?thesis by (auto simp: stock_of_def intro: option.map_cong split: option.splits)
qed

lemma inv_lookup_map_entry:
  "inv_lookup (map_entry cat it q m) cat' it' =
     (if cat' = cat \<and> it' = it then Some q else inv_lookup m cat' it')"
  by (auto simp: inv_lookup_def map_entry_def split: option.splits)

lemma rows_to_map_snoc:
  "rows_to_map (rows @ [r]) = map_entry (i_category r) (i_item r) (to_int32 (i_quantity r)) (rows_to_map rows)"
  by (simp add: rows_to_map_def)

lemma rows_to_map_lookup:
  assumes "distinct (map inventory_key rows)" and "\<forall>r \<in> set rows. i_client_id r = c \<and> is_int32 (i_quantity r)"
  shows "inv_lookup (rows_to_map rows) cat it =
    map_option i_quantity (find (\<lambda>r. inventory_key r = (c, cat, it)) rows)"
  using assms
proof (induction rows rule: rev_induct)
  case Nil
  show ?case by (simp add: rows_to_map_def inv_lookup_def)
next
  case (snoc r rows)
  then have new: "inventory_key r = (c, i_category r, i_item r)" and "is_int32 (i_quantity r)"
    by (auto simp: inventory_key_def)
  moreover have "find (\<lambda>x. inventory_key x = inventory_key r) rows = None"
    using snoc.prems by (auto simp: find_key_None)
  ultimately show ?case using snoc
    by (auto simp: rows_to_map_snoc inv_lookup_map_entry find_append split: option.split)
qed

lemma rows_to_map_domain:
  "rows_to_map rows cat = None \<longleftrightarrow> (\<forall>r \<in> set rows. i_category r \<noteq> cat)"
  by (induction rows rule: rev_induct)
    (auto simp: rows_to_map_snoc map_entry_def, simp_all add: rows_to_map_def)

lemma find_filter_client:
  "find (\<lambda>r. inventory_key r = (c, cat, it)) (filter (\<lambda>r. i_client_id r = c) rows) =
     find (\<lambda>r. inventory_key r = (c, cat, it)) rows"
  by (induction rows) (auto simp: inventory_key_def)

lemma getFullInventory_value:
  assumes "getFullInventory c s = (Inr v, s')" and "inventory_ok s"
  shows "(case v of None \<Rightarrow> \<forall>cat it. stock_of s c cat it = None
    | Some m \<Rightarrow> (\<forall>cat it. inv_lookup m cat it = stock_of s c cat it) \<and> (\<exists>cat. m cat \<noteq> None))"
proof -
  let ?rows = "filter (\<lambda>r. i_client_id r = c) (db_inventory s)"
  have v: "v = (if ?rows = [] then None else Some (rows_to_map ?rows))"
    using assms(1) unfolding getFullInventory_def by (auto simp: Let_def split: st_splits elim!: sql_onE)
  have rows: "distinct (map inventory_key ?rows)"
      "\<forall>r \<in> set ?rows. i_client_id r = c \<and> is_int32 (i_quantity r)"
    using assms(2) by (auto simp: inventory_ok_def distinct_map_filter)
  have look: "stock_of s c cat it = map_option i_quantity (find (\<lambda>r. inventory_key r = (c, cat, it)) ?rows)"
    for cat it by (simp add: stock_of_def find_filter_client)
  show ?thesis
  proof (cases "?rows = []")
    case True
    with v look show ?thesis by simp
  next
    case False
    then obtain r where "r \<in> set ?rows" by (meson last_in_set)
    then have "rows_to_map ?rows (i_category r) \<noteq> None"
      unfolding rows_to_map_domain by blast
    with False v look rows_to_map_lookup [OF rows] show ?thesis by auto
  qed
qed

subsection \<open>Users\<close>

lemma user_of_mem: "user_of s h = Some r \<Longrightarrow> r \<in> set (db_users s) \<and> u_hostname r = h"
  by (auto simp: user_of_def dest: find_Some_mem)

lemma user_of_None: "user_of s h = None \<longleftrightarrow> \<not> user_known s h"
  by (simp add: user_of_def user_known_def find_key_None)

lemma user_of_attempts:
  "users_ok s \<Longrightarrow> user_of s h = Some r \<Longrightarrow> 0 \<le> u_failed_attempts r \<and> u_failed_attempts r \<le> 3"
  by (auto simp: users_ok_def dest: user_of_mem)

lemma update_users_user_of:
  "(\<And>r. u_hostname (f r) = u_hostname r) \<Longrightarrow>
     user_of (s\<lparr>db_users := update_users h f (db_users s)\<rparr>) k =
       map_option (if k = h then f else id) (user_of s k)"
  by (simp add: user_of_def update_users_find)

lemma update_users_ok:
  assumes "\<And>r. u_hostname (f r) = u_hostname r"
    and "\<And>r. r \<in> set (db_users s) \<Longrightarrow> u_hostname r = h \<Longrightarrow> 0 \<le> u_failed_attempts (f r)
      \<and> u_failed_attempts (f r) \<le> 3 \<and> (u_is_locked (f r) = 0 \<or> u_is_locked (f r) = 1)"
    and "storage_ok s"
  shows "storage_ok (s\<lparr>db_users := update_users h f (db_users s)\<rparr>)"
proof -
  let ?s = "s\<lparr>db_users := update_users h f (db_users s)\<rparr>"
  have known: "user_known ?s = user_known s"
    by (rule update_users_known) (rule assms(1))
  have "distinct (map u_hostname (db_users ?s))"
    using assms(1,3) by (simp add: storage_ok_def users_ok_def)
  then have "users_ok ?s"
    using assms by (auto simp: storage_ok_def users_ok_def update_users_def)
  moreover have "inventory_ok ?s" "logs_ok ?s"
    using assms(3) unfolding storage_ok_def inventory_ok_def logs_ok_def known by simp_all
  ultimately show ?thesis using assms(3) by (simp add: storage_ok_def)
qed

lemma getUserLoginDataE:
  assumes "getUserLoginData h s = (r, s')"
  obtains fs where "r = Inr (map_option (\<lambda>r.
          \<lparr>passwordHash = u_password_hash r,
           failedAttempts = to_int32 (u_failed_attempts r),
           lastFailedTimestamp = to_int32 (u_last_failed_timestamp r),
           is_locked = (to_int32 (u_is_locked r) = 1)\<rparr>) (user_of s h))"
      and "s' = s\<lparr>db_faults := fs\<rparr>"
    | fs e where "r = Inl (SqliteException e)" and "s' = s\<lparr>db_faults := fs\<rparr>"
  using assms unfolding getUserLoginData_def user_of_def
  by (auto split: st_splits elim!: sql_onE)

lemma updateLoginAttemptsE:
  assumes "updateLoginAttempts h ok ts s = (r, s')"
  obtains fs where "r = Inr ()"
      and "s' = s\<lparr>db_users := update_users h
        (if ok then (\<lambda>r. r\<lparr>u_failed_attempts := 0\<rparr>)
         else (\<lambda>r. r\<lparr>u_failed_attempts := u_failed_attempts r + 1, u_last_failed_timestamp := ts\<rparr>))
        (db_users s), db_faults := fs\<rparr>"
      and "\<not> ok \<Longrightarrow> \<forall>r \<in> set (db_users s). u_hostname r = h \<longrightarrow> u_failed_attempts r < 3"
    | fs e where "r = Inl (SqliteException e)" and "s' = s\<lparr>db_faults := fs\<rparr>"
proof (cases r)
  case (Inl e)
  with assms that(2) show ?thesis unfolding updateLoginAttempts_def Let_def
    by (auto split: st_splits if_splits elim!: sql_onE)
next
  case (Inr u)
  let ?f = "if ok then (\<lambda>r. r\<lparr>u_failed_attempts := 0\<rparr>)
    else (\<lambda>r. r\<lparr>u_failed_attempts := u_failed_attempts r + 1, u_last_failed_timestamp := ts\<rparr>)"
  from assms Inr obtain fs where
    s': "s' = s\<lparr>db_users := update_users h ?f (db_users s), db_faults := fs\<rparr>"
    and le: "list_all (\<lambda>r. u_hostname r = h \<longrightarrow> u_failed_attempts r \<le> 3) (update_users h ?f (db_users s))"
    unfolding updateLoginAttempts_def Let_def
    by (auto simp: faults_last split: st_splits if_splits elim!: sql_onE)
  have "\<forall>r \<in> set (db_users s). u_hostname r = h \<longrightarrow> u_failed_attempts r < 3" if "\<not> ok"
  proof (intro ballI impI)
    fix r assume r: "r \<in> set (db_users s)" "u_hostname r = h"
    then have "?f r \<in> set (update_users h ?f (db_users s))"
      by (auto simp: update_users_def intro!: image_eqI [of _ _ r])
    with le r that show "u_failed_attempts r < 3" by (auto simp: list_all_iff)
  qed
  with that(1) [of fs] Inr s' show ?thesis by simp
qed

lemma createUserE:
  assumes "createUser P h p s = (r, s')"
  obtains fs where "r = Inr True" and "sql_nonempty h" and "\<not> user_known s h"
      and "s' = s\<lparr>db_users := db_users s @
        [\<lparr>u_hostname = h, u_password_hash = bcrypt_generateHash P (bcrypt_draws s) p,
          u_failed_attempts = 0, u_last_failed_timestamp = 0, u_is_locked = 0\<rparr>],
        bcrypt_draws := Suc (bcrypt_draws s), db_faults := fs\<rparr>"
    | fs e where "r = Inl (SqliteException e)"
      and "s' = s\<lparr>bcrypt_draws := Suc (bcrypt_draws s), db_faults := fs\<rparr>"
  using assms unfolding createUser_def Let_def
  by (auto simp: faults_last split: st_splits if_splits elim!: sql_onE)

lemma setClientLockStatusE:
  assumes "setClientLockStatus h b s = (r, s')"
  obtains fs where "r = Inr (length (filter (\<lambda>r. u_hostname r = h) (db_users s)) = 1)"
      and "s' = s\<lparr>db_users := update_users h
        (\<lambda>r. r\<lparr>u_is_locked := (if b then 1 else 0)\<rparr>) (db_users s), db_faults := fs\<rparr>"
    | fs e where "r = Inl (SqliteException e)" and "s' = s\<lparr>db_faults := fs\<rparr>"
  using assms unfolding setClientLockStatus_def
  by (auto simp: faults_last split: st_splits elim!: sql_onE)

lemma saveLogEntryE:
  assumes "saveLogEntry d l c m ci s = (r, s')"
  obtains fs where "r = Inr ()" and "db_foreign_keys s \<Longrightarrow> (case ci of None \<Rightarrow> True | Some k \<Rightarrow> user_known s k)"
      and "s' = s\<lparr>db_logs := db_logs s @
         [\<lparr>l_log_id = db_next_log_id s, l_timestamp = d, l_level = l, l_component = c,
           l_message = m, l_client_id = ci\<rparr>], db_next_log_id := Suc (db_next_log_id s),
         db_faults := fs\<rparr>"
    | fs e where "r = Inl (SqliteException e)" and "s' = s\<lparr>db_faults := fs\<rparr>"
  using assms unfolding saveLogEntry_def
  by (auto simp: faults_last split: st_splits if_splits option.splits elim!: sql_onE)

subsection \<open>Every method keeps the invariant\<close>

lemma query_keeps:
  assumes "storage_ok s"
  shows "storage_ok (snd (Storage_getStock c cat it s))"
    and "storage_ok (snd (getFullInventory c s))"
    and "storage_ok (snd (userExists h s))"
    and "storage_ok (snd (getUserLoginData h s))"
    and "storage_ok (snd (getInventoryHistoryTransaction P c s))"
    and "storage_ok (snd (Storage_isClientLocked h s))"
  using query_frame(1) [of c cat it s] query_frame(2) [of c s] query_frame(3) [of h s]
    query_frame(4) [of h s] query_frame(5) [of P c s] query_frame(6) [of h s] assms by auto

lemma saveStockUpdate_keeps:
  assumes "storage_ok s" and "is_int32 q"
  shows "storage_ok (snd (saveStockUpdate c cat it q s))"
proof -
  obtain r s' where eq: "saveStockUpdate c cat it q s = (r, s')" by fastforce
  then show ?thesis
  proof (cases rule: saveStockUpdateE)
    case (1 fs)
    let ?inv = "upsert_row c cat it q (db_inventory s)"
    have known: "user_known s c"
      using 1(5) assms(1) by (auto simp: storage_ok_def inventory_ok_def inventory_key_def)
    have "inventory_ok (s\<lparr>db_inventory := ?inv\<rparr>)"
      using assms 1(2-4) known unfolding storage_ok_def inventory_ok_def
      by (auto simp: upsert_distinct inventory_key_def dest!: upsert_member)
    moreover have "users_ok (s\<lparr>db_inventory := ?inv\<rparr>)" "logs_ok (s\<lparr>db_inventory := ?inv\<rparr>)"
      using assms(1) by (auto simp: storage_ok_def users_ok_def logs_ok_def split: option.splits)
    ultimately show ?thesis using eq 1 assms(1) by (simp add: storage_ok_def)
  qed (use eq assms in auto)
qed

lemma createUser_keeps:
  assumes "storage_ok s"
  shows "storage_ok (snd (createUser P h p s))"
proof -
  obtain r s' where eq: "createUser P h p s = (r, s')" by fastforce
  then show ?thesis
  proof (cases rule: createUserE)
    case (1 fs)
    then show ?thesis using eq assms
      by (auto simp: storage_ok_def users_ok_def inventory_ok_def logs_ok_def user_known_def
          split: option.splits)
  qed (use eq assms in auto)
qed

lemma updateLoginAttempts_keeps:
  assumes "storage_ok s"
  shows "storage_ok (snd (updateLoginAttempts h ok ts s))"
proof -
  obtain r s' where eq: "updateLoginAttempts h ok ts s = (r, s')" by fastforce
  then show ?thesis
  proof (cases rule: updateLoginAttemptsE)
    case (1 fs)
    let ?f = "if ok then (\<lambda>r. r\<lparr>u_failed_attempts := 0\<rparr>)
      else (\<lambda>r. r\<lparr>u_failed_attempts := u_failed_attempts r + 1, u_last_failed_timestamp := ts\<rparr>)"
    have "storage_ok (s\<lparr>db_users := update_users h ?f (db_users s)\<rparr>)"
    proof (rule update_users_ok [OF _ _ assms])
      fix r assume "r \<in> set (db_users s)" "u_hostname r = h"
      with 1(3) assms show "0 \<le> u_failed_attempts (?f r) \<and> u_failed_attempts (?f r) \<le> 3 \<and>
          (u_is_locked (?f r) = 0 \<or> u_is_locked (?f r) = 1)"
        by (cases ok) (fastforce simp: storage_ok_def users_ok_def)+
    qed simp
    with eq 1 show ?thesis by simp
  qed (use eq assms in auto)
qed

lemma setClientLockStatus_keeps:
  assumes "storage_ok s"
  shows "storage_ok (snd (setClientLockStatus h b s))"
proof -
  obtain r s' where eq: "setClientLockStatus h b s = (r, s')" by fastforce
  then show ?thesis
  proof (cases rule: setClientLockStatusE)
    case (1 fs)
    have "storage_ok (s\<lparr>db_users := update_users h
        (\<lambda>r. r\<lparr>u_is_locked := (if b then 1 else 0)\<rparr>) (db_users s)\<rparr>)"
      by (rule update_users_ok [OF _ _ assms]) (use assms in \<open>auto simp: storage_ok_def users_ok_def\<close>)
    with eq 1 show ?thesis by simp
  qed (use eq assms in auto)
qed

lemma saveLogEntry_keeps:
  assumes "storage_ok s"
  shows "storage_ok (snd (saveLogEntry d l c m ci s))"
proof -
  obtain r s' where eq: "saveLogEntry d l c m ci s = (r, s')" by fastforce
  then show ?thesis
  proof (cases rule: saveLogEntryE)
    case (1 fs)
    then show ?thesis using eq assms
      by (auto simp: storage_ok_def users_ok_def inventory_ok_def logs_ok_def user_known_def
          less_Suc_eq split: option.splits)
  qed (use eq assms in auto)
qed

lemmas storage_ok_after [after_intros] =
  query_keeps [THEN after_of [where I = storage_ok]]
  saveStockUpdate_keeps [THEN after_of [where I = storage_ok]]
  createUser_keeps [THEN after_of [where I = storage_ok]]
  updateLoginAttempts_keeps [THEN after_of [where I = storage_ok]]
  setClientLockStatus_keeps [THEN after_of [where I = storage_ok]]
  saveLogEntry_keeps [THEN after_of [where I = storage_ok]]

subsection \<open>Opening a database\<close>

lemma sql_statement_frame:
  "sql_statement s = (r, s') \<Longrightarrow> \<exists>fs. s' = s\<lparr>db_faults := fs\<rparr>"
  using sql_statement_cases [of s] by auto

lemma initializeSchema_frame:
  assumes "initializeSchema s = (Inr (), s')"
  shows "\<exists>fs. s' = s\<lparr>db_foreign_keys := True, db_faults := fs,
    db_tables := insert LogsTable (insert InventoryTable (insert UsersTable (db_tables s)))\<rparr>"
  using assms unfolding initializeSchema_def create_table_def
  by (auto split: st_splits dest!: sql_statement_frame)

lemma Storage_construct_frame:
  assumes "Storage_construct s = (Inr (), s')"
  shows "\<exists>fs. s' = s\<lparr>db_foreign_keys := False, db_faults := fs\<rparr>"
  using assms unfolding Storage_construct_def
  by (fastforce split: st_splits dest!: sql_statement_frame)

lemma opened_database_ok:
  assumes "Storage_construct s = (Inr (), s1)" and "initializeSchema s1 = (Inr (), s2)"
    and "storage_ok (s\<lparr>db_foreign_keys := True\<rparr>)"
  shows "storage_ok s2 \<and> user_known s2 = user_known s"
proof -
  obtain fs where s1: "s1 = s\<lparr>db_foreign_keys := False, db_faults := fs\<rparr>"
    using Storage_construct_frame [OF assms(1)] by blast
  obtain fs' where "s2 = s1\<lparr>db_foreign_keys := True, db_faults := fs',
      db_tables := insert LogsTable (insert InventoryTable (insert UsersTable (db_tables s1)))\<rparr>"
    using initializeSchema_frame [OF assms(2)] by blast
  with assms(3) s1 show ?thesis
    by (simp add: storage_ok_def users_ok_def inventory_ok_def logs_ok_def user_known_def fun_eq_iff
        cong: option.case_cong)
qed

section \<open>Properties\<close>


end
