(* ===== verification/Config.thy ===== *)
theory Config
  imports Decimal
begin

text \<open>
  The configuration of the server (src/src/server/config.cpp, configValidator.cpp):
  command-line arguments, the YAML file and the environment variable.  The YAML library
  (yaml-cpp), the existence of files and \<^verbatim>\<open>getenv\<close> are parameters; \<^verbatim>\<open>std::stoi\<close> is
  written out over the theory Decimal.
\<close>

section \<open>std::stoi\<close>

definition stoi :: "string \<Rightarrow> int res" where
  "stoi str =
     (let (neg, u) = split_sign (dropWhile is_space str);
          ds = takeWhile is_digit u;
          v = (if neg then - int (digits_value ds) else int (digits_value ds))
      in if ds = [] then Inl InvalidArgument
         else if is_int32 v then Inr v else Inl OutOfRange)"

section \<open>The configuration object\<close>

record config =
  m_maxLogSize :: int
  m_maxClients :: int
  m_maxUnixConnections :: int
  m_blockTimeSeconds :: int
  m_tcpPort :: int
  m_udpPort :: int
  m_queueSize :: int
  m_metricHostPort :: string
  m_logPath :: string
  m_dbPath :: string
  m_secretPhrase :: string
  m_unixSocketPath :: string

definition MAX_PORT :: int where "MAX_PORT = 65535"

definition UPPER_PORT_LIMIT :: int where "UPPER_PORT_LIMIT = 65535"

definition CONFIG_FILE_PATH :: string where "CONFIG_FILE_PATH = ''./etc/config.yaml''"

text \<open>
  The nodes of the YAML library: \<open>yaml_get\<close> is \<^verbatim>\<open>node[key]\<close> (\<open>Inr None\<close> when there is
  no such key; it throws on a scalar), \<open>yaml_as_int\<close> and \<open>yaml_as_string\<close> are the
  conversions \<^verbatim>\<open>as<int>()\<close> and \<^verbatim>\<open>as<std::string>()\<close>, \<open>yaml_load\<close> is \<^verbatim>\<open>YAML::LoadFile\<close>.
\<close>

record 'y yaml_lib =
  yaml_load :: "string \<Rightarrow> 'y res"
  yaml_get :: "'y \<Rightarrow> string \<Rightarrow> 'y option res"
  yaml_is_scalar :: "'y \<Rightarrow> bool"
  yaml_as_int :: "'y \<Rightarrow> int res"
  yaml_as_string :: "'y \<Rightarrow> string res"

text \<open>
  \<^verbatim>\<open>if (!root[sec] || !root[sec][key] || !root[sec][key].IsScalar()) throw ...\<close>, followed
  by a conversion.
\<close>

definition scalar_at :: "'y yaml_lib \<Rightarrow> 'y \<Rightarrow> string \<Rightarrow> string \<Rightarrow> string \<Rightarrow> 'y res" where
  "scalar_at Y root sec key msg =
     bind_res (yaml_get Y root sec) (\<lambda>n. case n of
         None \<Rightarrow> Inl (RuntimeError msg)
       | Some n \<Rightarrow> bind_res (yaml_get Y n key) (\<lambda>v. case v of
           None \<Rightarrow> Inl (RuntimeError msg)
         | Some v \<Rightarrow> if yaml_is_scalar Y v then Inr v else Inl (RuntimeError msg)))"

definition int_setting ::
  "'y yaml_lib \<Rightarrow> 'y \<Rightarrow> string \<Rightarrow> string \<Rightarrow> string \<Rightarrow> (int \<Rightarrow> bool) \<Rightarrow> string \<Rightarrow> int res" where
  "int_setting Y root sec key msg valid msg' =
     bind_res (scalar_at Y root sec key msg) (\<lambda>v.
     bind_res (yaml_as_int Y v) (\<lambda>n. if valid n then Inr n else Inl (RuntimeError msg')))"

definition string_setting ::
  "'y yaml_lib \<Rightarrow> 'y \<Rightarrow> string \<Rightarrow> string \<Rightarrow> string \<Rightarrow> string \<Rightarrow> string res" where
  "string_setting Y root sec key msg msg' =
     bind_res (scalar_at Y root sec key msg) (\<lambda>v.
     bind_res (yaml_as_string Y v) (\<lambda>t. if t = [] then Inl (RuntimeError msg') else Inr t))"

definition validatePort ::
  "'y yaml_lib \<Rightarrow> 'y \<Rightarrow> string list \<Rightarrow> string option \<Rightarrow> config \<Rightarrow> config res" where
  "validatePort Y root args env_port c =
     bind_res (int_setting Y root ''server'' ''port''
       ''Port in config file is not set or is not a valid number''
       (\<lambda>p. \<not> (p \<le> 0 \<or> p > MAX_PORT)) ''Port in config file out of valid range'') (\<lambda>port.
     let c = c\<lparr>m_tcpPort := port, m_udpPort := port\<rparr> in
     bind_res (if 3 \<le> length args
        then bind_res (stoi (args ! 2)) (\<lambda>p. Inr (c\<lparr>m_tcpPort := p, m_udpPort := p\<rparr>))
        else Inr c) (\<lambda>c.
     if length args = 4 then bind_res (stoi (args ! 3)) (\<lambda>p. Inr (c\<lparr>m_udpPort := p\<rparr>))
     else if length args < 3 then
       (case env_port of
          None \<Rightarrow> Inr c
        | Some t \<Rightarrow>
            (case stoi t of
               Inl _ \<Rightarrow> Inl (RuntimeError ''Environment variable SERVER_PORT is not a valid number'')
             | Inr p \<Rightarrow>
                 if p \<le> 0 \<or> p > MAX_PORT
                 then Inl (RuntimeError ''Environment variable SERVER_PORT is not a valid number'')
                 else Inr (c\<lparr>m_tcpPort := p, m_udpPort := p\<rparr>)))
     else Inr c))"

definition serverConfig ::
  "'y yaml_lib \<Rightarrow> 'y \<Rightarrow> string list \<Rightarrow> string option \<Rightarrow> config \<Rightarrow> config res" where
  "serverConfig Y root args env_port c =
     bind_res (validatePort Y root args env_port c) (\<lambda>c.
     bind_res (int_setting Y root ''server'' ''max_clients''
       ''Max clients in config file is not set or is not a valid number'' (\<lambda>n. \<not> n \<le> 0)
       ''Max clients in config file must be a positive greater than zero integer'') (\<lambda>n.
     let c = c\<lparr>m_maxClients := n\<rparr> in
     bind_res (int_setting Y root ''server'' ''max_unix_connections''
       ''Max unix connections in config file is not set or is not a valid number'' (\<lambda>n. \<not> n \<le> 0)
       ''Max unix connections in config file must be a positive greater than zero integer'') (\<lambda>n.
     let c = c\<lparr>m_maxUnixConnections := n\<rparr> in
     bind_res (string_setting Y root ''server'' ''metric_host_port''
       ''Metric host-port in config file is not set or is not a valid string''
       ''Metric host-port in config file is empty'') (\<lambda>t.
     let c = c\<lparr>m_metricHostPort := t\<rparr> in
     bind_res (int_setting Y root ''server'' ''queue_size''
       ''Queue size in config file is not set or is not a valid number'' (\<lambda>n. \<not> n \<le> 0)
       ''Queue size in config file must be a positive greater than zero integer'') (\<lambda>n.
     let c = c\<lparr>m_queueSize := n\<rparr> in
     bind_res (string_setting Y root ''server'' ''unix_socket_path''
       ''Unix socket path in config file is not set or is not a valid string''
       ''Unix socket path in config file is empty'') (\<lambda>t.
     Inr (c\<lparr>m_unixSocketPath := t\<rparr>)))))))"

definition databaseConfig :: "'y yaml_lib \<Rightarrow> 'y \<Rightarrow> config \<Rightarrow> config res" where
  "databaseConfig Y root c =
     bind_res (string_setting Y root ''database'' ''path''
       ''Database path is not set in config file'' ''Database path is not set in config file'') (\<lambda>t.
     Inr (c\<lparr>m_dbPath := t\<rparr>))"

definition securityConfig :: "'y yaml_lib \<Rightarrow> 'y \<Rightarrow> config \<Rightarrow> config res" where
  "securityConfig Y root c =
     bind_res (string_setting Y root ''security'' ''unlock_secret_phrase''
       ''Secret phrase is not set in config file'' ''Secret phrase is not set in config file'') (\<lambda>t.
     let c = c\<lparr>m_secretPhrase := t\<rparr> in
     bind_res (int_setting Y root ''security'' ''block_time_seconds''
       ''Block time seconds is not set in config file'' (\<lambda>n. \<not> n \<le> 0)
       ''Block time seconds must be a positive greater than zero integer'') (\<lambda>n.
     Inr (c\<lparr>m_blockTimeSeconds := n\<rparr>)))"

definition logConfig :: "'y yaml_lib \<Rightarrow> 'y \<Rightarrow> config \<Rightarrow> config res" where
  "logConfig Y root c =
     bind_res (int_setting Y root ''logger'' ''max_log_size_mb''
       ''Max log size in config file is not set or is not a valid number'' (\<lambda>n. \<not> n \<le> 0)
       ''Max log size in config file must be a positive greater than zero integer'') (\<lambda>n.
     let c = c\<lparr>m_maxLogSize := n\<rparr> in
     bind_res (string_setting Y root ''logger'' ''log_path''
       ''Log path in config file is not set or is not a valid string''
       ''Log path in config file is not set or is empty'') (\<lambda>t.
     Inr (c\<lparr>m_logPath := t\<rparr>)))"

text \<open>The constructor; \<open>c0\<close> is the object before its members are assigned.\<close>

definition Config_construct ::
  "'y yaml_lib \<Rightarrow> string list \<Rightarrow> string option \<Rightarrow> config \<Rightarrow> config res" where
  "Config_construct Y args env_port c0 =
     bind_res (yaml_load Y (if length args = 1 then CONFIG_FILE_PATH else args ! 1)) (\<lambda>root.
     bind_res (serverConfig Y root args env_port c0) (\<lambda>c.
     bind_res (databaseConfig Y root c) (\<lambda>c.
     bind_res (securityConfig Y root c) (\<lambda>c.
     logConfig Y root c))))"

section \<open>ConfigValidator\<close>

definition port_argument_ok :: "string \<Rightarrow> bool" where
  "port_argument_ok a =
     (case stoi a of Inl _ \<Rightarrow> False | Inr p \<Rightarrow> \<not> (p \<le> 0 \<or> p > UPPER_PORT_LIMIT))"

definition validateArguments :: "(string \<Rightarrow> bool) \<Rightarrow> string list \<Rightarrow> bool" where
  "validateArguments exists args =
     (if length args > 4 then False
      else if length args = 1 then exists CONFIG_FILE_PATH
      else if \<not> exists (args ! 1) then False
      else if 3 \<le> length args \<and> \<not> port_argument_ok (args ! 2) then False
      else if length args = 4 \<and> \<not> port_argument_ok (args ! 3) then False
      else True)"

text \<open>What the rest of the server may assume of a configuration that was accepted.\<close>

definition config_ok :: "config \<Rightarrow> bool" where
  "config_ok c \<longleftrightarrow> 0 < m_tcpPort c \<and> m_tcpPort c \<le> MAX_PORT \<and> 0 < m_udpPort c \<and> m_udpPort c \<le> MAX_PORT
     \<and> 0 < m_maxClients c \<and> 0 < m_maxUnixConnections c \<and> 0 < m_queueSize c
     \<and> 0 < m_blockTimeSeconds c \<and> 0 < m_maxLogSize c \<and> m_metricHostPort c \<noteq> []
     \<and> m_unixSocketPath c \<noteq> [] \<and> m_dbPath c \<noteq> [] \<and> m_secretPhrase c \<noteq> [] \<and> m_logPath c \<noteq> []"

section \<open>Lemmas\<close>

lemma bind_res_InrE:
  assumes "bind_res r f = Inr y"
  obtains x where "r = Inr x" and "f x = Inr y"
  using assms by (cases r) auto

lemma int_setting_valid: "int_setting Y root sec key m valid m' = Inr n \<Longrightarrow> valid n"
  unfolding int_setting_def by (auto elim!: bind_res_InrE split: if_splits)

lemma string_setting_nonempty: "string_setting Y root sec key m m' = Inr t \<Longrightarrow> t \<noteq> []"
  unfolding string_setting_def by (auto elim!: bind_res_InrE split: if_splits)

lemma port_argument_okD: "port_argument_ok a \<Longrightarrow> \<exists>p. stoi a = Inr p \<and> 0 < p \<and> p \<le> MAX_PORT"
  by (auto simp: port_argument_ok_def UPPER_PORT_LIMIT_def MAX_PORT_def split: sum.splits)

lemma validateArguments_ports:
  "validateArguments ex args \<Longrightarrow> 3 \<le> length args \<Longrightarrow> port_argument_ok (args ! 2)"
  "validateArguments ex args \<Longrightarrow> length args = 4 \<Longrightarrow> port_argument_ok (args ! 3)"
  by (auto simp: validateArguments_def split: if_splits)

lemma validatePort_ports:
  assumes "validatePort Y root args env c = Inr c'" and "validateArguments ex args"
  shows "0 < m_tcpPort c' \<and> m_tcpPort c' \<le> MAX_PORT \<and> 0 < m_udpPort c' \<and> m_udpPort c' \<le> MAX_PORT"
  using assms(1) validateArguments_ports [OF assms(2)]
  unfolding validatePort_def Let_def
  by (auto elim!: bind_res_InrE dest!: int_setting_valid port_argument_okD
      split: if_splits option.splits sum.splits)

subsection \<open>std::stoi reads back\<close>

lemma stoi_nat_to_string: "is_int32 (int n) \<Longrightarrow> stoi (nat_to_string n) = Inr (int n)"
proof -
  assume r: "is_int32 (int n)"
  obtain c cs where ds: "nat_to_string n = c # cs" and "is_digit c" "list_all is_digit cs"
    using nat_to_string_digits [of n] by (cases "nat_to_string n") auto
  then have "dropWhile is_space (c # cs) = c # cs" and "split_sign (c # cs) = (False, c # cs)"
    and "takeWhile is_digit (c # cs) = c # cs"
    using digit_no_space_sign [of c] by (auto simp: split_sign_def list_all_iff)
  with ds r show ?thesis
    using digits_value_nat_to_string [of n] by (simp add: stoi_def)
qed

lemma stoi_negative: "is_int32 (- int n) \<Longrightarrow> stoi (CHR ''-'' # nat_to_string n) = Inr (- int n)"
proof -
  assume r: "is_int32 (- int n)"
  have tw: "takeWhile is_digit (nat_to_string n) = nat_to_string n"
    using nat_to_string_digits [of n] by (auto simp: takeWhile_eq_all_conv list_all_iff)
  have "\<not> is_space (CHR ''-'')" by (simp add: is_space_def)
  with nat_to_string_digits [of n] digits_value_nat_to_string [of n] r show ?thesis
    by (simp add: stoi_def split_sign_def tw)
qed

subsection \<open>What the setters leave alone\<close>

lemma serverConfig_fields:
  assumes "serverConfig Y root args env c = Inr c'" and "validateArguments ex args"
  shows "0 < m_tcpPort c' \<and> m_tcpPort c' \<le> MAX_PORT \<and> 0 < m_udpPort c' \<and> m_udpPort c' \<le> MAX_PORT
    \<and> 0 < m_maxClients c' \<and> 0 < m_maxUnixConnections c' \<and> 0 < m_queueSize c'
    \<and> m_metricHostPort c' \<noteq> [] \<and> m_unixSocketPath c' \<noteq> []"
  using assms(1) unfolding serverConfig_def Let_def
  by (auto elim!: bind_res_InrE dest!: int_setting_valid string_setting_nonempty
      dest: validatePort_ports [OF _ assms(2)])

lemma databaseConfig_fields:
  "databaseConfig Y root c = Inr c' \<Longrightarrow> m_dbPath c' \<noteq> [] \<and> c' = c\<lparr>m_dbPath := m_dbPath c'\<rparr>"
  unfolding databaseConfig_def
  by (auto elim!: bind_res_InrE dest!: string_setting_nonempty)

lemma securityConfig_fields:
  "securityConfig Y root c = Inr c' \<Longrightarrow> m_secretPhrase c' \<noteq> [] \<and> 0 < m_blockTimeSeconds c'
     \<and> c' = c\<lparr>m_secretPhrase := m_secretPhrase c', m_blockTimeSeconds := m_blockTimeSeconds c'\<rparr>"
  unfolding securityConfig_def Let_def
  by (auto elim!: bind_res_InrE dest!: int_setting_valid string_setting_nonempty)

lemma logConfig_fields:
  "logConfig Y root c = Inr c' \<Longrightarrow> m_logPath c' \<noteq> [] \<and> 0 < m_maxLogSize c'
     \<and> c' = c\<lparr>m_maxLogSize := m_maxLogSize c', m_logPath := m_logPath c'\<rparr>"
  unfolding logConfig_def Let_def
  by (auto elim!: bind_res_InrE dest!: int_setting_valid string_setting_nonempty)

lemma Config_construct_ok:
  assumes "validateArguments ex args" and "Config_construct Y args env c0 = Inr c"
  shows "config_ok c"
proof -
  from assms(2) obtain root c1 c2 c3 where
    s: "serverConfig Y root args env c0 = Inr c1" and d: "databaseConfig Y root c1 = Inr c2"
    and se: "securityConfig Y root c2 = Inr c3" and l: "logConfig Y root c3 = Inr c"
    unfolding Config_construct_def by (elim bind_res_InrE)
  have "m_tcpPort c = m_tcpPort c1 \<and> m_udpPort c = m_udpPort c1 \<and> m_maxClients c = m_maxClients c1
      \<and> m_maxUnixConnections c = m_maxUnixConnections c1 \<and> m_queueSize c = m_queueSize c1
      \<and> m_metricHostPort c = m_metricHostPort c1 \<and> m_unixSocketPath c = m_unixSocketPath c1
      \<and> m_dbPath c = m_dbPath c2 \<and> m_secretPhrase c = m_secretPhrase c3
      \<and> m_blockTimeSeconds c = m_blockTimeSeconds c3"
    by (subst (1 2 3 4 5 6 7 8 9 10) logConfig_fields [OF l, THEN conjunct2, THEN conjunct2],
        subst (1 2 3 4 5 6 7 8) securityConfig_fields [OF se, THEN conjunct2, THEN conjunct2],
        subst (1 2 3 4 5 6 7) databaseConfig_fields [OF d, THEN conjunct2]) simp
  with serverConfig_fields [OF s assms(1)] databaseConfig_fields [OF d]
    securityConfig_fields [OF se] logConfig_fields [OF l]
  show ?thesis unfolding config_ok_def by presburger
qed

section \<open>Properties\<close>

text \<open>
  C28. a configuration that is accepted is usable.  When the command line passed
  validateArguments and the constructor of Config returned, both ports are in
  1..65535, every count and time is positive and every path and phrase is not empty.
\<close>

theorem accepted_config_ok:
  assumes "validateArguments ex args" and "Config_construct Y args env c0 = Inr c"
  shows "config_ok c"
  by (rule Config_construct_ok [OF assms])

text \<open>
  The comment in validatePort, "args are already validated, no need to check for
  exceptions", holds.  After validateArguments accepted the command line, the two calls of
  std::stoi on the port arguments return, and the ports are the numbers they return.
\<close>

theorem validated_ports_do_not_throw:
  assumes "validateArguments ex args" and "3 \<le> length args"
    and "int_setting Y root ''server'' ''port''
       ''Port in config file is not set or is not a valid number''
       (\<lambda>p. \<not> (p \<le> 0 \<or> p > MAX_PORT)) ''Port in config file out of valid range'' = Inr port"
  shows "\<exists>t u. stoi (args ! 2) = Inr t \<and> (if length args = 4 then stoi (args ! 3) = Inr u else u = t)
    \<and> validatePort Y root args env c = Inr (c\<lparr>m_tcpPort := t, m_udpPort := u\<rparr>)"
proof -
  from validateArguments_ports(1) [OF assms(1,2)] obtain t where t: "stoi (args ! 2) = Inr t"
    by (auto dest: port_argument_okD)
  show ?thesis
  proof (cases "length args = 4")
    case True
    from validateArguments_ports(2) [OF assms(1) True] obtain u where "stoi (args ! 3) = Inr u"
      by (auto dest: port_argument_okD)
    with True t assms(3) show ?thesis by (auto simp: validatePort_def)
  next
    case False
    with t assms(2,3) show ?thesis by (auto simp: validatePort_def)
  qed
qed

text \<open>
  \<^verbatim>\<open>std::stoi\<close> reads back what std::to_string prints, for every value of int.
\<close>

theorem stoi_to_string:
  assumes "is_int32 k"
  shows "stoi (to_string k) = Inr k"
  using assms stoi_nat_to_string [of "nat k"] stoi_negative [of "nat (- k)"]
  by (cases "k < 0") (simp_all add: to_string_def)

end
