(* ===== verification/Logger.thy ===== *)
theory Logger
  imports Storage Config Calendar
begin

text \<open>
  The class Logger (src/src/server/logger.cpp): every message goes to the logs table and,
  when the log file is open, to the file; a file that has reached its maximum size is
  rotated and compressed first.  The state adds to that of Storage the clock, the error
  stream, the log file and the file system.  \<open>fs_faults\<close> tells which of the next file
  operations fail.  A function declared \<^verbatim>\<open>noexcept\<close> that lets an exception out ends the
  process: \<open>terminated\<close>.
\<close>

datatype LogLevel = DEBUG | INFO | WARNING | ERROR

record logger = storage +
  clock_now :: nat
  err_stream :: "string list"
  m_logFile :: "string option"
  m_fileEnabled :: bool
  fs_files :: "string \<rightharpoonup> string"
  fs_faults :: "bool list"
  terminated :: bool

section \<open>Files\<close>

definition fs_operation :: "'z logger_scheme \<Rightarrow> bool \<times> 'z logger_scheme" where
  "fs_operation s =
     (case fs_faults s of [] \<Rightarrow> (True, s) | f # fs \<Rightarrow> (\<not> f, s\<lparr>fs_faults := fs\<rparr>))"

definition to_err :: "string \<Rightarrow> 'z logger_scheme \<Rightarrow> 'z logger_scheme" where
  "to_err t s = s\<lparr>err_stream := err_stream s @ [t]\<rparr>"

text \<open>\<^verbatim>\<open>std::filesystem::path::parent_path\<close>.\<close>

definition parent_path :: "string \<Rightarrow> string" where
  "parent_path p =
     (let d = rev (dropWhile (\<lambda>c. c = CHR ''/'') (dropWhile (\<lambda>c. c \<noteq> CHR ''/'') (rev p)))
      in if d = [] \<and> take 1 p = ''/'' then ''/'' else d)"

definition BUFFER_CHUNK_RW_SIZE :: nat where "BUFFER_CHUNK_RW_SIZE = 16384"

definition MB_MULTIPLIER :: nat where "MB_MULTIPLIER = 1048576"

text \<open>The pieces that successive calls of \<^verbatim>\<open>fread\<close> return.\<close>

function read_chunks :: "nat \<Rightarrow> string \<Rightarrow> string list" where
  "read_chunks n bs = (if bs = [] \<or> n = 0 then [] else take n bs # read_chunks n (drop n bs))"
  by pat_completeness auto
termination
  by (relation "measure (length \<circ> snd)") auto

declare read_chunks.simps [simp del]

section \<open>The methods\<close>

definition levelToString :: "LogLevel \<Rightarrow> string" where
  "levelToString level =
     (case level of DEBUG \<Rightarrow> ''DEBUG'' | INFO \<Rightarrow> ''INFO'' | WARNING \<Rightarrow> ''WARNING'' | ERROR \<Rightarrow> ''ERROR'')"

definition isFileEnabled :: "'z logger_scheme \<Rightarrow> bool" where
  "isFileEnabled s = m_fileEnabled s"

definition isLogFileOpen :: "'z logger_scheme \<Rightarrow> bool" where
  "isLogFileOpen s = (m_logFile s \<noteq> None)"

definition openLogFile ::
  "'j platform \<Rightarrow> string \<Rightarrow> 'z logger_scheme \<Rightarrow> bool \<times> 'z logger_scheme" where
  "openLogFile P filePath s =
     (let (dir_ok, s) = (if parent_path filePath \<noteq> [] then fs_operation s else (True, s)) in
      if \<not> dir_ok then
        (False, (to_err (''Logger: exception opening log file: '' @ exn_what P FilesystemError @ ''\<newline>'') s)
                  \<lparr>m_fileEnabled := False\<rparr>)
      else
        (let (open_ok, s) = (if m_logFile s = None then fs_operation s else (True, s)) in
         if \<not> open_ok then
           (False, (to_err (''Logger: failed to open log file: '' @ filePath @ ''\<newline>'') s)
                     \<lparr>m_fileEnabled := False\<rparr>)
         else
           (True, s\<lparr>m_fileEnabled := True,
                    fs_files := (if m_logFile s \<noteq> None \<or> fs_files s filePath \<noteq> None then fs_files s
                                 else (fs_files s)(filePath \<mapsto> [])),
                    m_logFile := (if m_logFile s = None then Some filePath else m_logFile s)\<rparr>)))"

definition closeLogFile :: "'z logger_scheme \<Rightarrow> 'z logger_scheme" where
  "closeLogFile s = (if m_logFile s \<noteq> None then s\<lparr>m_logFile := None, m_fileEnabled := False\<rparr> else s)"

definition compressFileGzip ::
  "'j platform \<Rightarrow> string \<Rightarrow> string \<Rightarrow> 'z logger_scheme \<Rightarrow> bool \<times> 'z logger_scheme" where
  "compressFileGzip P srcPath destPath s =
     (let (open_ok, s) = fs_operation s in
      case fs_files s srcPath of
        None \<Rightarrow> (False, s)
      | Some bs \<Rightarrow>
          if \<not> open_ok then (False, s)
          else
            (let (write_ok, s) = fs_operation s in
             if bs \<noteq> [] \<and> \<not> write_ok
             then (False, s\<lparr>fs_files := (fs_files s)(destPath \<mapsto> gzip_chunks P [])\<rparr>)
             else (True, s\<lparr>fs_files := (fs_files s)(destPath \<mapsto>
                     gzip_chunks P (read_chunks BUFFER_CHUNK_RW_SIZE bs))\<rparr>)))"

definition rotated_path :: "config \<Rightarrow> 'z logger_scheme \<Rightarrow> string" where
  "rotated_path cfg s =
     parent_path (m_logPath cfg) @ ''/server_'' @ to_string (int (clock_now s)) @ ''.log''"

definition reopen_after_rotation ::
  "'j platform \<Rightarrow> config \<Rightarrow> 'z logger_scheme \<Rightarrow> unit res \<times> 'z logger_scheme" where
  "reopen_after_rotation P cfg s =
     (case openLogFile P (m_logPath cfg) s of
        (True, s) \<Rightarrow> (Inr (), s)
      | (False, s) \<Rightarrow> (Inr (), to_err ''Logger: Failed to reopen log file after rotation.\<newline>'' s))"

definition logRotation ::
  "'j platform \<Rightarrow> config \<Rightarrow> 'z logger_scheme \<Rightarrow> unit res \<times> 'z logger_scheme" where
  "logRotation P cfg s =
     (let s = closeLogFile s; oldPath = m_logPath cfg in
      case fs_files s oldPath of
        None \<Rightarrow> reopen_after_rotation P cfg s
      | Some bs \<Rightarrow>
          (let newLogPath = rotated_path cfg s;
               (rename_ok, s) = fs_operation s in
           if \<not> rename_ok then (Inl FilesystemError, s)
           else
             (let s = s\<lparr>fs_files := (fs_files s)(oldPath := None, newLogPath \<mapsto> bs)\<rparr>;
                  (gz_ok, s) = compressFileGzip P newLogPath (newLogPath @ ''.gz'') s in
              if gz_ok then
                (let (remove_ok, s) = fs_operation s in
                 if remove_ok
                 then reopen_after_rotation P cfg (s\<lparr>fs_files := (fs_files s)(newLogPath := None)\<rparr>)
                 else (Inl FilesystemError, s))
              else reopen_after_rotation P cfg
                     (to_err ''Logger: Failed to compress rotated log file.\<newline>'' s))))"

definition rotation_threshold :: "config \<Rightarrow> nat" where
  "rotation_threshold cfg = unat (word_of_int (m_maxLogSize cfg) * of_nat MB_MULTIPLIER :: 64 word)"

definition shouldRotate ::
  "'j platform \<Rightarrow> config \<Rightarrow> 'z logger_scheme \<Rightarrow> bool \<times> 'z logger_scheme" where
  "shouldRotate P cfg s =
     (case fs_files s (m_logPath cfg) of
        None \<Rightarrow>
          (False, to_err (''Logger: Failed to check log file size: '' @ exn_what P FilesystemError @ ''\<newline>'') s)
      | Some bs \<Rightarrow> (rotation_threshold cfg \<le> length bs, s))"

definition log_line :: "string \<Rightarrow> string \<Rightarrow> string \<Rightarrow> string \<Rightarrow> string option \<Rightarrow> string" where
  "log_line date component level_str message clientId =
     ''['' @ date @ '']'' @ '' ['' @ component @ '']'' @ '' ['' @ level_str @ ''] '' @ message @
     (case clientId of None \<Rightarrow> [] | Some c \<Rightarrow> '' (client: '' @ c @ '')'') @ ''\<newline>''"

definition append_to_log_file :: "string \<Rightarrow> 'z logger_scheme \<Rightarrow> 'z logger_scheme" where
  "append_to_log_file line s =
     (case m_logFile s of
        None \<Rightarrow> s
      | Some f \<Rightarrow> s\<lparr>fs_files := (fs_files s)(f \<mapsto>
          (case fs_files s f of None \<Rightarrow> [] | Some bs \<Rightarrow> bs) @ line)\<rparr>)"

definition rotate_if_needed ::
  "'j platform \<Rightarrow> config \<Rightarrow> 'z logger_scheme \<Rightarrow> 'z logger_scheme" where
  "rotate_if_needed P cfg s =
     (case shouldRotate P cfg s of
        (False, s) \<Rightarrow> s
      | (True, s) \<Rightarrow>
          (case logRotation P cfg s of
             (Inr _, s) \<Rightarrow> s
           | (Inl _, s) \<Rightarrow> s\<lparr>terminated := True\<rparr>))"

definition Logger_log ::
  "'j platform \<Rightarrow> config \<Rightarrow> LogLevel \<Rightarrow> string \<Rightarrow> string \<Rightarrow> string option
     \<Rightarrow> 'z logger_scheme \<Rightarrow> 'z logger_scheme" where
  "Logger_log P cfg level component message clientId s =
     (let date = log_date (clock_now s);
          level_str = levelToString level;
          s = rotate_if_needed P cfg s in
      if terminated s then s
      else
        (let s = (case saveLogEntry date level_str component message clientId s of
               (Inr _, s) \<Rightarrow> s
             | (Inl e, s) \<Rightarrow>
                 to_err (''CRITICAL LOGGER FAILURE: Could not persist log. DB Error: '' @ exn_what P e @ ''\<newline>'') s)
         in if m_fileEnabled s
            then append_to_log_file (log_line date component level_str message clientId) s
            else s))"

section \<open>What logging leaves alone\<close>

text \<open>
  A function of the state that does not read the fields a group of methods writes has the
  same value after them.  The two locales state this once, for the methods on files and for
  log itself; every field of the server that logging does not touch interprets them.
\<close>

locale file_insensitive =
  fixes F :: "'z logger_scheme \<Rightarrow> 'a"
  assumes F_err: "F (s\<lparr>err_stream := e\<rparr>) = F s"
    and F_logFile: "F (s\<lparr>m_logFile := l\<rparr>) = F s"
    and F_fileEnabled: "F (s\<lparr>m_fileEnabled := b\<rparr>) = F s"
    and F_files: "F (s\<lparr>fs_files := fl\<rparr>) = F s"
    and F_fs_faults: "F (s\<lparr>fs_faults := ff\<rparr>) = F s"
    and F_terminated: "F (s\<lparr>terminated := b\<rparr>) = F s"
begin

lemmas F_fields = F_err F_logFile F_fileEnabled F_files F_fs_faults F_terminated

lemma to_err_same [simp]: "F (to_err t s) = F s"
  by (simp add: to_err_def F_fields)

lemma fs_operation_same: "fs_operation s = (b, s') \<Longrightarrow> F s' = F s"
  by (auto simp: fs_operation_def F_fields split: list.splits)

lemma openLogFile_same: "openLogFile P f s = (b, s') \<Longrightarrow> F s' = F s"
  unfolding openLogFile_def Let_def
  by (auto simp: F_fields to_err_def split: prod.splits if_splits dest!: fs_operation_same)

lemma closeLogFile_same [simp]: "F (closeLogFile s) = F s"
  by (simp add: closeLogFile_def F_fields)

lemma compressFileGzip_same: "compressFileGzip P a b s = (r, s') \<Longrightarrow> F s' = F s"
  unfolding compressFileGzip_def Let_def
  by (auto simp: F_fields split: prod.splits if_splits option.splits dest!: fs_operation_same)

lemma reopen_same: "reopen_after_rotation P cfg s = (r, s') \<Longrightarrow> F s' = F s"
  unfolding reopen_after_rotation_def
  by (auto split: prod.splits bool.splits dest!: openLogFile_same)

lemma logRotation_same: "logRotation P cfg s = (r, s') \<Longrightarrow> F s' = F s"
  unfolding logRotation_def Let_def
  by (auto simp: F_fields split: prod.splits if_splits option.splits
      dest!: fs_operation_same compressFileGzip_same reopen_same)

lemma shouldRotate_same: "shouldRotate P cfg s = (b, s') \<Longrightarrow> F s' = F s"
  unfolding shouldRotate_def by (auto split: option.splits)

lemma rotate_if_needed_same [simp]: "F (rotate_if_needed P cfg s) = F s"
  unfolding rotate_if_needed_def
  by (auto simp: F_fields split: prod.splits bool.splits sum.splits
      dest!: shouldRotate_same logRotation_same)

lemma append_to_log_file_same [simp]: "F (append_to_log_file l s) = F s"
  by (simp add: append_to_log_file_def F_fields split: option.splits)

end

locale log_insensitive = file_insensitive +
  assumes F_db_faults: "F (s\<lparr>db_faults := fs\<rparr>) = F s"
    and F_db_logs: "F (s\<lparr>db_logs := ls\<rparr>) = F s"
    and F_db_next_log_id: "F (s\<lparr>db_next_log_id := n\<rparr>) = F s"
begin

lemma saveLogEntry_same: "saveLogEntry d l c m ci s = (r, s') \<Longrightarrow> F s' = F s"
  by (erule saveLogEntryE) (simp_all add: F_db_faults F_db_logs F_db_next_log_id)

lemma Logger_log_same [simp]: "F (Logger_log P cfg level c m ci s) = F s"
proof -
  have *: "F (case saveLogEntry d l c m ci s0 of (Inr _, s) \<Rightarrow> s | (Inl e, s) \<Rightarrow> to_err (w e) s) = F s0"
    for d l s0 w
    by (auto split: prod.splits sum.splits dest!: saveLogEntry_same)
  show ?thesis unfolding Logger_log_def Let_def by (simp add: *)
qed

end

interpretation users_log: log_insensitive db_users
  by unfold_locales simp_all

interpretation inventory_log: log_insensitive db_inventory
  by unfold_locales simp_all

interpretation tables_log: log_insensitive db_tables
  by unfold_locales simp_all

interpretation foreign_keys_log: log_insensitive db_foreign_keys
  by unfold_locales simp_all

interpretation draws_log: log_insensitive bcrypt_draws
  by unfold_locales simp_all

interpretation clock_log: log_insensitive clock_now
  by unfold_locales simp_all

interpretation known_log: log_insensitive user_known
  by unfold_locales (simp_all add: user_known_def fun_eq_iff)

interpretation stock_log: log_insensitive stock_of
  by unfold_locales (simp_all add: stock_of_def fun_eq_iff)

interpretation user_log: log_insensitive user_of
  by unfold_locales (simp_all add: user_of_def fun_eq_iff)

interpretation ok_file: file_insensitive storage_ok
  by unfold_locales (auto simp: storage_ok_def users_ok_def inventory_ok_def logs_ok_def
      user_known_def split: option.splits)

interpretation logs_file: file_insensitive db_logs
  by unfold_locales simp_all

lemma Logger_log_keeps:
  assumes "storage_ok s"
  shows "storage_ok (Logger_log P cfg level c m ci s)"
proof -
  have *: "storage_ok (case saveLogEntry d l c m ci s0 of (Inr _, s) \<Rightarrow> s | (Inl e, s) \<Rightarrow> to_err (w e) s)"
    if "storage_ok s0" for d l s0 w
    using saveLogEntry_keeps [OF that, of d l c m ci] by (auto split: prod.splits sum.splits)
  show ?thesis using assms unfolding Logger_log_def Let_def by (simp add: *)
qed

interpretation faults_file: file_insensitive db_faults
  by unfold_locales simp_all

text \<open>A database that answers still answers after a call of log.\<close>

lemma Logger_log_ready [simp]:
  assumes "storage_ready s"
  shows "storage_ready (Logger_log P cfg level c m ci s)"
proof -
  have save: "saveLogEntry d l c m ci s0 = (r, s1) \<Longrightarrow> db_faults s0 = [] \<Longrightarrow> db_faults s1 = []" for d l s0 r s1
    by (auto simp: saveLogEntry_def sql_on_def sql_statement_def split: st_splits if_splits option.splits)
  have *: "db_faults (case saveLogEntry d l c m ci s0 of (Inr _, s) \<Rightarrow> s | (Inl e, s) \<Rightarrow> to_err (w e) s) = []"
    if "db_faults s0 = []" for d l s0 w
    using that by (auto split: prod.splits sum.splits dest: save)
  have "db_faults (Logger_log P cfg level c m ci s) = []"
    using assms unfolding Logger_log_def Let_def storage_ready_def by (simp add: *)
  with assms show ?thesis by (simp add: storage_ready_def Logger_log_keeps)
qed

end
