(* ===== verification/Traffic.thy ===== *)
theory Traffic
  imports Logger
begin

text \<open>
  The class TrafficReporter (src/src/server/trafficReporter.cpp): one counter per family
  (messages, errors, reconnections), protocol and direction.  The Prometheus registry is a
  library; a counter is the number it holds, and a family's map of counters is a partial
  function from the pair of labels.  \<open>m_exposer\<close> is the address of the running HTTP server
  of the library, if there is one.
\<close>

type_synonym label_key = "string \<times> string"

record traffic = logger +
  m_message_counters :: "label_key \<rightharpoonup> nat"
  m_error_counters :: "label_key \<rightharpoonup> nat"
  m_reconnection_counters :: "label_key \<rightharpoonup> nat"
  m_exposer :: "string option"

text \<open>The constructor with initPrometheusMetrics: three families without counters.\<close>

definition TrafficReporter_construct :: "'z traffic_scheme \<Rightarrow> 'z traffic_scheme" where
  "TrafficReporter_construct s =
     s\<lparr>m_message_counters := Map.empty, m_error_counters := Map.empty, m_reconnection_counters := Map.empty,
       m_exposer := None\<rparr>"

text \<open>\<open>started\<close>: the constructor of the library's HTTP server and the registration do not throw.\<close>

definition startPrometheusExposer :: "bool \<Rightarrow> string \<Rightarrow> 'z traffic_scheme \<Rightarrow> int \<times> 'z traffic_scheme" where
  "startPrometheusExposer started metricHostPort s =
     (if started then (0, s\<lparr>m_exposer := Some metricHostPort\<rparr>) else (-1, s))"

definition bump_counter :: "label_key \<Rightarrow> (label_key \<rightharpoonup> nat) \<Rightarrow> (label_key \<rightharpoonup> nat)" where
  "bump_counter key m =
     (let m = (if m key = None then m(key \<mapsto> 0) else m)
      in m(key \<mapsto> Suc (case m key of None \<Rightarrow> 0 | Some n \<Rightarrow> n)))"

definition read_counter :: "label_key \<Rightarrow> (label_key \<rightharpoonup> nat) \<Rightarrow> nat" where
  "read_counter key m = (case m key of None \<Rightarrow> 0 | Some n \<Rightarrow> n)"

definition incrementMessage :: "string \<Rightarrow> string \<Rightarrow> 'z traffic_scheme \<Rightarrow> 'z traffic_scheme" where
  "incrementMessage protocol direction s =
     s\<lparr>m_message_counters := bump_counter (protocol, direction) (m_message_counters s)\<rparr>"

definition incrementError :: "string \<Rightarrow> string \<Rightarrow> 'z traffic_scheme \<Rightarrow> 'z traffic_scheme" where
  "incrementError protocol direction s =
     s\<lparr>m_error_counters := bump_counter (protocol, direction) (m_error_counters s)\<rparr>"

definition incrementReconnection :: "string \<Rightarrow> string \<Rightarrow> 'z traffic_scheme \<Rightarrow> 'z traffic_scheme" where
  "incrementReconnection protocol direction s =
     s\<lparr>m_reconnection_counters := bump_counter (protocol, direction) (m_reconnection_counters s)\<rparr>"

definition getMessageCount :: "string \<Rightarrow> string \<Rightarrow> 'z traffic_scheme \<Rightarrow> nat" where
  "getMessageCount protocol direction s = read_counter (protocol, direction) (m_message_counters s)"

definition getErrorCount :: "string \<Rightarrow> string \<Rightarrow> 'z traffic_scheme \<Rightarrow> nat" where
  "getErrorCount protocol direction s = read_counter (protocol, direction) (m_error_counters s)"

definition getReconnectionCount :: "string \<Rightarrow> string \<Rightarrow> 'z traffic_scheme \<Rightarrow> nat" where
  "getReconnectionCount protocol direction s = read_counter (protocol, direction) (m_reconnection_counters s)"

section \<open>Lemmas\<close>

lemma read_bump [simp]:
  "read_counter k (bump_counter k' m) = read_counter k m + (if k = k' then 1 else 0)"
  by (simp add: read_counter_def bump_counter_def Let_def)

locale traffic_insensitive = log_insensitive F for F :: "'z traffic_scheme \<Rightarrow> 'a" +
  assumes F_messages: "F (s\<lparr>m_message_counters := c\<rparr>) = F s"
    and F_errors: "F (s\<lparr>m_error_counters := c\<rparr>) = F s"
    and F_reconnections: "F (s\<lparr>m_reconnection_counters := c\<rparr>) = F s"
    and F_exposer: "F (s\<lparr>m_exposer := e\<rparr>) = F s"
begin

lemma reporter_same [simp]:
  "F (TrafficReporter_construct s) = F s"
  "F (snd (startPrometheusExposer b a s)) = F s"
  by (simp_all add: TrafficReporter_construct_def startPrometheusExposer_def F_messages F_errors F_reconnections F_exposer)

lemma increment_same [simp]:
  "F (incrementMessage p d s) = F s"
  "F (incrementError p d s) = F s"
  "F (incrementReconnection p d s) = F s"
  by (simp_all add: incrementMessage_def incrementError_def incrementReconnection_def
      F_messages F_errors F_reconnections)

end

interpretation users_traffic: traffic_insensitive db_users
  by unfold_locales simp_all

interpretation inventory_traffic: traffic_insensitive db_inventory
  by unfold_locales simp_all

interpretation known_traffic: traffic_insensitive user_known
  by unfold_locales (simp_all add: user_known_def fun_eq_iff)

interpretation stock_traffic: traffic_insensitive stock_of
  by unfold_locales (simp_all add: stock_of_def fun_eq_iff)

interpretation user_traffic: traffic_insensitive user_of
  by unfold_locales (simp_all add: user_of_def fun_eq_iff)

interpretation tables_traffic: traffic_insensitive db_tables
  by unfold_locales simp_all

interpretation foreign_keys_traffic: traffic_insensitive db_foreign_keys
  by unfold_locales simp_all

interpretation clock_traffic: traffic_insensitive clock_now
  by unfold_locales simp_all

interpretation errors_log: log_insensitive m_error_counters
  by unfold_locales simp_all

interpretation messages_log: log_insensitive m_message_counters
  by unfold_locales simp_all

interpretation reconnections_log: log_insensitive m_reconnection_counters
  by unfold_locales simp_all

text \<open>
  Functions of the state that do not read the users, or the stock, of the database, and the
  fields of the components that extend the state further, which read nothing of it.
\<close>

locale user_insensitive = traffic_insensitive F for F :: "'z traffic_scheme \<Rightarrow> 'a" +
  assumes F_users: "F (s\<lparr>db_users := u\<rparr>) = F s"
    and F_draws: "F (s\<lparr>bcrypt_draws := d\<rparr>) = F s"
begin

lemmas user_fields = F_users F_draws F_db_faults

lemma user_same:
  "F s = v \<Longrightarrow> after (\<lambda>s. F s = v) (userExists h s)"
  "F s = v \<Longrightarrow> after (\<lambda>s. F s = v) (getUserLoginData h s)"
  "F s = v \<Longrightarrow> after (\<lambda>s. F s = v) (Storage_isClientLocked h s)"
  "F s = v \<Longrightarrow> after (\<lambda>s. F s = v) (getInventoryHistoryTransaction P h s)"
  using query_frame(3) [of h s] query_frame(4) [of h s] query_frame(6) [of h s] query_frame(5) [of P h s]
  by (auto simp: after_def user_fields)

lemma createUser_same: "F s = v \<Longrightarrow> after (\<lambda>s. F s = v) (createUser P h p s)"
  by (rule afterI, erule createUserE) (simp_all add: user_fields)

lemma updateLoginAttempts_same: "F s = v \<Longrightarrow> after (\<lambda>s. F s = v) (updateLoginAttempts h ok ts s)"
  by (rule afterI, erule updateLoginAttemptsE) (simp_all add: user_fields)

lemma setClientLockStatus_same: "F s = v \<Longrightarrow> after (\<lambda>s. F s = v) (setClientLockStatus h b s)"
  by (rule afterI, erule setClientLockStatusE) (simp_all add: user_fields)

lemmas user_op_same = user_same createUser_same updateLoginAttempts_same setClientLockStatus_same

end

locale stock_insensitive = traffic_insensitive F for F :: "'z traffic_scheme \<Rightarrow> 'a" +
  assumes F_inventory: "F (s\<lparr>db_inventory := i\<rparr>) = F s"
begin

lemma stock_op_same:
  "F s = v \<Longrightarrow> after (\<lambda>s. F s = v) (Storage_getStock c cat it s)"
  "F s = v \<Longrightarrow> after (\<lambda>s. F s = v) (getFullInventory c s)"
  "F s = v \<Longrightarrow> after (\<lambda>s. F s = v) (getInventoryHistoryTransaction P c s)"
  using query_frame(1) [of c cat it s] query_frame(2) [of c s] query_frame(5) [of P c s]
  by (auto simp: after_def F_db_faults)

lemma saveStockUpdate_same: "F s = v \<Longrightarrow> after (\<lambda>s. F s = v) (saveStockUpdate c cat it q s)"
  by (rule afterI, erule saveStockUpdateE) (simp_all add: F_inventory F_db_faults)

end

locale component_field = user_insensitive F + stock_insensitive F
  for F :: "'z traffic_scheme \<Rightarrow> 'a"

lemma storage_ok_increment [simp]:
  "storage_ok (incrementMessage p d s) = storage_ok s"
  "storage_ok (incrementError p d s) = storage_ok s"
  "storage_ok (incrementReconnection p d s) = storage_ok s"
  by (auto simp: incrementMessage_def incrementError_def incrementReconnection_def storage_ok_def
      users_ok_def inventory_ok_def logs_ok_def user_known_def split: option.splits)

lemma storage_ready_increment [simp]:
  "storage_ready (incrementMessage p d s) = storage_ready s"
  "storage_ready (incrementError p d s) = storage_ready s"
  "storage_ready (incrementReconnection p d s) = storage_ready s"
  unfolding storage_ready_def storage_ok_increment
  by (simp_all add: incrementMessage_def incrementError_def incrementReconnection_def)

end
