(* ===== verification/Authenticator.thy ===== *)
theory Authenticator
  imports Traffic
begin

text \<open>
  The class Authenticator (src/src/server/authenticator.cpp): checks a password, counts the
  failed logins of a user in the database and blocks the account for a while after three
  of them.  The method runs under its own mutex, so a call is one step.  The clock is the
  field \<open>clock_now\<close> of the state.
\<close>

datatype AuthResult =
    SUCCESS
  | FAILED_USER_NOT_FOUND
  | FAILED_ACCOUNT_LOCKED
  | FAILED_BAD_CREDENTIALS
  | FAILED_ALERT_LOCKED

definition authenticate ::
  "'j platform \<Rightarrow> config \<Rightarrow> string \<Rightarrow> string \<Rightarrow> int \<Rightarrow> 'z logger_scheme
     \<Rightarrow> AuthResult res \<times> 'z logger_scheme" where
  "authenticate P cfg hostname password blockDuration s =
     seq_st (getUserLoginData hostname s) (\<lambda>authData s.
       case authData of
         None \<Rightarrow>
           (Inr FAILED_USER_NOT_FOUND,
            Logger_log P cfg WARNING ''Authenticator''
              (strcat [''No user found for the given hostname: '', quote, hostname, quote, ''.'']) None s)
       | Some authData \<Rightarrow>
           if is_locked authData then (Inr FAILED_ALERT_LOCKED, s)
           else
             (let currentTime = int (clock_now s) in
              if failedAttempts authData \<ge> 3 \<and> currentTime - lastFailedTimestamp authData < blockDuration then
                (Inr FAILED_ACCOUNT_LOCKED,
                 Logger_log P cfg WARNING ''Authenticator''
                   (strcat [''User by hostname: '', quote, hostname, quote, '' is trying to login but is blocked.''])
                   None s)
              else
                seq_st (if failedAttempts authData \<ge> 3
                        then updateLoginAttempts hostname True currentTime s else (Inr (), s)) (\<lambda>_ s.
                if bcrypt_validatePassword P password (passwordHash authData) then
                  seq_st (updateLoginAttempts hostname True currentTime
                      (Logger_log P cfg INFO ''Authenticator''
                        (strcat [''Login successful for user '', quote, hostname, quote, ''.'']) None s))
                    (\<lambda>_ s. (Inr SUCCESS, s))
                else
                  seq_st (updateLoginAttempts hostname False currentTime s) (\<lambda>_ s.
                  if failedAttempts authData = 2 then
                    (Inr FAILED_ACCOUNT_LOCKED,
                     Logger_log P cfg WARNING ''Authenticator''
                       (strcat [''Failed login attempts limit reached for user '', quote, hostname, quote,
                          ''. Login is disabled for 15 min.'']) None s)
                  else
                    (Inr FAILED_BAD_CREDENTIALS,
                     Logger_log P cfg WARNING ''Authenticator''
                       (strcat [''Failed login attempt for user '', quote, hostname, quote, ''.'']) None s)))))"

section \<open>The lockout policy\<close>

text \<open>
  The policy as an automaton over the number of failed logins and the time of the last one:
  \<open>auth_spec block now locked ok (n, t)\<close> is the answer and the new state.
\<close>

fun auth_spec :: "int \<Rightarrow> int \<Rightarrow> bool \<Rightarrow> bool \<Rightarrow> int \<times> int \<Rightarrow> AuthResult \<times> int \<times> int" where
  "auth_spec block now locked ok (n, t) =
     (if locked then (FAILED_ALERT_LOCKED, n, t)
      else if n \<ge> 3 \<and> now - t < block then (FAILED_ACCOUNT_LOCKED, n, t)
      else if ok then (SUCCESS, 0, t)
      else if n \<ge> 3 then (FAILED_BAD_CREDENTIALS, 1, now)
      else if n = 2 then (FAILED_ACCOUNT_LOCKED, 3, now)
      else (FAILED_BAD_CREDENTIALS, n + 1, now))"

text \<open>A sequence of attempts for one user, each a time and a password.\<close>

fun login_run ::
  "'j platform \<Rightarrow> config \<Rightarrow> string \<Rightarrow> int \<Rightarrow> (nat \<times> string) list \<Rightarrow> 'z logger_scheme
     \<Rightarrow> AuthResult res list \<times> 'z logger_scheme" where
  "login_run P cfg h block [] s = ([], s)"
| "login_run P cfg h block ((t, p) # xs) s =
     (let (r, s) = authenticate P cfg h p block (s\<lparr>clock_now := t\<rparr>);
          (rs, s) = login_run P cfg h block xs s
      in (r # rs, s))"

fun spec_run :: "int \<Rightarrow> bool \<Rightarrow> (int \<times> bool) list \<Rightarrow> int \<times> int \<Rightarrow> AuthResult list" where
  "spec_run block locked [] st = []"
| "spec_run block locked ((now, ok) # xs) st =
     (let (r, st') = auth_spec block now locked ok st in r # spec_run block locked xs st')"

text \<open>The row of a user after updateLoginAttempts.\<close>

definition counted :: "bool \<Rightarrow> int \<Rightarrow> user_row \<Rightarrow> user_row" where
  "counted ok t r = (if ok then r\<lparr>u_failed_attempts := 0\<rparr>
     else r\<lparr>u_failed_attempts := u_failed_attempts r + 1, u_last_failed_timestamp := t\<rparr>)"

definition row_after :: "user_row \<Rightarrow> int \<times> int \<Rightarrow> user_row" where
  "row_after r st = r\<lparr>u_failed_attempts := fst st, u_last_failed_timestamp := snd st\<rparr>"

section \<open>Lemmas\<close>

lemma clock_irrelevant [simp]:
  "user_known (s\<lparr>clock_now := t\<rparr>) = user_known s"
  "storage_ok (s\<lparr>clock_now := t\<rparr>) = storage_ok s"
  "stock_of (s\<lparr>clock_now := t\<rparr>) = stock_of s"
  "user_of (s\<lparr>clock_now := t\<rparr>) = user_of s"
  "storage_ready (s\<lparr>clock_now := t\<rparr>) = storage_ready s"
  by (auto simp: user_known_def users_ok_def inventory_ok_def logs_ok_def storage_ok_def
      stock_of_def user_of_def storage_ready_def fun_eq_iff split: option.splits)

lemma authenticate_keeps:
  assumes "storage_ok s"
  shows "after storage_ok (authenticate P cfg h p block s)"
  unfolding authenticate_def using assms by (intro after_intros) (auto intro!: after_intros Logger_log_keeps)

context user_insensitive
begin

lemma authenticate_same:
  "F s = v \<Longrightarrow> after (\<lambda>s. F s = v) (authenticate P cfg h p block s)"
  unfolding authenticate_def
  by (intro after_intros user_op_same) (auto intro!: after_intros user_op_same)

end

subsection \<open>On a database that answers\<close>

lemma getUserLoginData_ready:
  assumes "storage_ready s"
  shows "getUserLoginData h s = (Inr (map_option (\<lambda>r.
          \<lparr>passwordHash = u_password_hash r,
           failedAttempts = to_int32 (u_failed_attempts r),
           lastFailedTimestamp = to_int32 (u_last_failed_timestamp r),
           is_locked = (to_int32 (u_is_locked r) = 1)\<rparr>) (user_of s h)), s)"
  using assms by (simp add: getUserLoginData_def sql_on_ready user_of_def)

lemma updateLoginAttempts_ready:
  assumes "storage_ready s" and "user_of s h = Some r" and "ok \<or> u_failed_attempts r < 3"
  obtains s' where "updateLoginAttempts h ok t s = (Inr (), s')" and "storage_ready s'"
    and "user_of s' = (user_of s)(h \<mapsto> counted ok t r)" and "clock_now s' = clock_now s"
proof -
  let ?s = "s\<lparr>db_users := update_users h (counted ok t) (db_users s)\<rparr>"
  have f: "(if ok then (\<lambda>r. r\<lparr>u_failed_attempts := 0\<rparr>)
      else (\<lambda>r. r\<lparr>u_failed_attempts := u_failed_attempts r + 1, u_last_failed_timestamp := t\<rparr>)) = counted ok t"
    by (simp add: counted_def fun_eq_iff)
  have "u_failed_attempts (counted ok t q) \<le> 3" if "q \<in> set (db_users s)" "u_hostname q = h" for q
  proof -
    have "distinct (map u_hostname (db_users s))"
      using assms(1) by (simp add: storage_ready_def storage_ok_def users_ok_def)
    from find_key_unique [OF this that(1)] that(2) assms(2) have "q = r" by (simp add: user_of_def)
    with assms(3) show ?thesis by (auto simp: counted_def)
  qed
  then have "list_all (\<lambda>r. u_hostname r = h \<longrightarrow> u_failed_attempts r \<le> 3) (update_users h (counted ok t) (db_users s))"
    unfolding list_all_iff update_users_def by auto
  then have upd: "updateLoginAttempts h ok t s = (Inr (), ?s)"
    using assms(1) unfolding updateLoginAttempts_def f by (simp add: sql_on_ready Let_def)
  have "user_of ?s k = ((user_of s)(h \<mapsto> counted ok t r)) k" for k
    using assms(2) update_users_user_of [where f = "counted ok t" and s = s and h = h and k = k] by (simp add: counted_def option.map_id)
  then have "user_of ?s = (user_of s)(h \<mapsto> counted ok t r)" by blast
  moreover have "storage_ready ?s"
    using updateLoginAttempts_keeps [of s h ok t] upd assms(1) by (simp add: storage_ready_def)
  ultimately show thesis using that [of ?s] upd by simp
qed

lemma authenticate_alert_locked:
  assumes "storage_ready s" and "user_of s h = Some r" and "u_is_locked r = 1"
  shows "authenticate P cfg h p block s = (Inr FAILED_ALERT_LOCKED, s)"
  using assms by (simp add: authenticate_def getUserLoginData_ready)

text \<open>A login attempt is one step of the automaton, and touches one row only.\<close>

lemma row_after_same [simp]: "row_after r (u_failed_attempts r, u_last_failed_timestamp r) = r"
  by (simp add: row_after_def)

lemma authenticate_step:
  assumes "storage_ready s" and "user_of s h = Some r" and "is_int32 (u_last_failed_timestamp r)"
    and spec: "auth_spec block (int (clock_now s)) (u_is_locked r = 1)
      (bcrypt_validatePassword P p (u_password_hash r)) (u_failed_attempts r, u_last_failed_timestamp r) = (res, st)"
  obtains s' where "authenticate P cfg h p block s = (Inr res, s')" and "storage_ready s'"
    and "user_of s' = (user_of s)(h \<mapsto> row_after r st)" and "clock_now s' = clock_now s"
proof -
  let ?n = "u_failed_attempts r" and ?now = "int (clock_now s)"
  have r: "0 \<le> ?n" "?n \<le> 3" "u_is_locked r = 0 \<or> u_is_locked r = 1"
    using assms(1,2) by (auto simp: storage_ready_def storage_ok_def users_ok_def dest: user_of_mem)
  then have ints: "to_int32 ?n = ?n" "to_int32 (u_last_failed_timestamp r) = u_last_failed_timestamp r"
      "to_int32 (u_is_locked r) = u_is_locked r"
    using assms(3) by (auto simp: is_int32_def)
  have same: "(user_of s)(h \<mapsto> r) = user_of s" using assms(2) by auto
  note start = getUserLoginData_ready [OF assms(1), of h] assms(2) ints
  consider (alert) "u_is_locked r = 1"
    | (blocked) "u_is_locked r \<noteq> 1" "?n \<ge> 3 \<and> ?now - u_last_failed_timestamp r < block"
    | (free) "u_is_locked r \<noteq> 1" "\<not> (?n \<ge> 3 \<and> ?now - u_last_failed_timestamp r < block)" by blast
  then show thesis
  proof cases
    case alert
    with start spec assms(1) same show ?thesis by (intro that [of s]) (auto simp: authenticate_def)
  next
    case blocked
    with start spec have "st = (?n, u_last_failed_timestamp r)"
      "\<exists>msg. authenticate P cfg h p block s = (Inr res, Logger_log P cfg WARNING ''Authenticator'' msg None s)"
      by (auto simp: authenticate_def)
    with assms(1) same show ?thesis by (auto intro: that)
  next
    case free
    let ?r1 = "if ?n \<ge> 3 then counted True ?now r else r"
    obtain s1 where s1: "(if ?n \<ge> 3 then updateLoginAttempts h True ?now s else (Inr (), s)) = (Inr (), s1)"
        "storage_ready s1" "user_of s1 = (user_of s)(h \<mapsto> ?r1)" "clock_now s1 = clock_now s"
    proof (cases "?n \<ge> 3")
      case True
      show thesis
        by (rule updateLoginAttempts_ready [where s = s and h = h and r = r and ok = True and t = ?now])
          (use True assms(1,2) in \<open>auto intro: that\<close>)
    qed (use assms(1) same that in auto)
    show ?thesis
    proof (cases "bcrypt_validatePassword P p (u_password_hash r)")
      case True
      let ?l = "Logger_log P cfg INFO ''Authenticator''
        (strcat [''Login successful for user '', quote, h, quote, ''.'']) None s1"
      obtain s2 where s2: "updateLoginAttempts h True ?now ?l = (Inr (), s2)" "storage_ready s2"
          "user_of s2 = (user_of ?l)(h \<mapsto> counted True ?now ?r1)" "clock_now s2 = clock_now ?l"
        by (rule updateLoginAttempts_ready [where s = ?l and h = h and r = ?r1 and ok = True and t = ?now]) (simp_all add: s1)
      have "authenticate P cfg h p block s = (Inr SUCCESS, s2)"
        using free True s1(1) s2(1) start by (simp add: authenticate_def Let_def)
      moreover have "counted True ?now ?r1 = row_after r st" "res = SUCCESS"
        using spec free True by (auto simp: counted_def row_after_def)
      ultimately show ?thesis using s1 s2 by (intro that [of s2]) simp_all
    next
      case False
      obtain s2 where s2: "updateLoginAttempts h False ?now s1 = (Inr (), s2)" "storage_ready s2"
          "user_of s2 = (user_of s1)(h \<mapsto> counted False ?now ?r1)" "clock_now s2 = clock_now s1"
        by (rule updateLoginAttempts_ready [where s = s1 and h = h and r = ?r1 and ok = False and t = ?now]) (use r in \<open>auto simp: s1 counted_def\<close>)
      have "\<exists>lvl msg. authenticate P cfg h p block s = (Inr res, Logger_log P cfg lvl ''Authenticator'' msg None s2)"
        using free False s1(1) s2(1) start spec by (auto simp: authenticate_def Let_def split: if_splits)
      moreover have "counted False ?now ?r1 = row_after r st"
        using spec free False by (auto simp: counted_def row_after_def split: if_splits)
      ultimately show ?thesis using s1 s2 by (auto intro: that)
    qed
  qed
qed

subsection \<open>Sequences of attempts\<close>

lemma auth_spec_range:
  "auth_spec block now locked ok (n, t) = (res, n', t') \<Longrightarrow> is_int32 t \<Longrightarrow> is_int32 now \<Longrightarrow> is_int32 t'"
  by (auto split: if_splits)

lemma login_run_spec:
  assumes "storage_ready s" and "user_of s h = Some r" and "is_int32 (u_last_failed_timestamp r)"
    and "\<forall>(t, p) \<in> set xs. is_int32 (int t)"
  shows "fst (login_run P cfg h block xs s) = map Inr (spec_run block (u_is_locked r = 1)
    (map (\<lambda>(t, p). (int t, bcrypt_validatePassword P p (u_password_hash r))) xs)
    (u_failed_attempts r, u_last_failed_timestamp r))"
  using assms
proof (induction xs arbitrary: s r)
  case (Cons x xs)
  obtain t p where x: "x = (t, p)" by fastforce
  obtain res n' t' where spec: "auth_spec block (int t) (u_is_locked r = 1)
      (bcrypt_validatePassword P p (u_password_hash r)) (u_failed_attempts r, u_last_failed_timestamp r) = (res, n', t')"
    by (metis prod_cases3)
  have "storage_ready (s\<lparr>clock_now := t\<rparr>)" "user_of (s\<lparr>clock_now := t\<rparr>) h = Some r"
    using Cons.prems by simp_all
  then obtain s' where s': "authenticate P cfg h p block (s\<lparr>clock_now := t\<rparr>) = (Inr res, s')"
      "storage_ready s'" "user_of s' = (user_of s)(h \<mapsto> row_after r (n', t'))"
    using authenticate_step [where s = "s\<lparr>clock_now := t\<rparr>" and h = h and r = r and block = block and P = P
        and p = p and res = res and st = "(n', t')" and cfg = cfg] Cons.prems(3) spec
    by simp metis
  have "is_int32 t'" using auth_spec_range [OF spec] Cons.prems(3,4) x by auto
  then have "fst (login_run P cfg h block xs s') = map Inr (spec_run block (u_is_locked r = 1)
      (map (\<lambda>(t, p). (int t, bcrypt_validatePassword P p (u_password_hash r))) xs) (n', t'))"
    using Cons.IH [OF s'(2), of "row_after r (n', t')"] Cons.prems(4) s'(3) by (simp add: row_after_def)
  with x s'(1) spec show ?case by (auto simp del: auth_spec.simps split: prod.splits)
qed simp

lemma spec_run_locked:
  "n \<ge> 3 \<Longrightarrow> \<forall>(now, ok) \<in> set xs. now - t < block \<Longrightarrow> SUCCESS \<notin> set (spec_run block locked xs (n, t))"
  by (induction xs) (auto split: if_splits)

lemma spec_run_alert: "SUCCESS \<notin> set (spec_run block True xs st)"
  by (induction xs; cases st) auto

lemma spec_run_window:
  assumes "\<forall>(now, ok) \<in> set ws. start \<le> now \<and> now < start + block \<and> \<not> ok"
    and "\<forall>(now, ok) \<in> set ys. start \<le> now \<and> now < start + block"
    and "n < 3 \<and> 3 - n \<le> int (length ws) \<or> n \<ge> 3 \<and> block \<le> start - t \<and> 3 \<le> length ws \<or> n \<ge> 3 \<and> start \<le> t"
  shows "SUCCESS \<notin> set (spec_run block locked (ws @ ys) (n, t))"
proof (cases "locked \<or> n \<ge> 3 \<and> start \<le> t")
  case True
  then show ?thesis
  proof
    assume "n \<ge> 3 \<and> start \<le> t"
    with assms show ?thesis by (intro spec_run_locked) auto
  qed (use spec_run_alert in simp)
next
  case False
  with assms show ?thesis
  proof (induction ws arbitrary: n t)
    case (Cons w ws)
    obtain now where w: "w = (now, False)" "start \<le> now" "now < start + block" using Cons.prems(1) by auto
    obtain res n' t' where spec: "auth_spec block now locked False (n, t) = (res, n', t')"
      by (metis prod_cases3)
    have "SUCCESS \<notin> set (spec_run block locked (ws @ ys) (n', t'))"
    proof (cases "n' \<ge> 3 \<and> start \<le> t'")
      case True
      with Cons.prems(1,2) show ?thesis by (intro spec_run_locked) auto
    next
      case nf: False
      have "n' < 3 \<and> 3 - n' \<le> int (length ws)"
        using spec w nf Cons.prems(3,4) by (auto split: if_splits)
      with Cons.IH [of n' t'] Cons.prems(1,2,4) show ?thesis by auto
    qed
    moreover have "res \<noteq> SUCCESS" using spec by (auto split: if_splits)
    ultimately show ?case using w spec by (simp del: auth_spec.simps)
  qed auto
qed

section \<open>Properties\<close>

text \<open>
  C3. A login attempt follows the lockout policy: on a database that answers, for a
  registered user, the answer and the new counter and time are the ones of the automaton,
  and no other user and no other column changes.
\<close>

theorem authenticate_refines:
  assumes "storage_ready s" and "user_of s h = Some r" and "is_int32 (u_last_failed_timestamp r)"
  shows "\<exists>res st s'. authenticate P cfg h p block s = (Inr res, s') \<and>
    auth_spec block (int (clock_now s)) (u_is_locked r = 1)
      (bcrypt_validatePassword P p (u_password_hash r))
      (u_failed_attempts r, u_last_failed_timestamp r) = (res, st) \<and>
    user_of s' = (user_of s)(h \<mapsto> row_after r st) \<and> storage_ready s'"
proof -
  obtain res st where "auth_spec block (int (clock_now s)) (u_is_locked r = 1)
      (bcrypt_validatePassword P p (u_password_hash r))
      (u_failed_attempts r, u_last_failed_timestamp r) = (res, st)" by fastforce
  from authenticate_step [OF assms this, of cfg] this show ?thesis by metis
qed

text \<open>
  C5. Guessing is limited: of the attempts made within one blocking period on an account
  that is not blocked at its start, none succeeds after three wrong passwords, not even one
  with the right password.
\<close>

theorem no_login_after_three_failures:
  assumes "storage_ready s" and "user_of s h = Some r" and "is_int32 (u_last_failed_timestamp r)"
    and "u_failed_attempts r < 3 \<or> block \<le> t0 - u_last_failed_timestamp r"
    and "\<forall>(t, p) \<in> set (ws @ ys). t0 \<le> int t \<and> int t < t0 + block \<and> is_int32 (int t)"
    and "\<forall>(t, p) \<in> set ws. \<not> bcrypt_validatePassword P p (u_password_hash r)" and "3 \<le> length ws"
  shows "Inr SUCCESS \<notin> set (fst (login_run P cfg h block (ws @ ys) s))"
proof -
  let ?g = "\<lambda>(t, p). (int t, bcrypt_validatePassword P p (u_password_hash r))"
  have "0 \<le> u_failed_attempts r"
    using assms(1,2) user_of_attempts [of s h r] by (simp add: storage_ready_def storage_ok_def)
  have "SUCCESS \<notin> set (spec_run block (u_is_locked r = 1) (map ?g ws @ map ?g ys)
      (u_failed_attempts r, u_last_failed_timestamp r))"
  proof (rule spec_run_window [where start = t0])
    show "\<forall>(now, ok) \<in> set (map ?g ws). t0 \<le> now \<and> now < t0 + block \<and> \<not> ok"
      "\<forall>(now, ok) \<in> set (map ?g ys). t0 \<le> now \<and> now < t0 + block"
      using assms(5,6) by auto
    show "u_failed_attempts r < 3 \<and> 3 - u_failed_attempts r \<le> int (length (map ?g ws)) \<or>
        u_failed_attempts r \<ge> 3 \<and> block \<le> t0 - u_last_failed_timestamp r \<and> 3 \<le> length (map ?g ws) \<or>
        u_failed_attempts r \<ge> 3 \<and> t0 \<le> u_last_failed_timestamp r"
      using \<open>0 \<le> u_failed_attempts r\<close> assms(4,7) by auto
  qed
  moreover have "fst (login_run P cfg h block (ws @ ys) s) = map Inr (spec_run block (u_is_locked r = 1)
      (map ?g ws @ map ?g ys) (u_failed_attempts r, u_last_failed_timestamp r))"
    using login_run_spec [OF assms(1-3), of "ws @ ys"] assms(5) by force
  ultimately show ?thesis by auto
qed

text \<open>
  C34. The block is lost in 2038: the time of the last failure is read into an \<^verbatim>\<open>int\<close>, so
  from second \<open>2 ^ 31\<close> on an account with three failures a moment ago is not blocked and
  the right password logs in at once.
\<close>

theorem lockout_lost_after_2038:
  assumes "storage_ready s" and "user_of s h = Some r" and "u_is_locked r = 0"
    and "u_failed_attempts r = 3" and "u_last_failed_timestamp r = int (clock_now s)"
    and "2 ^ 31 \<le> int (clock_now s)" and "int (clock_now s) < 2 ^ 32" and "block \<le> 2 ^ 31 - 1"
    and "bcrypt_validatePassword P p (u_password_hash r)"
  shows "\<exists>s'. authenticate P cfg h p block s = (Inr SUCCESS, s')"
proof -
  let ?now = "int (clock_now s)"
  have late: "\<not> ?now - to_int32 ?now < block" using assms(6-8) by (simp add: to_int32_wrap)
  obtain s1 where s1: "updateLoginAttempts h True ?now s = (Inr (), s1)" "storage_ready s1"
      "user_of s1 = (user_of s)(h \<mapsto> counted True ?now r)"
    by (rule updateLoginAttempts_ready [OF assms(1,2), of True ?now]) auto
  let ?l = "Logger_log P cfg INFO ''Authenticator''
    (strcat [''Login successful for user '', quote, h, quote, ''.'']) None s1"
  obtain s2 where "updateLoginAttempts h True ?now ?l = (Inr (), s2)"
    by (rule updateLoginAttempts_ready [where s = ?l and h = h and r = "counted True ?now r" and ok = True])
      (simp_all add: s1)
  with late s1 assms show ?thesis
    by (simp add: authenticate_def getUserLoginData_ready Let_def)
qed

end
