(* ===== verification/Inventory.thy ===== *)
theory Inventory
  imports Authenticator
begin

text \<open>
  The class Inventory (src/src/server/inventory.cpp): the catalogue of valid items and a
  cache in front of the inventory table.  The nested maps of the cache are partial
  functions; \<open>m_fullyCachedClients\<close> holds the clients whose whole inventory is cached.
\<close>

record inventory = traffic +
  m_inventories :: "string \<rightharpoonup> client_inventory"
  m_fullyCachedClients :: "string set"

record UpdateStockResult =
  usr_success :: bool
  usr_message :: string

section \<open>The catalogue\<close>

definition s_validItems :: "string \<rightharpoonup> string set" where
  "s_validItems = map_of
     [(''food'', {''meat'', ''vegetables'', ''fruits'', ''water'', ''bread''}),
      (''medicine'', {''antibiotics'', ''analgesics'', ''bandages''}),
      (''ammo'', {''pistol_rounds'', ''shotgun_shells'', ''grenades''})]"

definition validateInventory :: "string \<Rightarrow> string \<Rightarrow> UpdateStockResult" where
  "validateInventory category item =
     (case s_validItems category of
        None \<Rightarrow> \<lparr>usr_success = False,
          usr_message = strcat [''Update rejected: Invalid category '', quote, category, quote, ''.'']\<rparr>
      | Some items \<Rightarrow>
          if item \<notin> items
          then \<lparr>usr_success = False,
            usr_message = strcat [''Update rejected: Invalid item '', quote, item, quote, ''.'']\<rparr>
          else \<lparr>usr_success = True, usr_message = ''valid ok''\<rparr>)"

section \<open>The methods\<close>

text \<open>\<^verbatim>\<open>m_inventories[clientId][category][item] = quantity\<close>.\<close>

definition cache_put ::
  "string \<Rightarrow> string \<Rightarrow> string \<Rightarrow> int \<Rightarrow> (string \<rightharpoonup> client_inventory) \<Rightarrow> (string \<rightharpoonup> client_inventory)" where
  "cache_put c cat it q m =
     m(c \<mapsto> map_entry cat it q (case m c of None \<Rightarrow> Map.empty | Some inven \<Rightarrow> inven))"

definition stock_update_text :: "string \<Rightarrow> string \<Rightarrow> string \<Rightarrow> int \<Rightarrow> string" where
  "stock_update_text clientId category item quantity =
     strcat [''Stock succesfully updated for '', category, '':'', item, '' to '',
       to_string quantity, '' for client '', clientId]"

definition Inventory_updateStock ::
  "'j platform \<Rightarrow> config \<Rightarrow> string \<Rightarrow> string \<Rightarrow> string \<Rightarrow> int \<Rightarrow> 'z inventory_scheme
     \<Rightarrow> UpdateStockResult res \<times> 'z inventory_scheme" where
  "Inventory_updateStock P cfg clientId category item quantity s =
     (if quantity < 0 then
        (Inr \<lparr>usr_success = False, usr_message = ''Update rejected: Quantity cannot be negative.''\<rparr>,
         Logger_log P cfg WARNING ''Inventory''
           (strcat [''Client '', clientId, '' trying to update negative quantity for item '', quote, item, quote, ''.'']) None s)
      else
        (let result = validateInventory category item in
         if \<not> usr_success result then (Inr result, s)
         else seq_st (saveStockUpdate clientId category item quantity s) (\<lambda>_ s.
           let s = Logger_log P cfg INFO ''Inventory''
                 (stock_update_text clientId category item quantity) (Some clientId) s;
               s = s\<lparr>m_inventories := cache_put clientId category item quantity (m_inventories s)\<rparr>
           in (Inr \<lparr>usr_success = True,
                 usr_message = strcat [''Stock for '', quote, category, '':'', item, quote,
                   '' successfully updated to '', to_string quantity, ''.'']\<rparr>, s))))"

definition getStockonCache :: "string \<Rightarrow> string \<Rightarrow> string \<Rightarrow> 'z inventory_scheme \<Rightarrow> int option" where
  "getStockonCache clientId category item s =
     (case m_inventories s clientId of
        None \<Rightarrow> None
      | Some inven \<Rightarrow>
          (case inven category of
             None \<Rightarrow> None
           | Some items \<Rightarrow> (case items item of None \<Rightarrow> None | Some quantity \<Rightarrow> Some quantity)))"

definition Inventory_getStock ::
  "string \<Rightarrow> string \<Rightarrow> string \<Rightarrow> 'z inventory_scheme \<Rightarrow> int option res \<times> 'z inventory_scheme" where
  "Inventory_getStock clientId category item s =
     (case getStockonCache clientId category item s of
        Some q \<Rightarrow> (Inr (Some q), s)
      | None \<Rightarrow>
          seq_st (Storage_getStock clientId category item s) (\<lambda>result s.
            case result of
              Some q \<Rightarrow>
                (Inr (Some q), s\<lparr>m_inventories := cache_put clientId category item q (m_inventories s)\<rparr>)
            | None \<Rightarrow> (Inr None, s)))"

definition getInventorySummaryFromCache :: "string \<Rightarrow> 'z inventory_scheme \<Rightarrow> client_inventory option" where
  "getInventorySummaryFromCache clientId s =
     (case m_inventories s clientId of None \<Rightarrow> None | Some inven \<Rightarrow> Some inven)"

definition getInventorySummary ::
  "'j platform \<Rightarrow> config \<Rightarrow> string \<Rightarrow> 'z inventory_scheme
     \<Rightarrow> client_inventory option res \<times> 'z inventory_scheme" where
  "getInventorySummary P cfg clientId s =
     (let s = Logger_log P cfg INFO ''Inventory''
            (strcat [''Full inventory summary requested for client '', clientId, ''.'']) (Some clientId) s in
      if clientId \<in> m_fullyCachedClients s then (Inr (getInventorySummaryFromCache clientId s), s)
      else seq_st (getFullInventory clientId s) (\<lambda>result s.
        case result of
          None \<Rightarrow> (Inr None, s)
        | Some inven \<Rightarrow>
            (Inr (Some inven), s\<lparr>m_inventories := (m_inventories s)(clientId \<mapsto> inven),
                               m_fullyCachedClients := insert clientId (m_fullyCachedClients s)\<rparr>)))"

section \<open>The cache agrees with the database\<close>

text \<open>
  \<open>cache_agrees view m full\<close>: every cached quantity is the one of \<open>view\<close>, and the
  clients of \<open>full\<close> have all of their stock in the cache.
\<close>

definition cache_agrees ::
  "(string \<Rightarrow> string \<Rightarrow> string \<Rightarrow> int option) \<Rightarrow> (string \<rightharpoonup> client_inventory) \<Rightarrow> string set \<Rightarrow> bool" where
  "cache_agrees view m full \<longleftrightarrow>
     (\<forall>c inven cat it q. m c = Some inven \<longrightarrow> inv_lookup inven cat it = Some q \<longrightarrow> view c cat it = Some q) \<and>
     (\<forall>c \<in> full. \<exists>inven. m c = Some inven \<and> (\<forall>cat it. inv_lookup inven cat it = view c cat it))"

definition inventory_inv :: "'z inventory_scheme \<Rightarrow> bool" where
  "inventory_inv s \<longleftrightarrow> storage_ok s \<and> cache_agrees (stock_of s) (m_inventories s) (m_fullyCachedClients s)"

text \<open>
  The contract: a table from client, category and item to a quantity, and an update that
  is accepted when the quantity is not negative and the item is in the catalogue.
\<close>

definition item_valid :: "string \<Rightarrow> string \<Rightarrow> bool" where
  "item_valid cat it = (case s_validItems cat of None \<Rightarrow> False | Some items \<Rightarrow> it \<in> items)"

definition stock_abs :: "'z storage_scheme \<Rightarrow> (string \<times> string \<times> string \<rightharpoonup> int)" where
  "stock_abs s = (\<lambda>(c, cat, it). stock_of s c cat it)"

definition spec_update ::
  "string \<Rightarrow> string \<Rightarrow> string \<Rightarrow> int \<Rightarrow> (string \<times> string \<times> string \<rightharpoonup> int)
     \<Rightarrow> bool \<times> (string \<times> string \<times> string \<rightharpoonup> int)" where
  "spec_update c cat it q v =
     (if 0 \<le> q \<and> item_valid cat it then (True, v((c, cat, it) \<mapsto> q)) else (False, v))"

text \<open>What the cache relies on from the store behind it.\<close>

locale stock_store =
  fixes ok :: "'s \<Rightarrow> bool"
    and view :: "'s \<Rightarrow> string \<Rightarrow> string \<Rightarrow> string \<Rightarrow> int option"
    and save :: "string \<Rightarrow> string \<Rightarrow> string \<Rightarrow> int \<Rightarrow> 's \<Rightarrow> unit res \<times> 's"
    and get :: "string \<Rightarrow> string \<Rightarrow> string \<Rightarrow> 's \<Rightarrow> int option res \<times> 's"
    and full :: "string \<Rightarrow> 's \<Rightarrow> client_inventory option res \<times> 's"
  assumes save_done: "save c cat it q s = (Inr (), s') \<Longrightarrow>
      view s' = (\<lambda>c' cat' it'. if (c', cat', it') = (c, cat, it) then Some q else view s c' cat' it')"
    and save_failed: "save c cat it q s = (Inl e, s') \<Longrightarrow> view s' = view s"
    and get_view: "get c cat it s = (r, s') \<Longrightarrow> view s' = view s"
    and get_value: "ok s \<Longrightarrow> get c cat it s = (Inr v, s') \<Longrightarrow> v = view s c cat it"
    and full_view: "full c s = (r', s') \<Longrightarrow> view s' = view s"
    and full_none: "ok s \<Longrightarrow> full c s = (Inr None, s') \<Longrightarrow> view s c cat it = None"
    and full_some: "ok s \<Longrightarrow> full c s = (Inr (Some inven), s') \<Longrightarrow> inv_lookup inven cat it = view s c cat it"
begin

lemma lookup_cache_put:
  "(\<exists>inven. cache_put c cat it q m c' = Some inven \<and> inv_lookup inven cat' it' = Some q') \<longleftrightarrow>
     (if (c', cat', it') = (c, cat, it) then q' = q
      else (\<exists>inven. m c' = Some inven \<and> inv_lookup inven cat' it' = Some q'))"
  by (auto simp: cache_put_def inv_lookup_map_entry split: option.splits)
    (auto simp: inv_lookup_def)

lemma agrees_put:
  assumes "cache_agrees v m F"
    and "v' = (\<lambda>c' cat' it'. if (c', cat', it') = (c, cat, it) then Some q else v c' cat' it')"
  shows "cache_agrees v' (cache_put c cat it q m) F"
proof -
  have "v' c' cat' it' = Some q'"
    if "cache_put c cat it q m c' = Some inven" "inv_lookup inven cat' it' = Some q'" for c' inven cat' it' q'
  proof (cases "(c', cat', it') = (c, cat, it)")
    case True
    with that assms(2) show ?thesis by (auto simp: cache_put_def inv_lookup_map_entry)
  next
    case False
    with that obtain inven' where "m c' = Some inven'" "inv_lookup inven' cat' it' = Some q'"
      using lookup_cache_put [of c cat it q m c' cat' it' q'] by (simp only: if_False) blast
    with assms(1) have "v c' cat' it' = Some q'" by (simp add: cache_agrees_def)
    with assms(2) False show ?thesis by auto
  qed
  moreover have "\<exists>inven. cache_put c cat it q m c' = Some inven \<and> (\<forall>cat' it'. inv_lookup inven cat' it' = v' c' cat' it')"
    if "c' \<in> F" for c'
  proof -
    from that assms(1) obtain inven where "m c' = Some inven" "\<forall>cat' it'. inv_lookup inven cat' it' = v c' cat' it'"
      unfolding cache_agrees_def by blast
    with assms(2) show ?thesis by (cases "c' = c") (simp_all add: cache_put_def inv_lookup_map_entry)
  qed
  ultimately show ?thesis unfolding cache_agrees_def by blast
qed

lemma agrees_save:
  "cache_agrees (view s) m F \<Longrightarrow> save c cat it q s = (Inr (), s') \<Longrightarrow>
     cache_agrees (view s') (cache_put c cat it q m) F"
  by (rule agrees_put) (auto dest: save_done)

lemma agrees_fill:
  assumes "cache_agrees (view s) m F" and "ok s" and "get c cat it s = (Inr (Some q), s')"
  shows "cache_agrees (view s') (cache_put c cat it q m) F"
proof (rule agrees_put [OF assms(1)])
  show "view s' = (\<lambda>c' cat' it'. if (c', cat', it') = (c, cat, it) then Some q else view s c' cat' it')"
    using get_value [OF assms(2,3)] get_view [OF assms(3)] by (auto simp: fun_eq_iff)
qed

lemma agrees_full:
  assumes "cache_agrees (view s) m F" and "ok s" and "full c s = (Inr (Some inven), s')"
  shows "cache_agrees (view s') (m(c \<mapsto> inven)) (insert c F)"
  using assms(1) full_some [OF assms(2,3)] full_view [OF assms(3)]
  by (auto simp: cache_agrees_def)

end

interpretation db: stock_store storage_ok stock_of saveStockUpdate Storage_getStock getFullInventory
proof (unfold_locales, goal_cases)
  case (1 c cat it q s s') then show ?case by (rule saveStockUpdate_stock)
next
  case (2 c cat it q s e s') then show ?case by (auto dest: saveStockUpdate_error)
next
  case (3 c cat it s r s') then show ?case using query_frame(1) [of c cat it s] by auto
next
  case (4 s c cat it v s') then show ?case by (auto dest: Storage_getStock_value simp: storage_ok_def)
next
  case (5 c s r s') then show ?case using query_frame(2) [of c s] by auto
next
  case (6 s c s' cat it) then show ?case
    by (auto dest: getFullInventory_value simp: storage_ok_def)
next
  case (7 s c inven s' cat it) then show ?case
    by (auto dest: getFullInventory_value simp: storage_ok_def)
qed

lemma cache_irrelevant [simp]:
  "user_known (s\<lparr>m_inventories := m\<rparr>) = user_known s"
  "storage_ok (s\<lparr>m_inventories := m\<rparr>) = storage_ok s"
  "stock_of (s\<lparr>m_inventories := m\<rparr>) = stock_of s"
  "user_of (s\<lparr>m_inventories := m\<rparr>) = user_of s"
  "user_known (s\<lparr>m_fullyCachedClients := f\<rparr>) = user_known s"
  "storage_ok (s\<lparr>m_fullyCachedClients := f\<rparr>) = storage_ok s"
  "stock_of (s\<lparr>m_fullyCachedClients := f\<rparr>) = stock_of s"
  "user_of (s\<lparr>m_fullyCachedClients := f\<rparr>) = user_of s"
  by (auto simp: user_known_def users_ok_def inventory_ok_def logs_ok_def storage_ok_def
      stock_of_def user_of_def fun_eq_iff split: option.splits)

interpretation cache_field: component_field m_inventories
  by unfold_locales simp_all

interpretation cached_field: component_field m_fullyCachedClients
  by unfold_locales simp_all

lemma saveStockUpdate_cache:
  "saveStockUpdate c cat it q s = (r, s1) \<Longrightarrow>
     m_inventories s1 = m_inventories s \<and> m_fullyCachedClients s1 = m_fullyCachedClients s"
  using cache_field.saveStockUpdate_same [of s "m_inventories s" c cat it q]
    cached_field.saveStockUpdate_same [of s "m_fullyCachedClients s" c cat it q]
  by (simp add: after_def)

lemma inventory_inv_log [simp]:
  "inventory_inv s \<Longrightarrow> inventory_inv (Logger_log P cfg level cmp msg ci s)"
  by (simp add: inventory_inv_def Logger_log_keeps)

lemma inventory_inv_increment [simp]:
  "inventory_inv (incrementMessage p d s) = inventory_inv s"
  "inventory_inv (incrementError p d s) = inventory_inv s"
  "inventory_inv (incrementReconnection p d s) = inventory_inv s"
  by (simp_all add: inventory_inv_def)

lemma getStockonCache_lookup:
  "getStockonCache c cat it s = (case m_inventories s c of None \<Rightarrow> None | Some inven \<Rightarrow> inv_lookup inven cat it)"
  by (auto simp: getStockonCache_def inv_lookup_def split: option.splits)

lemma getStockonCache_hit:
  "inventory_inv s \<Longrightarrow> getStockonCache c cat it s = Some q \<Longrightarrow> stock_of s c cat it = Some q"
  by (auto simp: getStockonCache_lookup inventory_inv_def cache_agrees_def split: option.splits)

lemma getStockonCache_put [simp]:
  "m_inventories s = cache_put c cat it q m \<Longrightarrow> getStockonCache c cat it s = Some q"
  by (simp add: getStockonCache_lookup cache_put_def inv_lookup_map_entry)

text \<open>The outcomes of an update.\<close>

lemma updateStockE:
  assumes "Inventory_updateStock P cfg c cat it q s = (r, s')"
  obtains (negative) res lvl cmp msg where "q < 0" and "r = Inr res" and "\<not> usr_success res"
      and "s' = Logger_log P cfg lvl cmp msg None s"
    | (invalid) "0 \<le> q" and "\<not> usr_success (validateInventory cat it)"
      and "r = Inr (validateInventory cat it)" and "s' = s"
    | (failed) e where "0 \<le> q" and "usr_success (validateInventory cat it)"
      and "saveStockUpdate c cat it q s = (Inl e, s')" and "r = Inl e"
    | (saved) res s1 where "0 \<le> q" and "usr_success (validateInventory cat it)"
      and "saveStockUpdate c cat it q s = (Inr (), s1)" and "r = Inr res" and "usr_success res"
      and "s' = (Logger_log P cfg INFO ''Inventory'' (stock_update_text c cat it q) (Some c) s1)\<lparr>m_inventories := cache_put c cat it q (m_inventories s)\<rparr>"
proof (cases "q < 0")
  case True
  with assms show ?thesis
    by (rule_tac negative [where res = "projr r"]) (auto simp: Inventory_updateStock_def)
next
  case q: False
  show ?thesis
  proof (cases "usr_success (validateInventory cat it)")
    case False
    with q assms show ?thesis by (intro invalid) (auto simp: Inventory_updateStock_def)
  next
    case valid: True
    obtain r1 s1 where sv: "saveStockUpdate c cat it q s = (r1, s1)" by fastforce
    show ?thesis
    proof (cases r1)
      case (Inl e)
      with q valid sv assms show ?thesis by (intro failed [of e]) (auto simp: Inventory_updateStock_def)
    next
      case (Inr u)
      with q valid sv assms have "\<exists>res. r = Inr res \<and> usr_success res \<and>
          s' = (Logger_log P cfg INFO ''Inventory'' (stock_update_text c cat it q) (Some c) s1)\<lparr>m_inventories := cache_put c cat it q (m_inventories s)\<rparr>"
        by (auto simp: Inventory_updateStock_def Let_def saveStockUpdate_cache)
      then obtain res where "r = Inr res" "usr_success res"
          "s' = (Logger_log P cfg INFO ''Inventory'' (stock_update_text c cat it q) (Some c) s1)\<lparr>m_inventories := cache_put c cat it q (m_inventories s)\<rparr>"
        by blast
      with q valid sv Inr show ?thesis by (intro saved [of s1 res]) simp_all
    qed
  qed
qed

lemma updateStock_keeps:
  assumes "inventory_inv s" and "is_int32 q"
  shows "inventory_inv (snd (Inventory_updateStock P cfg c cat it q s))"
proof -
  obtain r s' where u: "Inventory_updateStock P cfg c cat it q s = (r, s')" by fastforce
  then have "inventory_inv s'"
  proof (cases rule: updateStockE)
    case (negative res lvl cmp msg)
    then show ?thesis using assms(1) by simp
  next
    case invalid
    then show ?thesis using assms(1) by simp
  next
    case (failed e)
    with assms show ?thesis
      using saveStockUpdate_keeps [of s q c cat it]
      by (auto simp: inventory_inv_def saveStockUpdate_cache dest: saveStockUpdate_error)
  next
    case (saved res s1)
    have "storage_ok s1" "m_fullyCachedClients s1 = m_fullyCachedClients s"
      using saveStockUpdate_keeps [of s q c cat it] saveStockUpdate_cache [OF saved(3)]
        saved(3) assms by (simp_all add: inventory_inv_def)
    moreover have "cache_agrees (stock_of s1) (cache_put c cat it q (m_inventories s)) (m_fullyCachedClients s)"
      using db.agrees_save [OF _ saved(3)] assms(1) by (simp add: inventory_inv_def)
    ultimately show ?thesis using saved(6) by (simp add: inventory_inv_def Logger_log_keeps)
  qed
  with u show ?thesis by simp
qed

lemma getStockE:
  assumes "Inventory_getStock c cat it s = (r, s')" and "inventory_inv s"
  obtains (hit) q where "r = Inr (Some q)" and "stock_of s c cat it = Some q" and "s' = s"
    | (error) e where "r = Inl e" and "Storage_getStock c cat it s = (Inl e, s')"
    | (miss) "r = Inr None" and "stock_of s c cat it = None" and "Storage_getStock c cat it s = (Inr None, s')"
    | (fill) q s1 where "r = Inr (Some q)" and "stock_of s c cat it = Some q"
      and "Storage_getStock c cat it s = (Inr (Some q), s1)"
      and "s' = s1\<lparr>m_inventories := cache_put c cat it q (m_inventories s)\<rparr>"
proof (cases "getStockonCache c cat it s")
  case (Some q)
  with assms show ?thesis by (intro hit [of q]) (auto simp: Inventory_getStock_def dest: getStockonCache_hit)
next
  case none: None
  obtain r1 s1 where st: "Storage_getStock c cat it s = (r1, s1)" by fastforce
  show ?thesis
  proof (cases r1)
    case (Inl e)
    with none st assms show ?thesis by (intro error [of e]) (auto simp: Inventory_getStock_def)
  next
    case (Inr v)
    then have v: "v = stock_of s c cat it"
      using db.get_value st assms(2) by (auto simp: inventory_inv_def)
    show ?thesis
    proof (cases v)
      case None
      with none st Inr v assms(1) show ?thesis by (intro miss) (auto simp: Inventory_getStock_def)
    next
      case (Some q)
      with none st Inr v assms(1) query_frame(1) [of c cat it s] show ?thesis
        by (intro fill [of q s1]) (auto simp: Inventory_getStock_def split: option.splits)
    qed
  qed
qed

lemma read_keeps_inv:
  assumes "inventory_inv s" and "Storage_getStock c cat it s = (r, s1) \<or> getFullInventory c s = (r', s1)"
  shows "inventory_inv s1 \<and> storage_ok s1 \<and> m_inventories s1 = m_inventories s \<and>
    m_fullyCachedClients s1 = m_fullyCachedClients s \<and> stock_of s1 = stock_of s"
  using assms query_frame(1) [of c cat it s] query_frame(2) [of c s]
  by (auto simp: inventory_inv_def)

lemma getStock_keeps:
  assumes "inventory_inv s"
  shows "inventory_inv (snd (Inventory_getStock c cat it s))"
proof -
  obtain r s' where g: "Inventory_getStock c cat it s = (r, s')" by fastforce
  from g assms have "inventory_inv s'"
  proof (cases rule: getStockE)
    case (fill q s1)
    with read_keeps_inv [OF assms disjI1, OF fill(3)] db.agrees_fill [OF _ _ fill(3)] assms show ?thesis
      by (simp add: inventory_inv_def)
  qed (use assms read_keeps_inv [OF assms] in blast)+
  with g show ?thesis by simp
qed

lemma getInventorySummaryE:
  assumes "getInventorySummary P cfg c s = (r, s')" and "inventory_inv s"
  obtains (hit) inven where "r = Inr (Some inven)" and "\<And>cat it. inv_lookup inven cat it = stock_of s c cat it"
      and "stock_of s' = stock_of s" and "inventory_inv s'"
    | (error) e where "r = Inl e" and "stock_of s' = stock_of s" and "inventory_inv s'"
    | (miss) "r = Inr None" and "\<And>cat it. stock_of s c cat it = None"
      and "stock_of s' = stock_of s" and "inventory_inv s'"
proof -
  define s0 where "s0 = Logger_log P cfg INFO ''Inventory''
    (strcat [''Full inventory summary requested for client '', c, ''.'']) (Some c) s"
  have inv0: "inventory_inv s0" and stock0: "stock_of s0 = stock_of s"
    using assms(2) by (simp_all add: s0_def)
  show thesis
  proof (cases "c \<in> m_fullyCachedClients s0")
    case True
    with inv0 obtain inven where inven: "m_inventories s0 c = Some inven"
        "\<forall>cat it. inv_lookup inven cat it = stock_of s0 c cat it"
      unfolding inventory_inv_def cache_agrees_def by blast
    with True assms(1) have "r = Inr (Some inven)" "s' = s0"
      unfolding getInventorySummary_def Let_def s0_def [symmetric]
      by (simp_all add: getInventorySummaryFromCache_def)
    with inven inv0 stock0 show ?thesis by (intro hit [of inven]) simp_all
  next
    case False
    obtain r1 s1 where full: "getFullInventory c s0 = (r1, s1)" by fastforce
    note r = assms(1) [unfolded getInventorySummary_def Let_def s0_def [symmetric]]
    note kept = read_keeps_inv [OF inv0 disjI2, OF full]
    have ok: "storage_ok s0" using inv0 by (simp add: inventory_inv_def)
    consider (bad) e where "r1 = Inl e" | (none) "r1 = Inr None" | (some) inven where "r1 = Inr (Some inven)"
      by (cases r1) (auto simp: split_option_all elim: option.exhaust)
    then show ?thesis
    proof cases
      case bad
      with False full r kept stock0 show ?thesis by (intro error [of e]) simp_all
    next
      case none
      with False full r kept stock0 db.full_none [OF ok] show ?thesis by (intro miss) simp_all
    next
      case (some inven)
      with db.agrees_full [of s0 "m_inventories s0" "m_fullyCachedClients s0", OF _ ok full [unfolded some]]
        False full r kept inv0 have "inventory_inv s'"
        by (auto simp: inventory_inv_def)
      with some False full r kept stock0 db.full_some [OF ok full [unfolded some]] show ?thesis
        by (intro hit [of inven]) auto
    qed
  qed
qed

lemma getInventorySummary_keeps:
  assumes "inventory_inv s"
  shows "inventory_inv (snd (getInventorySummary P cfg c s))"
  using assms by (cases "getInventorySummary P cfg c s") (auto elim: getInventorySummaryE)

lemmas inventory_after [after_intros] =
  updateStock_keeps [THEN after_of [where I = inventory_inv]]
  getStock_keeps [THEN after_of [where I = inventory_inv]]
  getInventorySummary_keeps [THEN after_of [where I = inventory_inv]]

text \<open>What the methods leave alone.\<close>

locale cache_insensitive = stock_insensitive F for F :: "'z inventory_scheme \<Rightarrow> 'a" +
  assumes F_inventories: "F (s\<lparr>m_inventories := m\<rparr>) = F s"
    and F_fullyCached: "F (s\<lparr>m_fullyCachedClients := f\<rparr>) = F s"
begin

lemma inventory_op_same:
  "F s = v \<Longrightarrow> after (\<lambda>s. F s = v) (Inventory_updateStock P cfg c cat it q s)"
  "F s = v \<Longrightarrow> after (\<lambda>s. F s = v) (Inventory_getStock c cat it s)"
  "F s = v \<Longrightarrow> after (\<lambda>s. F s = v) (getInventorySummary P cfg c s)"
  unfolding Inventory_updateStock_def Inventory_getStock_def getInventorySummary_def
  by (intro after_intros stock_op_same saveStockUpdate_same;
      auto simp: F_inventories F_fullyCached intro!: after_intros stock_op_same)+

end

text \<open>Only an update changes the stock, and only the stock of the client it is for.\<close>

lemma read_stock_same:
  "stock_of s = v \<Longrightarrow> after (\<lambda>s. stock_of s = v) (Inventory_getStock c cat it s)"
  "stock_of s = v \<Longrightarrow> after (\<lambda>s. stock_of s = v) (getInventorySummary P cfg c s)"
proof -
  show "stock_of s = v \<Longrightarrow> after (\<lambda>s. stock_of s = v) (Inventory_getStock c cat it s)"
    using query_frame(1) [of c cat it s]
    by (auto simp: Inventory_getStock_def after_def split: option.splits st_splits)
  have full: "stock_of s0 = v \<Longrightarrow> after (\<lambda>s. stock_of s = v) (getFullInventory c s0)" for s0 v
    using query_frame(2) [of c s0] by (auto simp: after_def)
  show "stock_of s = v \<Longrightarrow> after (\<lambda>s. stock_of s = v) (getInventorySummary P cfg c s)"
    unfolding getInventorySummary_def by (intro after_intros full) auto
qed

lemma updateStock_own_stock:
  assumes "\<forall>c' \<in> K. stock_of s c' = v c'" and "c \<notin> K"
  shows "after (\<lambda>s. \<forall>c' \<in> K. stock_of s c' = v c') (Inventory_updateStock P cfg c cat it q s)"
proof (rule afterI)
  fix r s'
  assume "Inventory_updateStock P cfg c cat it q s = (r, s')"
  then show "\<forall>c' \<in> K. stock_of s' c' = v c'"
  proof (cases rule: updateStockE)
    case (failed e)
    with assms show ?thesis by (auto dest: saveStockUpdate_error)
  next
    case (saved res s1)
    with assms show ?thesis by (auto simp: fun_eq_iff dest: saveStockUpdate_stock)
  qed (use assms in auto)
qed

interpretation users_cache: cache_insensitive user_of
  by unfold_locales (simp_all add: user_of_def fun_eq_iff)

lemma validateInventory_valid: "usr_success (validateInventory cat it) = item_valid cat it"
  by (simp add: validateInventory_def item_valid_def split: option.splits)

lemma item_valid_nonempty: "item_valid cat it \<Longrightarrow> sql_nonempty cat \<and> sql_nonempty it"
  by (auto simp: item_valid_def s_validItems_def sql_nonempty_def c_string_def split: if_splits)

lemma user_known_nonempty: "storage_ok s \<Longrightarrow> user_known s c \<Longrightarrow> sql_nonempty c"
  by (auto simp: storage_ok_def users_ok_def user_known_def)

lemma updateStock_contract:
  assumes "inventory_inv s" and "storage_ready s" and "user_known s c" and "is_int32 q"
  shows "\<exists>r s'. Inventory_updateStock P cfg c cat it q s = (Inr r, s') \<and>
    (usr_success r, stock_abs s') = spec_update c cat it q (stock_abs s) \<and> inventory_inv s'"
proof -
  obtain r s' where u: "Inventory_updateStock P cfg c cat it q s = (r, s')" by fastforce
  have inv: "inventory_inv s'" using updateStock_keeps [OF assms(1,4), of P cfg c cat it] u by simp
  from u show ?thesis
  proof (cases rule: updateStockE)
    case (negative res lvl cmp msg)
    with u inv show ?thesis by (auto simp: spec_update_def stock_abs_def)
  next
    case invalid
    with u inv show ?thesis by (auto simp: spec_update_def validateInventory_valid)
  next
    case (failed e)
    with assms(2,3) have "sql_nonempty c" "sql_nonempty cat" "sql_nonempty it"
      using item_valid_nonempty user_known_nonempty
      by (auto simp: validateInventory_valid storage_ready_def)
    with failed(3) assms(2,3) show ?thesis by (simp add: saveStockUpdate_def sql_on_ready)
  next
    case (saved res s1)
    then have "stock_abs s' = (stock_abs s)((c, cat, it) \<mapsto> q)"
      using saveStockUpdate_stock [OF saved(3)] by (auto simp: stock_abs_def fun_eq_iff)
    with u inv saved show ?thesis by (simp add: spec_update_def validateInventory_valid)
  qed
qed

section \<open>Properties\<close>

text \<open>
  C2. Inventory refines a plain table of quantities: on a database that answers, an update
  for a registered client returns without an exception, is accepted exactly when the
  contract accepts it, changes the stored quantities exactly as the contract says, and
  leaves the cache in agreement with the database.
\<close>

theorem updateStock_refines:
  assumes "inventory_inv s" and "storage_ready s" and "user_known s c" and "is_int32 q"
  shows "\<exists>r s'. Inventory_updateStock P cfg c cat it q s = (Inr r, s') \<and>
    (usr_success r, stock_abs s') = spec_update c cat it q (stock_abs s) \<and> inventory_inv s'"
  by (rule updateStock_contract [OF assms])

text \<open>
  C16. The cache is transparent: getStock answers with the quantity in the database, whether
  or not it is cached, and neither call of it changes a quantity.
\<close>

theorem getStock_transparent:
  assumes "inventory_inv s" and "Inventory_getStock c cat it s = (r, s')"
  shows "(\<forall>v. r = Inr v \<longrightarrow> v = stock_of s c cat it) \<and> (storage_ready s \<longrightarrow> r = Inr (stock_of s c cat it))
    \<and> stock_of s' = stock_of s \<and> inventory_inv s'"
proof -
  have inv: "inventory_inv s'" using getStock_keeps [OF assms(1), of c cat it] assms(2) by simp
  from assms(2,1) show ?thesis
  proof (cases rule: getStockE)
    case (error e)
    then have "\<not> storage_ready s" by (auto simp: Storage_getStock_def sql_on_ready)
    with error inv db.get_view [OF error(2)] show ?thesis by simp
  qed (use inv in \<open>auto dest: db.get_view\<close>)
qed

text \<open>
  The summary is the whole inventory: getInventorySummary answers nothing only for a
  client without stock, and otherwise a map with exactly the quantities in the database,
  also when it answers from the cache.
\<close>

theorem getInventorySummary_exact:
  assumes "inventory_inv s" and "getInventorySummary P cfg c s = (Inr r, s')"
  shows "(case r of None \<Rightarrow> \<forall>cat it. stock_of s c cat it = None
      | Some m \<Rightarrow> \<forall>cat it. inv_lookup m cat it = stock_of s c cat it)
    \<and> stock_of s' = stock_of s \<and> inventory_inv s'"
  using assms(2,1) by (cases rule: getInventorySummaryE) auto

text \<open>
  An update that throws leaves every quantity, cached or stored, as it was, and an
  accepted one is what the next getStock answers, even if the database stops answering.
\<close>

theorem updateStock_then_getStock:
  assumes "Inventory_updateStock P cfg c cat it q s = (r, s')"
  shows "case r of
      Inl e \<Rightarrow> stock_of s' = stock_of s \<and> m_inventories s' = m_inventories s
    | Inr res \<Rightarrow> usr_success res \<longrightarrow> Inventory_getStock c cat it s' = (Inr (Some q), s')"
  using assms
proof (cases rule: updateStockE)
  case (failed e)
  then show ?thesis by (auto simp: saveStockUpdate_cache dest: saveStockUpdate_error)
next
  case (saved res s1)
  then have "getStockonCache c cat it s' = Some q" by simp
  with saved show ?thesis by (simp add: Inventory_getStock_def)
qed auto

end
