(* ===== verification/Sessions.thy ===== *)
theory Sessions
  imports Inventory "HOL-Library.Char_ord" "HOL-Library.List_Lexorder"
begin

text \<open>
  The data of the class clientSession (src/include/server/clientSession.hpp) and the class
  SessionManager (src/src/server/sessionManager.cpp).  Sessions are shared objects: the
  state holds a store from object numbers to sessions, and a \<^verbatim>\<open>shared_ptr\<close> is an object
  number.  The \<^verbatim>\<open>std::map\<close> of active sessions is a list of pairs in key order, which is
  the order in which the code traverses it.
\<close>

record sockaddr =
  ss_family :: nat
  ss_data :: string

record clientSession =
  m_clientSocket :: int
  m_clientID :: string
  m_isAuthenticated :: bool
  m_clientIP :: string
  m_udpAddress :: "sockaddr option"
  m_pendingMessages :: "string list"

record sessions = inventory +
  session_store :: "nat \<rightharpoonup> clientSession"
  m_activeSessions :: "(string \<times> nat) list"
  m_lockedClients :: "string set"
  m_connectedUsers :: "string set"
  m_offlineUsers :: "string set"

section \<open>Ordered maps\<close>

text \<open>\<^verbatim>\<open>m[k] = v\<close> and \<^verbatim>\<open>m.erase(k)\<close> of a \<^verbatim>\<open>std::map\<close> with string keys.\<close>

fun omap_set :: "string \<Rightarrow> 'v \<Rightarrow> (string \<times> 'v) list \<Rightarrow> (string \<times> 'v) list" where
  "omap_set k v [] = [(k, v)]"
| "omap_set k v ((k', v') # m) =
     (if k = k' then (k, v) # m
      else if k < k' then (k, v) # (k', v') # m
      else (k', v') # omap_set k v m)"

definition omap_erase :: "string \<Rightarrow> (string \<times> 'v) list \<Rightarrow> (string \<times> 'v) list" where
  "omap_erase k m = filter (\<lambda>(k', v). k' \<noteq> k) m"

section \<open>Session objects\<close>

definition clientSession_construct :: "int \<Rightarrow> string \<Rightarrow> clientSession" where
  "clientSession_construct clientSocket clientIP =
     \<lparr>m_clientSocket = clientSocket, m_clientID = [], m_isAuthenticated = False,
      m_clientIP = clientIP, m_udpAddress = None, m_pendingMessages = []\<rparr>"

text \<open>Access to the members of the object behind a pointer; the code never follows a dangling one.\<close>

definition the_session :: "nat \<Rightarrow> 'z sessions_scheme \<Rightarrow> clientSession" where
  "the_session sid s =
     (case session_store s sid of Some cs \<Rightarrow> cs | None \<Rightarrow> clientSession_construct (-1) [])"

definition with_session :: "nat \<Rightarrow> (clientSession \<Rightarrow> clientSession) \<Rightarrow> 'z sessions_scheme \<Rightarrow> 'z sessions_scheme" where
  "with_session sid f s = s\<lparr>session_store := (session_store s)(sid \<mapsto> f (the_session sid s))\<rparr>"

definition getUdpAddress :: "nat \<Rightarrow> 'z sessions_scheme \<Rightarrow> sockaddr option" where
  "getUdpAddress sid s = m_udpAddress (the_session sid s)"

definition setUdpAddress :: "nat \<Rightarrow> sockaddr \<Rightarrow> 'z sessions_scheme \<Rightarrow> 'z sessions_scheme" where
  "setUdpAddress sid addr s = with_session sid (\<lambda>cs. cs\<lparr>m_udpAddress := Some addr\<rparr>) s"

section \<open>SessionManager\<close>

definition registerSession ::
  "'j platform \<Rightarrow> config \<Rightarrow> string \<Rightarrow> nat \<Rightarrow> 'z sessions_scheme \<Rightarrow> 'z sessions_scheme" where
  "registerSession P cfg clientId sid s =
     (let s = s\<lparr>m_activeSessions := omap_set clientId sid (m_activeSessions s)\<rparr>;
          s = s\<lparr>m_offlineUsers := m_offlineUsers s - {clientId}\<rparr> in
      if clientId \<notin> m_connectedUsers s
      then s\<lparr>m_connectedUsers := insert clientId (m_connectedUsers s)\<rparr>
      else Logger_log P cfg INFO ''SessionManager''
             (strcat [''User '', quote, clientId, quote, '' has reconnected.'']) None
             (incrementReconnection ''tcp'' ''rx'' s))"

definition unregisterSession :: "string \<Rightarrow> 'z sessions_scheme \<Rightarrow> 'z sessions_scheme" where
  "unregisterSession clientId s =
     s\<lparr>m_activeSessions := omap_erase clientId (m_activeSessions s),
       m_offlineUsers := insert clientId (m_offlineUsers s)\<rparr>"

definition lockClient ::
  "'j platform \<Rightarrow> config \<Rightarrow> string \<Rightarrow> 'z sessions_scheme \<Rightarrow> bool res \<times> 'z sessions_scheme" where
  "lockClient P cfg clientId s =
     seq_st (setClientLockStatus clientId True s) (\<lambda>success s.
       if success then
         (let s = Logger_log P cfg INFO ''SessionManager''
                (strcat [''Client '', quote, clientId, quote, '' has been locked due to alert trigger.''])
                (Some clientId) s
          in (Inr success, s\<lparr>m_lockedClients := insert clientId (m_lockedClients s)\<rparr>))
       else
         (Inr success, Logger_log P cfg INFO ''SessionManager''
            (strcat [''Couldn'', quote, ''t lock client '', quote, clientId, quote,
               ''. Client was not found. May not be registered.'']) (Some clientId) s))"

definition unlockClient ::
  "'j platform \<Rightarrow> config \<Rightarrow> string \<Rightarrow> 'z sessions_scheme \<Rightarrow> bool res \<times> 'z sessions_scheme" where
  "unlockClient P cfg clientId s =
     seq_st (setClientLockStatus clientId False s) (\<lambda>success s.
       if success then
         (let s = Logger_log P cfg INFO ''SessionManager''
                (strcat [''Client '', quote, clientId, quote, '' has been unlocked.'']) (Some clientId) s
          in (Inr success, s\<lparr>m_lockedClients := m_lockedClients s - {clientId}\<rparr>))
       else
         (Inr success, Logger_log P cfg INFO ''SessionManager''
            (strcat [''Couldn'', quote, ''t unlock client '', quote, clientId, quote,
               ''. Client was not found. May not be registered.'']) (Some clientId) s))"

definition isClientLocked :: "string \<Rightarrow> 'z sessions_scheme \<Rightarrow> bool res \<times> 'z sessions_scheme" where
  "isClientLocked clientId s =
     (if clientId \<in> m_lockedClients s then (Inr True, s)
      else seq_st (Storage_isClientLocked clientId s) (\<lambda>locked s.
        if locked then (Inr True, s\<lparr>m_lockedClients := insert clientId (m_lockedClients s)\<rparr>)
        else (Inr False, s)))"

definition isClientRegistered :: "string \<Rightarrow> 'z sessions_scheme \<Rightarrow> bool" where
  "isClientRegistered clientId s = (map_of (m_activeSessions s) clientId \<noteq> None)"

definition getSession :: "string \<Rightarrow> 'z sessions_scheme \<Rightarrow> nat option" where
  "getSession clientId s = map_of (m_activeSessions s) clientId"

definition getActiveUdpAddresses :: "'z sessions_scheme \<Rightarrow> sockaddr list" where
  "getActiveUdpAddresses s = List.map_filter (\<lambda>(clientId, sid). getUdpAddress sid s) (m_activeSessions s)"

definition getOfflineUsers :: "'z sessions_scheme \<Rightarrow> string set" where
  "getOfflineUsers s = m_offlineUsers s"

section \<open>The invariant\<close>

text \<open>
  Whom the cache of locked clients names is locked in the database; a session is
  authenticated when it has a client id, and then the client is a user of the database that
  has connected; the registered sessions are authenticated as the client they are
  registered for; the clients that have connected are either registered or offline, and
  never both.
\<close>

definition locks_agree :: "'z sessions_scheme \<Rightarrow> bool" where
  "locks_agree s \<longleftrightarrow> (\<forall>c \<in> m_lockedClients s. \<exists>r. user_of s c = Some r \<and> u_is_locked r = 1)"

definition session_ok :: "'z sessions_scheme \<Rightarrow> clientSession \<Rightarrow> bool" where
  "session_ok s cs \<longleftrightarrow> (if m_isAuthenticated cs
     then m_clientID cs \<in> m_connectedUsers s \<and> user_known s (m_clientID cs)
     else m_clientID cs = [])"

definition registry_ok :: "'z sessions_scheme \<Rightarrow> bool" where
  "registry_ok s \<longleftrightarrow> sorted_wrt (<) (map fst (m_activeSessions s)) \<and>
     (\<forall>(c, sid) \<in> set (m_activeSessions s).
        \<exists>cs. session_store s sid = Some cs \<and> m_isAuthenticated cs \<and> m_clientID cs = c) \<and>
     fst ` set (m_activeSessions s) \<inter> m_offlineUsers s = {} \<and>
     fst ` set (m_activeSessions s) \<union> m_offlineUsers s = m_connectedUsers s \<and>
     finite (m_offlineUsers s)"

definition sessions_inv :: "'z sessions_scheme \<Rightarrow> bool" where
  "sessions_inv s \<longleftrightarrow> inventory_inv s \<and> locks_agree s \<and> registry_ok s \<and>
     (\<forall>cs \<in> ran (session_store s). session_ok s cs)"

text \<open>The part of the state the invariant reads, and the changes of the users it allows.\<close>

definition session_view :: "'z sessions_scheme \<Rightarrow>
    (nat \<rightharpoonup> clientSession) \<times> (string \<times> nat) list \<times> string set \<times> string set \<times> string set" where
  "session_view s =
     (session_store s, m_activeSessions s, m_lockedClients s, m_connectedUsers s, m_offlineUsers s)"

definition users_grow :: "'y storage_scheme \<Rightarrow> 'z storage_scheme \<Rightarrow> bool" where
  "users_grow s0 s \<longleftrightarrow> (\<forall>h r. user_of s0 h = Some r \<longrightarrow>
     (\<exists>r'. user_of s h = Some r' \<and> u_is_locked r' = u_is_locked r))"

section \<open>Lemmas\<close>

lemma map_of_omap_set [simp]: "map_of (omap_set k v m) = (map_of m)(k \<mapsto> v)"
  by (induction k v m rule: omap_set.induct) (auto simp: fun_eq_iff)

lemma map_of_omap_erase [simp]: "map_of (omap_erase k m) = (map_of m)(k := None)"
  by (induction m) (auto simp: omap_erase_def fun_eq_iff)

lemma set_omap_set: "sorted_wrt (<) (map fst m) \<Longrightarrow> set (omap_set k v m) = insert (k, v) {p \<in> set m. fst p \<noteq> k}"
  by (induction k v m rule: omap_set.induct) auto

lemma keys_omap_set [simp]: "fst ` set (omap_set k v m) = insert k (fst ` set m)"
  by (induction k v m rule: omap_set.induct) auto

lemma sorted_omap_set:
  "sorted_wrt (<) (map fst m) \<Longrightarrow> sorted_wrt (<) (map fst (omap_set k v m))"
proof (induction k v m rule: omap_set.induct)
  case (2 k v k' v' m)
  have "\<forall>x \<in> fst ` set (omap_set k v m). k' < x" if "k \<noteq> k'" "\<not> k < k'"
    using that 2(2) by auto
  with 2 show ?case by auto
qed simp

lemma set_omap_erase: "set (omap_erase k m) = {p \<in> set m. fst p \<noteq> k}"
  by (auto simp: omap_erase_def)

lemma keys_omap_erase [simp]: "fst ` set (omap_erase k m) = fst ` set m - {k}"
  by (force simp: omap_erase_def)

lemma sorted_omap_erase:
  "sorted_wrt (<) (map fst m) \<Longrightarrow> sorted_wrt (<) (map fst (omap_erase k m))"
  by (induction m) (auto simp: omap_erase_def)

subsection \<open>Users are never removed\<close>

interpretation grow_log: log_insensitive "users_grow s0"
  by unfold_locales (simp_all add: users_grow_def user_of_def)

interpretation grow_traffic: traffic_insensitive "users_grow s0"
  by unfold_locales (simp_all add: users_grow_def user_of_def)

lemma users_grow_refl [simp]: "users_grow s s"
  by (simp add: users_grow_def)

lemma users_grow_eq: "user_of s = user_of s0 \<Longrightarrow> users_grow s0 s"
  by (simp add: users_grow_def)

lemma users_grow_known: "users_grow s0 s \<Longrightarrow> user_known s0 h \<Longrightarrow> user_known s h"
  using user_of_None [of s0 h] user_of_None [of s h] by (fastforce simp: users_grow_def)

lemma grow_query:
  "users_grow s0 s \<Longrightarrow> after (users_grow s0) (getUserLoginData h s)"
  "users_grow s0 s \<Longrightarrow> after (users_grow s0) (userExists h s)"
  using query_frame(4) [of h s] query_frame(3) [of h s] by (auto simp: after_def users_grow_def)

lemma grow_updateLoginAttempts:
  "users_grow s0 s \<Longrightarrow> after (users_grow s0) (updateLoginAttempts h ok ts s)"
  by (rule afterI, erule updateLoginAttemptsE)
    (fastforce simp: users_grow_def update_users_user_of split: if_splits)+

lemma grow_createUser: "users_grow s0 s \<Longrightarrow> after (users_grow s0) (createUser P h p s)"
  by (rule afterI, erule createUserE) (fastforce simp: users_grow_def user_of_def find_append)+

lemma grow_authenticate: "users_grow s0 s \<Longrightarrow> after (users_grow s0) (authenticate P cfg h p block s)"
  unfolding authenticate_def
  by (intro after_intros grow_query grow_updateLoginAttempts)
    (auto intro!: after_intros grow_query grow_updateLoginAttempts)

subsection \<open>Operations of the other components\<close>

interpretation session_field: component_field session_view
  by unfold_locales (simp_all add: session_view_def)

interpretation session_cache: cache_insensitive session_view
  by unfold_locales (simp_all add: session_view_def)

interpretation stock_user: user_insensitive stock_of
  by unfold_locales (simp_all add: stock_of_def fun_eq_iff)

lemma sessions_inv_frame:
  assumes "sessions_inv s" and "inventory_inv s'" and "users_grow s s'" and "session_view s' = session_view s"
  shows "sessions_inv s'"
proof -
  have "locks_agree s'" "registry_ok s'"
    using assms by (fastforce simp: sessions_inv_def locks_agree_def registry_ok_def session_view_def users_grow_def)+
  moreover have "\<forall>cs \<in> ran (session_store s'). session_ok s' cs"
    using assms users_grow_known [OF assms(3)] by (auto simp: sessions_inv_def session_ok_def session_view_def)
  ultimately show ?thesis using assms(2) by (simp add: sessions_inv_def)
qed

lemma after_sessions_inv:
  assumes "sessions_inv s" and "after inventory_inv m" and "after (users_grow s) m"
    and "after (\<lambda>s'. session_view s' = session_view s) m"
  shows "after sessions_inv m"
  using assms sessions_inv_frame [of s "snd m"] by (simp add: after_def)

lemma sessions_inv_log [simp]:
  "sessions_inv s \<Longrightarrow> sessions_inv (Logger_log P cfg level c m ci s)"
  by (rule sessions_inv_frame) (simp_all add: sessions_inv_def)

lemma sessions_inv_increment [simp]:
  "sessions_inv s \<Longrightarrow> sessions_inv (incrementMessage p d s)"
  "sessions_inv s \<Longrightarrow> sessions_inv (incrementError p d s)"
  "sessions_inv s \<Longrightarrow> sessions_inv (incrementReconnection p d s)"
  by (rule sessions_inv_frame; simp add: sessions_inv_def)+

lemma inventory_inv_after_user_op:
  assumes "inventory_inv s" and "after storage_ok m" and "after (\<lambda>s'. stock_of s' = stock_of s) m"
    and "after (\<lambda>s'. m_inventories s' = m_inventories s) m"
    and "after (\<lambda>s'. m_fullyCachedClients s' = m_fullyCachedClients s) m"
  shows "after inventory_inv m"
  using assms by (simp add: after_def inventory_inv_def)

lemma sessions_after_authenticate [after_intros]:
  assumes "sessions_inv s"
  shows "after sessions_inv (authenticate P cfg h p block s)"
proof (rule after_sessions_inv [OF assms])
  have inv: "inventory_inv s" using assms by (simp add: sessions_inv_def)
  show "after inventory_inv (authenticate P cfg h p block s)"
    using inv by (intro inventory_inv_after_user_op [of s] authenticate_keeps stock_user.authenticate_same
        cache_field.authenticate_same cached_field.authenticate_same) (simp_all add: inventory_inv_def)
qed (auto intro: grow_authenticate session_field.authenticate_same)

lemma sessions_after_createUser [after_intros]:
  assumes "sessions_inv s"
  shows "after sessions_inv (createUser P h p s)"
proof (rule after_sessions_inv [OF assms])
  have inv: "inventory_inv s" using assms by (simp add: sessions_inv_def)
  show "after inventory_inv (createUser P h p s)"
    using inv by (intro inventory_inv_after_user_op [of s] storage_ok_after stock_user.createUser_same
        cache_field.createUser_same cached_field.createUser_same) (simp_all add: inventory_inv_def)
qed (auto intro: grow_createUser session_field.createUser_same)

lemma sessions_after_inventory [after_intros]:
  assumes "sessions_inv s"
  shows "is_int32 q \<Longrightarrow> after sessions_inv (Inventory_updateStock P cfg c cat it q s)"
    and "after sessions_inv (Inventory_getStock c cat it s)"
    and "after sessions_inv (getInventorySummary P cfg c s)"
proof -
  have inv: "inventory_inv s" using assms by (simp add: sessions_inv_def)
  have grow: "after (users_grow s) m" if "after (\<lambda>s'. user_of s' = user_of s) m"
    for m :: "'x \<times> 'a sessions_scheme"
    using that by (simp add: after_def users_grow_eq)
  note rest = grow [OF users_cache.inventory_op_same(1)] grow [OF users_cache.inventory_op_same(2)]
    grow [OF users_cache.inventory_op_same(3)] session_cache.inventory_op_same
  show "is_int32 q \<Longrightarrow> after sessions_inv (Inventory_updateStock P cfg c cat it q s)"
    "after sessions_inv (Inventory_getStock c cat it s)"
    "after sessions_inv (getInventorySummary P cfg c s)"
    using inv by (auto intro!: after_sessions_inv [OF assms] inventory_after rest)
qed

subsection \<open>The methods of SessionManager\<close>

lemma session_fields_irrelevant [simp]:
  "user_of (s\<lparr>session_store := st\<rparr>) = user_of s"
  "user_of (s\<lparr>m_activeSessions := a\<rparr>) = user_of s"
  "user_of (s\<lparr>m_lockedClients := l\<rparr>) = user_of s"
  "user_of (s\<lparr>m_connectedUsers := l\<rparr>) = user_of s"
  "user_of (s\<lparr>m_offlineUsers := l\<rparr>) = user_of s"
  "user_known (s\<lparr>session_store := st\<rparr>) = user_known s"
  "user_known (s\<lparr>m_activeSessions := a\<rparr>) = user_known s"
  "user_known (s\<lparr>m_lockedClients := l\<rparr>) = user_known s"
  "user_known (s\<lparr>m_connectedUsers := l\<rparr>) = user_known s"
  "user_known (s\<lparr>m_offlineUsers := l\<rparr>) = user_known s"
  "stock_of (s\<lparr>session_store := st\<rparr>) = stock_of s"
  "stock_of (s\<lparr>m_activeSessions := a\<rparr>) = stock_of s"
  "stock_of (s\<lparr>m_lockedClients := l\<rparr>) = stock_of s"
  "stock_of (s\<lparr>m_connectedUsers := l\<rparr>) = stock_of s"
  "stock_of (s\<lparr>m_offlineUsers := l\<rparr>) = stock_of s"
  "storage_ok (s\<lparr>session_store := st\<rparr>) = storage_ok s"
  "storage_ok (s\<lparr>m_activeSessions := a\<rparr>) = storage_ok s"
  "storage_ok (s\<lparr>m_lockedClients := l\<rparr>) = storage_ok s"
  "storage_ok (s\<lparr>m_connectedUsers := l\<rparr>) = storage_ok s"
  "storage_ok (s\<lparr>m_offlineUsers := l\<rparr>) = storage_ok s"
  "storage_ready (s\<lparr>session_store := st\<rparr>) = storage_ready s"
  "storage_ready (s\<lparr>m_activeSessions := a\<rparr>) = storage_ready s"
  "storage_ready (s\<lparr>m_lockedClients := l\<rparr>) = storage_ready s"
  "storage_ready (s\<lparr>m_connectedUsers := l\<rparr>) = storage_ready s"
  "storage_ready (s\<lparr>m_offlineUsers := l\<rparr>) = storage_ready s"
  by (simp_all add: storage_ready_def storage_ok_def users_ok_def inventory_ok_def logs_ok_def user_known_def
      stock_of_def user_of_def fun_eq_iff cong: option.case_cong)

lemma session_fields_inventory [simp]:
  "inventory_inv (s\<lparr>session_store := st\<rparr>) = inventory_inv s"
  "inventory_inv (s\<lparr>m_activeSessions := a\<rparr>) = inventory_inv s"
  "inventory_inv (s\<lparr>m_lockedClients := l\<rparr>) = inventory_inv s"
  "inventory_inv (s\<lparr>m_connectedUsers := l\<rparr>) = inventory_inv s"
  "inventory_inv (s\<lparr>m_offlineUsers := l\<rparr>) = inventory_inv s"
  by (simp_all add: inventory_inv_def)

lemma unregisterSession_keeps:
  assumes "sessions_inv s" and "c \<in> m_connectedUsers s"
  shows "sessions_inv (unregisterSession c s)"
proof -
  have "registry_ok (unregisterSession c s)"
    using assms unfolding sessions_inv_def registry_ok_def unregisterSession_def
    by (auto simp: sorted_omap_erase set_omap_erase)
  with assms show ?thesis
    by (auto simp: sessions_inv_def unregisterSession_def locks_agree_def session_ok_def)
qed

lemma registerSession_keeps:
  assumes "sessions_inv s" and "user_known s c" and "session_store s sid = Some cs" and "\<not> m_isAuthenticated cs"
    and cs': "m_isAuthenticated cs'" "m_clientID cs' = c"
  shows "sessions_inv (registerSession P cfg c sid (s\<lparr>session_store := (session_store s)(sid \<mapsto> cs')\<rparr>))"
proof -
  let ?s1 = "s\<lparr>session_store := (session_store s)(sid \<mapsto> cs'),
    m_activeSessions := omap_set c sid (m_activeSessions s),
    m_offlineUsers := m_offlineUsers s - {c}, m_connectedUsers := insert c (m_connectedUsers s)\<rparr>"
  have reg: "registry_ok s" using assms(1) by (simp add: sessions_inv_def)
  have unused: "sid' \<noteq> sid" if "(c', sid') \<in> set (m_activeSessions s)" for c' sid'
    using reg that assms(3,4) by (fastforce simp: registry_ok_def)
  have "registry_ok ?s1"
    using reg unused cs' unfolding registry_ok_def by (auto simp: sorted_omap_set set_omap_set)
  moreover have "session_ok ?s1 cs''" if "cs'' \<in> ran (session_store ?s1)" for cs''
    using that assms(1,2) cs' by (auto simp: sessions_inv_def session_ok_def ran_def split: if_splits)
  ultimately have inv: "sessions_inv ?s1"
    using assms(1) by (simp add: sessions_inv_def locks_agree_def)
  show ?thesis
  proof (cases "c \<in> m_connectedUsers s")
    case True
    then have "m_connectedUsers s = insert c (m_connectedUsers s)" by auto
    then have "?s1 = s\<lparr>session_store := (session_store s)(sid \<mapsto> cs'),
        m_activeSessions := omap_set c sid (m_activeSessions s), m_offlineUsers := m_offlineUsers s - {c}\<rparr>"
      by simp
    with inv True show ?thesis by (simp add: registerSession_def Let_def)
  next
    case False
    with inv show ?thesis by (simp add: registerSession_def Let_def)
  qed
qed

lemma with_session_keeps:
  assumes "sessions_inv s"
    and f: "\<And>cs. m_isAuthenticated (f cs) = m_isAuthenticated cs \<and> m_clientID (f cs) = m_clientID cs"
  shows "sessions_inv (with_session sid f s)"
proof -
  have "registry_ok (with_session sid f s)"
    using assms(1) f by (fastforce simp: sessions_inv_def registry_ok_def with_session_def the_session_def)
  moreover have "session_ok (with_session sid f s) cs" if "cs \<in> ran (session_store (with_session sid f s))" for cs
  proof -
    have "session_ok s (the_session sid s)"
      using assms(1) by (auto simp: sessions_inv_def the_session_def session_ok_def
          clientSession_construct_def ran_def split: option.splits)
    with that assms f show ?thesis
      by (auto simp: sessions_inv_def session_ok_def with_session_def ran_def split: if_splits)
  qed
  ultimately show ?thesis using assms(1) by (simp add: sessions_inv_def locks_agree_def with_session_def)
qed

lemma setUdpAddress_keeps: "sessions_inv s \<Longrightarrow> sessions_inv (setUdpAddress sid addr s)"
  unfolding setUdpAddress_def by (rule with_session_keeps) simp_all

lemma setClientLockStatus_outcome:
  assumes "setClientLockStatus c b s = (r, s')" and "sessions_inv s"
  obtains (changed) "r = Inr (user_known s c)" and "inventory_inv s'" and "session_view s' = session_view s"
      and "\<And>h. user_of s' h = map_option (if h = c then (\<lambda>q. q\<lparr>u_is_locked := (if b then 1 else 0)\<rparr>) else id) (user_of s h)"
    | (error) e where "r = Inl e" and "inventory_inv s'" and "session_view s' = session_view s"
      and "user_of s' = user_of s"
proof -
  have inv: "inventory_inv s" using assms(2) by (simp add: sessions_inv_def)
  have "after inventory_inv (setClientLockStatus c b s)"
    using inv by (intro inventory_inv_after_user_op [of s] storage_ok_after stock_user.setClientLockStatus_same
        cache_field.setClientLockStatus_same cached_field.setClientLockStatus_same) (simp_all add: inventory_inv_def)
  then have inv': "inventory_inv s'" using assms(1) by (simp add: after_def)
  have view: "session_view s' = session_view s"
    using session_field.setClientLockStatus_same [of s "session_view s" c b] assms(1) by (simp add: after_def)
  have dist: "distinct (map u_hostname (db_users s))"
    using inv by (simp add: inventory_inv_def storage_ok_def users_ok_def)
  from assms(1) show thesis
  proof (cases rule: setClientLockStatusE)
    case (1 fs)
    have "r = Inr (user_known s c)"
      using 1(1) count_key_distinct [OF dist, of c] by (auto simp: user_known_def)
    moreover have "user_of s' h = map_option (if h = c then (\<lambda>q. q\<lparr>u_is_locked := (if b then 1 else 0)\<rparr>) else id) (user_of s h)" for h
      using 1(2) update_users_user_of [where f = "\<lambda>q. q\<lparr>u_is_locked := (if b then 1 else 0)\<rparr>" and s = s and h = c and k = h]
      by simp
    ultimately show ?thesis using changed inv' view by blast
  next
    case (2 fs e)
    with inv' view error show ?thesis by simp
  qed
qed

lemma sessions_inv_lock_status:
  assumes "setClientLockStatus c b s = (r, s1)" and "sessions_inv s"
    and "locked = (if b then insert c (m_lockedClients s) else m_lockedClients s - {c})" and "r = Inr True"
  shows "sessions_inv (s1\<lparr>m_lockedClients := locked\<rparr>)"
  using assms(1,2)
proof (cases rule: setClientLockStatus_outcome)
  case changed
  have view: "session_store s1 = session_store s" "m_activeSessions s1 = m_activeSessions s"
      "m_connectedUsers s1 = m_connectedUsers s" "m_offlineUsers s1 = m_offlineUsers s"
    using changed(3) by (simp_all add: session_view_def)
  have known: "user_known s1 h = user_known s h" for h
    using changed(4) [of h] user_of_None [of s1 h] user_of_None [of s h] by auto
  then have kn: "user_known s1 = user_known s" by blast
  have reg: "registry_ok (s1\<lparr>m_lockedClients := locked\<rparr>)"
    using assms(2) by (simp add: sessions_inv_def registry_ok_def view)
  have "locks_agree (s1\<lparr>m_lockedClients := locked\<rparr>)"
    unfolding locks_agree_def
  proof
    fix h assume "h \<in> m_lockedClients (s1\<lparr>m_lockedClients := locked\<rparr>)"
    then have h: "h \<in> locked" by simp
    show "\<exists>q. user_of (s1\<lparr>m_lockedClients := locked\<rparr>) h = Some q \<and> u_is_locked q = 1"
    proof (cases "h = c")
      case True
      with h assms(3) have b by (auto split: if_splits)
      from assms(4) changed(1) have "user_known s c" by simp
      then obtain q where "user_of s c = Some q" using user_of_None [of s c] by auto
      with True \<open>b\<close> changed(4) [of c] show ?thesis by simp
    next
      case False
      with h assms(3) have "h \<in> m_lockedClients s" by (auto split: if_splits)
      with assms(2) obtain q where "user_of s h = Some q" "u_is_locked q = 1"
        by (auto simp: sessions_inv_def locks_agree_def)
      with False changed(4) [of h] show ?thesis by simp
    qed
  qed
  with reg changed(2) assms(2) show ?thesis
    by (simp add: sessions_inv_def session_ok_def view kn)
qed (use assms(4) in simp)

lemma sessions_inv_lock_other:
  assumes "setClientLockStatus c b s = (r, s1)" and "sessions_inv s" and "r \<noteq> Inr True"
  shows "sessions_inv s1"
  using assms(1,2)
proof (cases rule: setClientLockStatus_outcome)
  case changed
  with assms(3) have "user_of s c = None" by (simp add: user_of_None)
  then have "user_of s1 h = user_of s h" for h using changed(4) [of h] by (cases "h = c") (simp_all add: option.map_id)
  then have "user_of s1 = user_of s" by blast
  with changed assms(2) show ?thesis by (intro sessions_inv_frame [of s s1]) (simp_all add: users_grow_eq)
next
  case (error e)
  with assms(2) show ?thesis by (intro sessions_inv_frame [of s s1]) (simp_all add: users_grow_eq)
qed

lemma sessions_inv_locked_log:
  "sessions_inv (s\<lparr>m_lockedClients := l\<rparr>) \<Longrightarrow>
     sessions_inv ((Logger_log P cfg lvl c m ci s)\<lparr>m_lockedClients := l\<rparr>)"
proof (rule sessions_inv_frame [of "s\<lparr>m_lockedClients := l\<rparr>"])
  assume "sessions_inv (s\<lparr>m_lockedClients := l\<rparr>)"
  then show "inventory_inv ((Logger_log P cfg lvl c m ci s)\<lparr>m_lockedClients := l\<rparr>)"
    by (simp add: sessions_inv_def)
  show "session_view ((Logger_log P cfg lvl c m ci s)\<lparr>m_lockedClients := l\<rparr>) = session_view (s\<lparr>m_lockedClients := l\<rparr>)"
    using session_field.Logger_log_same [of P cfg lvl c m ci s] by (simp add: session_view_def)
qed (simp_all add: users_grow_def)

interpretation locked_field: component_field m_lockedClients
  by unfold_locales simp_all

lemma setClientLockStatus_locked:
  "setClientLockStatus c b s = (r, s1) \<Longrightarrow> m_lockedClients s1 = m_lockedClients s"
  using locked_field.setClientLockStatus_same [of s "m_lockedClients s" c b] by (simp add: after_def)

lemma sessions_after_lock_status:
  assumes "sessions_inv s" and f: "f = (if b then insert c else (\<lambda>l. l - {c}))"
  shows "after sessions_inv (seq_st (setClientLockStatus c b s) (\<lambda>success s.
      if success then (let s = Logger_log P cfg INFO cmp m1 ci s
                       in (Inr success, s\<lparr>m_lockedClients := f (m_lockedClients s)\<rparr>))
      else (Inr success, Logger_log P cfg INFO cmp m2 ci s)))"
proof -
  obtain r s1 where sc: "setClientLockStatus c b s = (r, s1)" by fastforce
  show ?thesis
  proof (cases "r = Inr True")
    case True
    have "sessions_inv (s1\<lparr>m_lockedClients := f (m_lockedClients s)\<rparr>)"
      using sessions_inv_lock_status [OF sc assms(1) _ True] f by (cases b) simp_all
    with sc True show ?thesis
      by (simp add: after_iff sessions_inv_locked_log setClientLockStatus_locked [OF sc])
  next
    case False
    with sessions_inv_lock_other [OF sc assms(1)] sc show ?thesis
      by (cases r) (auto simp: after_iff)
  qed
qed

lemma sessions_after_lock [after_intros]:
  assumes "sessions_inv s"
  shows "after sessions_inv (lockClient P cfg c s)" and "after sessions_inv (unlockClient P cfg c s)"
  unfolding lockClient_def unlockClient_def
  by (rule sessions_after_lock_status [OF assms refl, where b = True, unfolded if_True]
      sessions_after_lock_status [OF assms refl, where b = False, unfolded if_False])+

lemma sessions_after_isClientLocked [after_intros]:
  assumes "sessions_inv s"
  shows "after sessions_inv (isClientLocked c s)"
proof (cases "c \<in> m_lockedClients s")
  case False
  obtain r s1 where sc: "Storage_isClientLocked c s = (r, s1)" by fastforce
  then obtain fs where s1: "s1 = s\<lparr>db_faults := fs\<rparr>" using query_frame(6) [of c s] by auto
  have inv1: "sessions_inv s1"
    by (rule sessions_inv_frame [OF assms])
      (use assms in \<open>auto simp: s1 sessions_inv_def inventory_inv_def session_view_def users_grow_eq\<close>)
  have row: "\<exists>q. user_of s1 c = Some q \<and> u_is_locked q = 1" if ok: "r = Inr True"
  proof -
    obtain q where q: "user_of s1 c = Some q" "to_int32 (u_is_locked q) = 1"
      using sc ok unfolding Storage_isClientLocked_def user_of_def
      by (auto split: st_splits option.splits elim!: sql_onE)
    moreover have "u_is_locked q = 0 \<or> u_is_locked q = 1"
      using q(1) inv1 user_of_mem [of s1 c q]
      by (auto simp: sessions_inv_def inventory_inv_def storage_ok_def users_ok_def)
    ultimately show ?thesis by auto
  qed
  have "sessions_inv (s1\<lparr>m_lockedClients := insert c (m_lockedClients s1)\<rparr>)" if "r = Inr True"
    using inv1 row [OF that] by (simp add: sessions_inv_def locks_agree_def registry_ok_def session_ok_def)
  with False sc inv1 show ?thesis
    by (cases r) (auto simp: isClientLocked_def after_iff)
qed (use assms in \<open>simp add: isClientLocked_def after_iff\<close>)

lemma setClientLockStatus_ready:
  assumes "storage_ready s"
  obtains x s1 where "setClientLockStatus c b s = (Inr x, s1)" and "storage_ready s1"
proof -
  obtain x s1 where sc: "setClientLockStatus c b s = (Inr x, s1)" "db_faults s1 = db_faults s" "db_tables s1 = db_tables s"
    using assms by (simp add: setClientLockStatus_def sql_on_ready)
  moreover have "storage_ok s1"
    using setClientLockStatus_keeps [of s c b] assms sc(1) by (simp add: storage_ready_def)
  ultimately show thesis using that assms by (simp add: storage_ready_def)
qed

lemma lock_status_effect:
  assumes "sessions_inv s" and "storage_ready s"
  obtains s' where "(if b then lockClient P cfg c s else unlockClient P cfg c s) = (Inr (user_known s c), s')"
    and "sessions_inv s'" and "storage_ready s'"
    and "\<And>h. user_of s' h = map_option (if h = c then (\<lambda>q. q\<lparr>u_is_locked := (if b then 1 else 0)\<rparr>) else id) (user_of s h)"
    and "user_known s c \<Longrightarrow> fst (isClientLocked c s') = Inr b"
proof -
  obtain x s1 where sc: "setClientLockStatus c b s = (Inr x, s1)" "storage_ready s1"
    by (rule setClientLockStatus_ready [OF assms(2)])
  from sc(1) assms(1) have x: "x = user_known s c" and users: "\<And>h. user_of s1 h =
      map_option (if h = c then (\<lambda>q. q\<lparr>u_is_locked := (if b then 1 else 0)\<rparr>) else id) (user_of s h)"
    by (auto elim!: setClientLockStatus_outcome)
  let ?m = "if b then lockClient P cfg c s else unlockClient P cfg c s"
  have "after sessions_inv ?m" using assms(1) by (intro after_intros)
  show ?thesis
  proof (cases "user_known s c")
    case True
    then obtain q where q: "user_of s c = Some q" using user_of_None [of s c] by auto
    obtain s' where s': "?m = (Inr True, s')" "user_of s' = user_of s1" "storage_ready s'"
        "(c \<in> m_lockedClients s') = b"
      using sc x True by (cases b) (simp_all add: lockClient_def unlockClient_def Let_def)
    have "fst (isClientLocked c s') = Inr b"
      using s'(2-4) users [of c] q
      by (auto simp: isClientLocked_def Storage_isClientLocked_def sql_on_ready user_of_def [symmetric])
    with s' True users \<open>after sessions_inv ?m\<close> show ?thesis by (intro that [of s']) (simp_all add: after_iff)
  next
    case False
    then obtain s' where "?m = (Inr False, s')" "user_of s' = user_of s1" "storage_ready s'"
      using sc x by (cases b) (simp_all add: lockClient_def unlockClient_def Let_def)
    with False users \<open>after sessions_inv ?m\<close> show ?thesis by (intro that [of s']) (simp_all add: after_iff)
  qed
qed

section \<open>Properties\<close>

text \<open>
  LockClient and unlockClient answer whether the client is a registered user, set the
  lock of that user in the database and in the cache to what was asked, and change no other
  user, so that isClientLocked answers the new status.
\<close>

theorem lock_unlock_effect:
  assumes "sessions_inv s" and "storage_ready s"
  shows "\<exists>s'. (if b then lockClient P cfg c s else unlockClient P cfg c s) = (Inr (user_known s c), s') \<and>
    sessions_inv s' \<and>
    (\<forall>h. user_of s' h = map_option (if h = c then (\<lambda>q. q\<lparr>u_is_locked := (if b then 1 else 0)\<rparr>) else id) (user_of s h)) \<and>
    (user_known s c \<longrightarrow> fst (isClientLocked c s') = Inr b)"
proof (rule lock_status_effect [OF assms, of b P cfg c])
qed blast

end
