(* ===== verification/EventQueue.thy ===== *)
theory EventQueue
  imports Sessions
begin

text \<open>
  The class EventQueue (src/src/server/eventQueue.cpp): for each client a queue of events
  of bounded length, in which a push on a full queue drops the oldest event.  Its size is
  the one of the configuration.  Removing the front of an empty \<^verbatim>\<open>deque\<close> is undefined; the
  state records that it happened.
\<close>

datatype EventType = NOTIFICATION

record Event =
  ev_type :: EventType
  ev_message :: string

record events = sessions +
  m_eventQueueMap :: "string \<rightharpoonup> Event list"
  undefined_behaviour :: bool

text \<open>\<^verbatim>\<open>static_cast<size_t>(m_queueSize)\<close>.\<close>

definition capacity :: "config \<Rightarrow> nat" where
  "capacity cfg = nat (m_queueSize cfg mod 2 ^ 64)"

definition pushEvent ::
  "'j platform \<Rightarrow> config \<Rightarrow> string \<Rightarrow> Event \<Rightarrow> 'z events_scheme \<Rightarrow> 'z events_scheme" where
  "pushEvent P cfg clientID event s =
     (let q = (case m_eventQueueMap s clientID of None \<Rightarrow> [] | Some q \<Rightarrow> q);
          s = s\<lparr>m_eventQueueMap := (m_eventQueueMap s)(clientID \<mapsto> q)\<rparr>;
          (q, s) = (if length q \<ge> capacity cfg
            then (tl q, Logger_log P cfg WARNING ''EventQueue''
                    (strcat [''Event queue for client '', clientID, '' is full. Oldest event dropped.'']) None
                    (s\<lparr>m_eventQueueMap := (m_eventQueueMap s)(clientID \<mapsto> tl q),
                       undefined_behaviour := undefined_behaviour s \<or> q = []\<rparr>))
            else (q, s));
          s = s\<lparr>m_eventQueueMap := (m_eventQueueMap s)(clientID \<mapsto> q @ [event])\<rparr>
      in Logger_log P cfg INFO ''EventQueue''
           (strcat [''Event pushed to queue for client '', clientID]) None s)"

definition popEvent ::
  "'j platform \<Rightarrow> config \<Rightarrow> string \<Rightarrow> 'z events_scheme \<Rightarrow> Event option \<times> 'z events_scheme" where
  "popEvent P cfg clientID s =
     (case m_eventQueueMap s clientID of
        Some (event # q) \<Rightarrow>
          (let s = s\<lparr>m_eventQueueMap := (m_eventQueueMap s)(clientID := (if q = [] then None else Some q))\<rparr>
           in (Some event, Logger_log P cfg INFO ''EventQueue''
                (strcat [''Event popped from queue for client '', clientID]) None s))
      | _ \<Rightarrow> (None, Logger_log P cfg INFO ''EventQueue''
                (strcat [''No events to pop for client '', clientID]) None s))"

section \<open>The contract: a bounded queue that keeps the newest events\<close>

definition events_of :: "'z events_scheme \<Rightarrow> string \<Rightarrow> Event list" where
  "events_of s c = (case m_eventQueueMap s c of None \<Rightarrow> [] | Some q \<Rightarrow> q)"

text \<open>All events of a client, popped one after the other.\<close>

fun pop_all :: "nat \<Rightarrow> ('k \<Rightarrow> 's \<Rightarrow> 'e option \<times> 's) \<Rightarrow> 'k \<Rightarrow> 's \<Rightarrow> 'e list \<times> 's" where
  "pop_all 0 pop k s = ([], s)"
| "pop_all (Suc n) pop k s =
     (case pop k s of (None, s) \<Rightarrow> ([], s) | (Some e, s) \<Rightarrow> (let (es, s) = pop_all n pop k s in (e # es, s)))"

locale bounded_fifo =
  fixes bound :: nat
    and contents :: "'s \<Rightarrow> 'k \<Rightarrow> 'e list"
    and push :: "'k \<Rightarrow> 'e \<Rightarrow> 's \<Rightarrow> 's"
    and pop :: "'k \<Rightarrow> 's \<Rightarrow> 'e option \<times> 's"
  assumes push_contents: "contents (push k e s) =
      (contents s)(k := (if bound \<le> length (contents s k) then tl (contents s k) else contents s k) @ [e])"
    and pop_none: "contents s k = [] \<Longrightarrow> fst (pop k s) = None \<and> contents (snd (pop k s)) = contents s"
    and pop_some: "contents s k = e # q \<Longrightarrow> fst (pop k s) = Some e \<and> contents (snd (pop k s)) = (contents s)(k := q)"
begin

lemma push_bounded:
  "0 < bound \<Longrightarrow> length (contents s k) \<le> bound \<Longrightarrow> length (contents (push k' e s) k) \<le> bound"
  by (auto simp: push_contents)

lemma push_other: "k' \<noteq> k \<Longrightarrow> contents (push k e s) k' = contents s k'"
  by (simp add: push_contents)

lemma push_many:
  assumes "0 < bound" and "length (contents s k) \<le> bound"
  shows "contents (fold (push k) es s) k =
    drop (length (contents s k) + length es - bound) (contents s k @ es)"
  using assms(2)
proof (induction es arbitrary: s)
  case (Cons e es)
  let ?q = "contents s k" and ?s = "push k e s"
  have IH: "contents (fold (push k) es ?s) k =
      drop (length (contents ?s k) + length es - bound) (contents ?s k @ es)"
    by (rule Cons.IH) (rule push_bounded [OF assms(1) Cons.prems])
  show ?case
  proof (cases "bound \<le> length ?q")
    case True
    with Cons.prems assms(1) obtain x q where q: "?q = x # q" "bound = Suc (length q)" by (cases ?q) auto
    with IH show ?thesis by (simp add: push_contents)
  next
    case False
    with IH show ?thesis by (simp add: push_contents)
  qed
qed simp

lemma pop_all_contents:
  "length (contents s k) \<le> n \<Longrightarrow> fst (pop_all n pop k s) = contents s k \<and>
     contents (snd (pop_all n pop k s)) = (contents s)(k := [])"
proof (induction n arbitrary: s)
  case 0
  then show ?case by (auto simp: fun_eq_iff)
next
  case (Suc n)
  show ?case
  proof (cases "contents s k")
    case Nil
    with pop_none [OF Nil] show ?thesis by (cases "pop k s") (auto simp: fun_eq_iff)
  next
    case (Cons e q)
    with Suc pop_some [OF Cons] show ?thesis
      by (cases "pop k s") (auto simp: split_beta)
  qed
qed

end

section \<open>Lemmas\<close>

interpretation queue_field: component_field m_eventQueueMap
  by unfold_locales simp_all

interpretation queue_cache: cache_insensitive m_eventQueueMap
  by unfold_locales simp_all

interpretation undefined_field: component_field undefined_behaviour
  by unfold_locales simp_all

interpretation event_queue: bounded_fifo "capacity cfg" events_of "pushEvent P cfg" "popEvent P cfg"
proof (unfold_locales, goal_cases)
  case (1 k e s)
  then show ?case by (auto simp: pushEvent_def events_of_def Let_def fun_eq_iff split: option.splits)
next
  case (2 s k)
  then show ?case by (auto simp: popEvent_def events_of_def fun_eq_iff split: option.splits list.splits)
next
  case (3 s k e q)
  then show ?case by (auto simp: popEvent_def events_of_def Let_def fun_eq_iff split: option.splits list.splits)
qed

lemma pushEvent_defined:
  "0 < capacity cfg \<Longrightarrow> undefined_behaviour (pushEvent P cfg c e s) = undefined_behaviour s"
  by (auto simp: pushEvent_def Let_def)

lemma fold_pushEvent_defined:
  "0 < capacity cfg \<Longrightarrow> undefined_behaviour (fold (pushEvent P cfg c) es s) = undefined_behaviour s"
  by (induction es arbitrary: s) (simp_all add: pushEvent_defined)

lemma event_fields_irrelevant [simp]:
  "session_view (s\<lparr>m_eventQueueMap := m\<rparr>) = session_view s"
  "session_view (s\<lparr>undefined_behaviour := b\<rparr>) = session_view s"
  "user_of (s\<lparr>m_eventQueueMap := m\<rparr>) = user_of s"
  "user_of (s\<lparr>undefined_behaviour := b\<rparr>) = user_of s"
  "stock_of (s\<lparr>m_eventQueueMap := m\<rparr>) = stock_of s"
  "stock_of (s\<lparr>undefined_behaviour := b\<rparr>) = stock_of s"
  "storage_ok (s\<lparr>m_eventQueueMap := m\<rparr>) = storage_ok s"
  "storage_ok (s\<lparr>undefined_behaviour := b\<rparr>) = storage_ok s"
  "storage_ready (s\<lparr>m_eventQueueMap := m\<rparr>) = storage_ready s"
  "storage_ready (s\<lparr>undefined_behaviour := b\<rparr>) = storage_ready s"
  by (simp_all add: storage_ready_def storage_ok_def users_ok_def inventory_ok_def logs_ok_def user_known_def
      stock_of_def user_of_def session_view_def fun_eq_iff cong: option.case_cong)

lemma event_fields_sessions [simp]:
  "sessions_inv s \<Longrightarrow> sessions_inv (s\<lparr>m_eventQueueMap := m\<rparr>)"
  "sessions_inv s \<Longrightarrow> sessions_inv (s\<lparr>undefined_behaviour := b\<rparr>)"
  by (rule sessions_inv_frame; simp add: sessions_inv_def inventory_inv_def users_grow_def)+

lemma pushEvent_keeps: "sessions_inv s \<Longrightarrow> sessions_inv (pushEvent P cfg c e s)"
  by (simp add: pushEvent_def Let_def)

lemma popEvent_keeps [after_intros]: "sessions_inv s \<Longrightarrow> after sessions_inv (popEvent P cfg c s)"
  by (auto simp: popEvent_def after_iff Let_def split: option.splits list.splits)

lemma capacity_config: "0 < m_queueSize cfg \<Longrightarrow> is_int32 (m_queueSize cfg) \<Longrightarrow> capacity cfg = nat (m_queueSize cfg)"
  by (simp add: capacity_def is_int32_def)

section \<open>Properties\<close>

text \<open>
  C13. The queue of a client is a bounded FIFO that keeps the newest events: after any
  sequence of pushes it holds the last events up to its capacity, popping returns them in
  the order of the pushes, the queues of other clients are untouched and no undefined
  operation is reached.
\<close>

theorem event_queue_keeps_newest:
  assumes "0 < m_queueSize cfg" and "is_int32 (m_queueSize cfg)"
    and "length (events_of s c) \<le> nat (m_queueSize cfg)"
  shows "let s' = fold (pushEvent P cfg c) es s;
      kept = drop (length (events_of s c) + length es - nat (m_queueSize cfg)) (events_of s c @ es)
    in length kept \<le> nat (m_queueSize cfg) \<and> fst (pop_all (length kept) (popEvent P cfg) c s') = kept \<and>
    fst (popEvent P cfg c (snd (pop_all (length kept) (popEvent P cfg) c s'))) = None \<and>
    (\<forall>c'. c' \<noteq> c \<longrightarrow> events_of s' c' = events_of s c') \<and>
    undefined_behaviour s' = undefined_behaviour s"
proof -
  define s' where "s' = fold (pushEvent P cfg c) es s"
  define kept where "kept = drop (length (events_of s c) + length es - nat (m_queueSize cfg)) (events_of s c @ es)"
  have cap: "capacity cfg = nat (m_queueSize cfg)" "0 < capacity cfg"
    using assms(1,2) by (simp_all add: capacity_config)
  have kept: "events_of s' c = kept"
    unfolding s'_def kept_def using event_queue.push_many [OF cap(2), of s c P es] assms(3) cap(1) by simp
  have drain: "fst (pop_all (length kept) (popEvent P cfg) c s') = kept"
      "events_of (snd (pop_all (length kept) (popEvent P cfg) c s')) c = []"
    using event_queue.pop_all_contents [of s' c "length kept" P cfg] kept by simp_all
  have other: "events_of (fold (pushEvent P cfg c) es s) c' = events_of s c'" if "c' \<noteq> c" for c'
    using that by (induction es arbitrary: s) (simp_all add: event_queue.push_other)
  have "length kept \<le> nat (m_queueSize cfg)" using assms(3) by (simp add: kept_def)
  with drain other show ?thesis
    using event_queue.pop_none [OF drain(2), of P cfg] fold_pushEvent_defined [OF cap(2), of P c es s]
    unfolding Let_def s'_def [symmetric] kept_def [symmetric] by (simp add: s'_def)
qed

end
