(* ===== verification/UdpHandler.thy ===== *)
theory UdpHandler
  imports EventQueue
begin

text \<open>
  The class UdpHandler (src/src/server/udpHandler.cpp) and the system calls on sockets.
  What was sent is recorded: datagrams in \<open>udp_out\<close> with their address and the length
  given for it, bytes written to connections in \<open>tcp_out\<close>, closed descriptors in
  \<open>fd_closes\<close>.  The answers of the kernel come from two schedules: the head of
  \<open>udp_send_faults\<close> says whether the next \<^verbatim>\<open>sendto\<close> fails, the head of
  \<open>write_results\<close> is the result and \<^verbatim>\<open>errno\<close> of the next \<^verbatim>\<open>write\<close>; when a schedule is
  used up the calls succeed.
\<close>

record net = events +
  udp_out :: "(sockaddr \<times> nat \<times> string) list"
  udp_send_faults :: "bool list"
  tcp_out :: "(int \<times> string) list"
  write_results :: "(int \<times> nat) list"
  fd_closes :: "int list"

section \<open>System calls\<close>

definition EAGAIN :: nat where "EAGAIN = 11"

definition EWOULDBLOCK :: nat where "EWOULDBLOCK = 11"

definition AF_INET :: nat where "AF_INET = 2"

text \<open>The size of the address of a family: a \<^verbatim>\<open>sockaddr_in\<close> or a \<^verbatim>\<open>sockaddr_in6\<close>.\<close>

definition sockaddr_len :: "sockaddr \<Rightarrow> nat" where
  "sockaddr_len addr = (if ss_family addr = AF_INET then 16 else 28)"

definition sendto :: "string \<Rightarrow> sockaddr \<Rightarrow> nat \<Rightarrow> 'z net_scheme \<Rightarrow> int \<times> 'z net_scheme" where
  "sendto msg addr addr_len s =
     (let (failed, s) = (case udp_send_faults s of [] \<Rightarrow> (False, s) | f # fs \<Rightarrow> (f, s\<lparr>udp_send_faults := fs\<rparr>))
      in if failed then (-1, s)
         else (int (length msg), s\<lparr>udp_out := udp_out s @ [(addr, addr_len, msg)]\<rparr>))"

definition sys_write :: "int \<Rightarrow> string \<Rightarrow> 'z net_scheme \<Rightarrow> (int \<times> nat) \<times> 'z net_scheme" where
  "sys_write fd data s =
     (let ((n, errno), s) = (case write_results s of
          [] \<Rightarrow> ((int (length data), 0), s) | r # rs \<Rightarrow> (r, s\<lparr>write_results := rs\<rparr>))
      in if n < 0 then ((-1, errno), s)
         else let n = min n (int (length data))
              in ((n, errno), s\<lparr>tcp_out := tcp_out s @ [(fd, take (nat n) data)]\<rparr>))"

definition sys_close :: "int \<Rightarrow> 'z net_scheme \<Rightarrow> 'z net_scheme" where
  "sys_close fd s = s\<lparr>fd_closes := fd_closes s @ [fd]\<rparr>"

section \<open>The handler\<close>

definition BUFFER_SIZE_UDP :: nat where "BUFFER_SIZE_UDP = 256"

definition handleKeepalive ::
  "'j platform \<Rightarrow> config \<Rightarrow> 'j \<Rightarrow> sockaddr \<Rightarrow> 'z net_scheme \<Rightarrow> unit res \<times> 'z net_scheme" where
  "handleKeepalive P cfg request client_addr s =
     catch_st
       (seq_st (json_str_field P request ''clientId'', s) (\<lambda>clientId s.
          case getSession clientId s of
            Some session \<Rightarrow>
              (let s = setUdpAddress session client_addr s;
                   s = Logger_log P cfg DEBUG ''UdpHandler''
                         (strcat [''Updated UDP address for client '', clientId]) None s;
                   pongMessage = json_object P
                     [(''category'', json_string P ''keepalive''),
                      (''status'', json_string P ''success''),
                      (''message'', json_string P
                         ''PONG: Server received keepalive from client and connection is active.'')];
                   pongString = json_dump P pongMessage;
                   (sent, s) = sendto pongString client_addr (sockaddr_len client_addr) s
               in if sent < 0 then
                    (Inr (), incrementError ''udp'' ''tx''
                       (Logger_log P cfg ERROR ''UdpHandler''
                          (strcat [''Error sending PONG message to client '', clientId]) None s))
                  else
                    (Inr (), Logger_log P cfg INFO ''UdpHandler''
                       (strcat [''Sent PONG message to client '', clientId]) None
                       (incrementMessage ''udp'' ''tx'' s)))
          | None \<Rightarrow>
              (Inr (), Logger_log P cfg ERROR ''UdpHandler''
                 (strcat [''Couldn'', quote, ''t find session for keepalive message from client '', clientId])
                 None s)))
       (\<lambda>e s.
          if is_json_exception e then
            (let s = to_err (strcat [''JSON parsing error in keepalive message: '', exn_what P e, ''\<newline>'']) s
             in (Inr (), Logger_log P cfg WARNING ''UdpHandler'' ''Malformed keepalive message received.'' None s))
          else (Inl e, s))"

text \<open>
  handleMessage; the argument is what \<^verbatim>\<open>recvfrom\<close> finds: an error number, or a datagram and
  its sender, of which the call returns what fits the buffer.
\<close>

definition UdpHandler_handleMessage ::
  "'j platform \<Rightarrow> config \<Rightarrow> nat + (string \<times> sockaddr) \<Rightarrow> 'z net_scheme \<Rightarrow> unit res \<times> 'z net_scheme" where
  "UdpHandler_handleMessage P cfg received s =
     (case received of
        Inl errno \<Rightarrow>
          if errno = EAGAIN \<or> errno = EWOULDBLOCK then (Inr (), s)
          else (Inr (), incrementError ''udp'' ''rx''
                  (Logger_log P cfg ERROR ''UdpHandler'' ''UDP recvfrom error'' None s))
      | Inr (datagram, client_addr) \<Rightarrow>
          (let buffer = c_string (take (BUFFER_SIZE_UDP - 1) datagram);
               s = Logger_log P cfg INFO ''UdpHandler'' (strcat [''Received UDP message: '', buffer]) None s;
               s = incrementMessage ''udp'' ''rx'' s
           in case json_parse P buffer of
                None \<Rightarrow> (Inr (), Logger_log P cfg WARNING ''UdpHandler'' ''Receiveed invalid JSON via UDP.'' None s)
              | Some request \<Rightarrow>
                  seq_st (json_value P request ''command'' ''unknown'', s) (\<lambda>cmd s.
                    if cmd = ''keepalive'' then handleKeepalive P cfg request client_addr s
                    else (Inr (), Logger_log P cfg WARNING ''UdpHandler''
                            (strcat [''Received unknown UDP command: '', cmd]) None s))))"

text \<open>The body of the loop over the addresses, and of the loop over the offline users.\<close>

definition broadcast_to :: "'j platform \<Rightarrow> config \<Rightarrow> string \<Rightarrow> sockaddr \<Rightarrow> 'z net_scheme \<Rightarrow> 'z net_scheme" where
  "broadcast_to P cfg alert_str address s =
     (let (sent, s) = sendto alert_str address (sockaddr_len address) s
      in if sent < 0 then
           incrementError ''udp'' ''tx''
             (Logger_log P cfg ERROR ''UdpHandler'' ''Error broadcasting alert message'' None s)
         else incrementMessage ''udp'' ''tx'' s)"

definition queue_for :: "'j platform \<Rightarrow> config \<Rightarrow> string \<Rightarrow> string \<Rightarrow> 'z net_scheme \<Rightarrow> 'z net_scheme" where
  "queue_for P cfg alert_str user s =
     Logger_log P cfg INFO ''UdpHandler''
       (strcat [''User '', user, '' is offline, alert has been queued for later delivery.'']) None
       (pushEvent P cfg user \<lparr>ev_type = NOTIFICATION, ev_message = alert_str\<rparr> s)"

definition broadcastMessage :: "'j platform \<Rightarrow> config \<Rightarrow> 'j \<Rightarrow> 'z net_scheme \<Rightarrow> 'z net_scheme" where
  "broadcastMessage P cfg alertMessage s =
     (let addresses = getActiveUdpAddresses s;
          alert_str = json_dump P alertMessage;
          s = fold (broadcast_to P cfg alert_str) addresses s;
          s = Logger_log P cfg INFO ''UdpHandler''
                (strcat [''Broadcasted alert message to all connected clients: '', alert_str]) None s;
          offlineUsers = getOfflineUsers s
      in fold (queue_for P cfg alert_str) (hash_set_order P offlineUsers) s)"

definition sendMessageToClient ::
  "'j platform \<Rightarrow> config \<Rightarrow> string \<Rightarrow> string \<Rightarrow> sockaddr \<Rightarrow> 'z net_scheme \<Rightarrow> 'z net_scheme" where
  "sendMessageToClient P cfg clientID message client_addr s =
     (let (sent, s) = sendto message client_addr (sockaddr_len client_addr) s
      in if sent \<le> 0 then
           incrementError ''udp'' ''tx''
             (Logger_log P cfg ERROR ''UdpHandler''
                (strcat [''Error sending delayed alert message to client '', clientID]) None s)
         else Logger_log P cfg INFO ''UdpHandler''
                (strcat [''Sent delayed alert message to client '', clientID]) None
                (incrementMessage ''udp'' ''tx'' s))"

section \<open>Lemmas\<close>

lemma net_fields_session_view [simp]:
  "session_view (s\<lparr>udp_out := a\<rparr>) = session_view s"
  "session_view (s\<lparr>udp_send_faults := b\<rparr>) = session_view s"
  "session_view (s\<lparr>tcp_out := c\<rparr>) = session_view s"
  "session_view (s\<lparr>write_results := d\<rparr>) = session_view s"
  "session_view (s\<lparr>fd_closes := e\<rparr>) = session_view s"
  by (simp_all add: session_view_def)

lemma net_fields_irrelevant [simp]:
  "user_of (s\<lparr>udp_out := a\<rparr>) = user_of s"
  "user_of (s\<lparr>udp_send_faults := b\<rparr>) = user_of s"
  "user_of (s\<lparr>tcp_out := c\<rparr>) = user_of s"
  "user_of (s\<lparr>write_results := d\<rparr>) = user_of s"
  "user_of (s\<lparr>fd_closes := e\<rparr>) = user_of s"
  "stock_of (s\<lparr>udp_out := a\<rparr>) = stock_of s"
  "stock_of (s\<lparr>udp_send_faults := b\<rparr>) = stock_of s"
  "stock_of (s\<lparr>tcp_out := c\<rparr>) = stock_of s"
  "stock_of (s\<lparr>write_results := d\<rparr>) = stock_of s"
  "stock_of (s\<lparr>fd_closes := e\<rparr>) = stock_of s"
  "storage_ok (s\<lparr>udp_out := a\<rparr>) = storage_ok s"
  "storage_ok (s\<lparr>udp_send_faults := b\<rparr>) = storage_ok s"
  "storage_ok (s\<lparr>tcp_out := c\<rparr>) = storage_ok s"
  "storage_ok (s\<lparr>write_results := d\<rparr>) = storage_ok s"
  "storage_ok (s\<lparr>fd_closes := e\<rparr>) = storage_ok s"
  "storage_ready (s\<lparr>udp_out := a\<rparr>) = storage_ready s"
  "storage_ready (s\<lparr>udp_send_faults := b\<rparr>) = storage_ready s"
  "storage_ready (s\<lparr>tcp_out := c\<rparr>) = storage_ready s"
  "storage_ready (s\<lparr>write_results := d\<rparr>) = storage_ready s"
  "storage_ready (s\<lparr>fd_closes := e\<rparr>) = storage_ready s"
  by (simp_all add: storage_ready_def storage_ok_def users_ok_def inventory_ok_def logs_ok_def user_known_def
      stock_of_def user_of_def fun_eq_iff cong: option.case_cong)

lemma net_fields_sessions [simp]:
  "sessions_inv s \<Longrightarrow> sessions_inv (s\<lparr>udp_out := a\<rparr>)"
  "sessions_inv s \<Longrightarrow> sessions_inv (s\<lparr>udp_send_faults := b\<rparr>)"
  "sessions_inv s \<Longrightarrow> sessions_inv (s\<lparr>tcp_out := c\<rparr>)"
  "sessions_inv s \<Longrightarrow> sessions_inv (s\<lparr>write_results := d\<rparr>)"
  "sessions_inv s \<Longrightarrow> sessions_inv (s\<lparr>fd_closes := e\<rparr>)"
  by (rule sessions_inv_frame; simp add: sessions_inv_def inventory_inv_def users_grow_def)+

interpretation out_field: component_field udp_out
  by unfold_locales simp_all

interpretation send_faults_field: component_field udp_send_faults
  by unfold_locales simp_all

lemma sendto_keeps: "sendto m a l s = (r, s') \<Longrightarrow> sessions_inv s \<Longrightarrow> sessions_inv s'"
  by (auto simp: sendto_def Let_def split: list.splits if_splits)

lemma sys_write_keeps: "sys_write fd d s = (r, s') \<Longrightarrow> sessions_inv s \<Longrightarrow> sessions_inv s'"
  by (auto simp: sys_write_def Let_def split: list.splits if_splits prod.splits)

lemma sys_close_keeps [simp]: "sessions_inv s \<Longrightarrow> sessions_inv (sys_close fd s)"
  by (simp add: sys_close_def)

lemma sendto_ok: "udp_send_faults s = [] \<Longrightarrow>
    sendto m a l s = (int (length m), s\<lparr>udp_out := udp_out s @ [(a, l, m)]\<rparr>)"
  by (simp add: sendto_def)

lemma to_err_sessions [simp]: "sessions_inv s \<Longrightarrow> sessions_inv (to_err t s)"
  by (rule sessions_inv_frame) (simp_all add: sessions_inv_def inventory_inv_def users_grow_eq)

lemma after_sendto:
  "sessions_inv s \<Longrightarrow> (\<And>r s'. sessions_inv s' \<Longrightarrow> after sessions_inv (f r s')) \<Longrightarrow>
     after sessions_inv (case sendto m a l s of (r, s') \<Rightarrow> f r s')"
  by (rule after_prod) (auto dest: sendto_keeps)

lemma handleKeepalive_keeps [after_intros]:
  assumes "sessions_inv s"
  shows "after sessions_inv (handleKeepalive P cfg request addr s)"
  unfolding handleKeepalive_def using assms
  by (intro after_catch after_seq after_option after_let after_sendto after_if after_pair)
    (simp_all add: setUdpAddress_keeps)

lemma handleMessage_keeps [after_intros]:
  assumes "sessions_inv s"
  shows "after sessions_inv (UdpHandler_handleMessage P cfg received s)"
  unfolding UdpHandler_handleMessage_def using assms
  by (intro after_intros) simp_all

lemma broadcast_to_keeps: "sessions_inv s \<Longrightarrow> sessions_inv (broadcast_to P cfg t a s)"
  by (auto simp: broadcast_to_def Let_def split: prod.splits dest: sendto_keeps)

lemma queue_for_keeps: "sessions_inv s \<Longrightarrow> sessions_inv (queue_for P cfg t u s)"
  by (simp add: queue_for_def pushEvent_keeps)

lemma fold_keeps: "I s \<Longrightarrow> (\<And>x s. I s \<Longrightarrow> I (f x s)) \<Longrightarrow> I (fold f xs s)"
  by (induction xs arbitrary: s) simp_all

lemma broadcastMessage_keeps: "sessions_inv s \<Longrightarrow> sessions_inv (broadcastMessage P cfg j s)"
  unfolding broadcastMessage_def Let_def
  by (intro fold_keeps [where I = sessions_inv] sessions_inv_log) (simp_all add: broadcast_to_keeps queue_for_keeps)

lemma sendMessageToClient_keeps: "sessions_inv s \<Longrightarrow> sessions_inv (sendMessageToClient P cfg c m a s)"
  by (auto simp: sendMessageToClient_def Let_def split: prod.splits dest: sendto_keeps)

subsection \<open>Who gets a broadcast\<close>

interpretation active_field: component_field m_activeSessions
  by unfold_locales simp_all

interpretation store_field: component_field session_store
  by unfold_locales simp_all

interpretation offline_field: component_field m_offlineUsers
  by unfold_locales simp_all

lemma broadcast_to_ok:
  assumes "udp_send_faults s = []"
  shows "udp_out (broadcast_to P cfg t a s) = udp_out s @ [(a, sockaddr_len a, t)]"
    and "udp_send_faults (broadcast_to P cfg t a s) = []"
    and "m_eventQueueMap (broadcast_to P cfg t a s) = m_eventQueueMap s"
    and "m_offlineUsers (broadcast_to P cfg t a s) = m_offlineUsers s"
  using assms by (simp_all add: broadcast_to_def sendto_ok)

lemma fold_broadcast_to_ok:
  "udp_send_faults s = [] \<Longrightarrow>
     udp_out (fold (broadcast_to P cfg t) as s) = udp_out s @ map (\<lambda>a. (a, sockaddr_len a, t)) as \<and>
     m_eventQueueMap (fold (broadcast_to P cfg t) as s) = m_eventQueueMap s \<and>
     m_offlineUsers (fold (broadcast_to P cfg t) as s) = m_offlineUsers s"
  by (induction as arbitrary: s) (simp_all add: broadcast_to_ok)

lemma queue_for_effect:
  "udp_out (queue_for P cfg t u s) = udp_out s"
  "events_of (queue_for P cfg t u s) = events_of (pushEvent P cfg u \<lparr>ev_type = NOTIFICATION, ev_message = t\<rparr> s)"
  by (simp_all add: queue_for_def pushEvent_def events_of_def Let_def fun_eq_iff)

lemma fold_queue_for:
  "udp_out (fold (queue_for P cfg t) us s) = udp_out s"
  "c \<notin> set us \<Longrightarrow> events_of (fold (queue_for P cfg t) us s) c = events_of s c"
  "distinct us \<Longrightarrow> c \<in> set us \<Longrightarrow> events_of (fold (queue_for P cfg t) us s) c =
     events_of (pushEvent P cfg c \<lparr>ev_type = NOTIFICATION, ev_message = t\<rparr> s) c"
proof -
  show other: "c \<notin> set us \<Longrightarrow> events_of (fold (queue_for P cfg t) us s) c = events_of s c" for us s
    by (induction us arbitrary: s) (simp_all add: queue_for_effect event_queue.push_other)
  show "udp_out (fold (queue_for P cfg t) us s) = udp_out s"
    by (induction us arbitrary: s) (simp_all add: queue_for_effect)
  show "distinct us \<Longrightarrow> c \<in> set us \<Longrightarrow> events_of (fold (queue_for P cfg t) us s) c =
      events_of (pushEvent P cfg c \<lparr>ev_type = NOTIFICATION, ev_message = t\<rparr> s) c"
    by (induction us arbitrary: s)
      (auto simp: other queue_for_effect event_queue.push_contents)
qed

text \<open>A broadcast changes no user, and the database still answers after it.\<close>

lemma sendto_users: "user_of (snd (sendto m a l s)) = user_of s"
  "storage_ready (snd (sendto m a l s)) = storage_ready s"
  by (simp_all add: sendto_def Let_def split: list.splits prod.splits)

lemma broadcast_to_users:
  "user_of (broadcast_to P cfg t a s) = user_of s"
  "storage_ready s \<Longrightarrow> storage_ready (broadcast_to P cfg t a s)"
  using sendto_users [of t a "sockaddr_len a" s]
  by (auto simp: broadcast_to_def split: prod.splits)

lemma queue_for_users:
  "user_of (queue_for P cfg t u s) = user_of s"
  "storage_ready s \<Longrightarrow> storage_ready (queue_for P cfg t u s)"
  by (simp_all add: queue_for_def pushEvent_def Let_def)

lemma broadcastMessage_users:
  fixes s :: "'b net_scheme"
  shows "user_of (broadcastMessage P cfg j s) = user_of s"
    and "storage_ready s \<Longrightarrow> storage_ready (broadcastMessage P cfg j s)"
proof -
  have "user_of (fold (broadcast_to P cfg t) as s) = user_of s"
      "user_of (fold (queue_for P cfg t) us s) = user_of s" for t as us and s :: "'b net_scheme"
    by (induction as arbitrary: s; simp add: broadcast_to_users)
      (induction us arbitrary: s; simp add: queue_for_users)
  then show "user_of (broadcastMessage P cfg j s) = user_of s"
    by (simp add: broadcastMessage_def Let_def)
  show "storage_ready s \<Longrightarrow> storage_ready (broadcastMessage P cfg j s)"
    unfolding broadcastMessage_def Let_def
    by (intro fold_keeps [where I = storage_ready] Logger_log_ready)
      (simp_all add: broadcast_to_users queue_for_users)
qed

section \<open>Properties\<close>


text \<open>
  A keepalive registers the address it came from: for a client with a registered
  session the datagram sets the address of that session and is answered to the sender, and
  for any other client id nothing is sent and no session changes.
\<close>

theorem keepalive_registers_address:
  assumes "json_str_field P request ''clientId'' = Inr c" and "udp_send_faults s = []"
  shows "case getSession c s of
      Some sid \<Rightarrow> \<exists>s' msg. handleKeepalive P cfg request addr s = (Inr (), s') \<and>
        getUdpAddress sid s' = Some addr \<and> udp_out s' = udp_out s @ [(addr, sockaddr_len addr, msg)]
    | None \<Rightarrow> \<exists>s'. handleKeepalive P cfg request addr s = (Inr (), s') \<and>
        session_view s' = session_view s \<and> udp_out s' = udp_out s"
proof (cases "getSession c s")
  case None
  with assms(1) show ?thesis by (simp add: handleKeepalive_def)
next
  case (Some sid)
  with assms show ?thesis
    by (simp add: handleKeepalive_def Let_def setUdpAddress_def with_session_def sendto_ok
        getUdpAddress_def the_session_def)
qed

end
