(* ===== verification/Alerts.thy ===== *)
theory Alerts
  imports UdpHandler
begin

text \<open>
  The classes AlertManager (src/src/server/alertManager.cpp) and IpcHandler
  (src/src/server/ipcHandler.cpp): alerts of the sensor process arrive on a UNIX socket,
  lock the client they name and are broadcast.
\<close>

definition processAlert ::
  "'j platform \<Rightarrow> config \<Rightarrow> string \<Rightarrow> 'z net_scheme \<Rightarrow> unit res \<times> 'z net_scheme" where
  "processAlert P cfg alertMessage s =
     catch_st
       (seq_st (json_parse_throwing P alertMessage, s) (\<lambda>alertData s.
        seq_st (json_put P alertData ''category'' (json_string P ''alert''), s) (\<lambda>alertData s.
        seq_st (json_str_field P alertData ''type'', s) (\<lambda>type s.
        seq_st (json_str_field P alertData ''message'', s) (\<lambda>message s.
        let s = Logger_log P cfg WARNING ''AlertManager''
              (strcat [''Received alert from sensor. Type: '', type, '', Message: '', message]) None s
        in seq_st
             (if json_contains P alertData ''clientId'' then
                seq_st (json_str_field P alertData ''clientId'', s) (\<lambda>clientId s.
                  if type = ''infection'' \<or> type = ''enemy_threat''
                  then seq_st (lockClient P cfg clientId s) (\<lambda>_ s. (Inr (), s))
                  else (Inr (), s))
              else (Inr (), s))
             (\<lambda>_ s. (Inr (), broadcastMessage P cfg alertData s)))))))
       (\<lambda>e s.
          if is_json_exception e then
            (let s = to_err (strcat [''Error processing alert: '', exn_what P e, ''\<newline>'']) s
             in (Inr (), Logger_log P cfg ERROR ''AlertManager''
                   (strcat [''Failed to process incoming alert. Reason: '', exn_what P e]) None s))
          else (Inl e, s))"

definition BUFFER_SIZE :: nat where "BUFFER_SIZE = 256"

text \<open>
  handleConnection; the argument \<open>available\<close> is what \<^verbatim>\<open>read\<close> finds: an error number, or the
  bytes that have arrived (none when the peer has closed), of which the call returns what
  fits the buffer.
\<close>

definition handleConnection ::
  "'j platform \<Rightarrow> config \<Rightarrow> int \<Rightarrow> nat + string \<Rightarrow> 'z net_scheme \<Rightarrow> bool res \<times> 'z net_scheme" where
  "handleConnection P cfg acceptedSocketFd available s =
     (case available of
        Inl errno \<Rightarrow>
          if errno = EAGAIN \<or> errno = EWOULDBLOCK then
            (Inr True, Logger_log P cfg DEBUG ''IpcHandler'' ''No data available on IPC socket'' None s)
          else
            (let s = Logger_log P cfg ERROR ''IpcHandler'' ''IPC read error'' None s;
                 s = incrementError ''ipc'' ''rx'' s
             in (Inr False, sys_close acceptedSocketFd s))
      | Inr bytes \<Rightarrow>
          if bytes = [] then (Inr False, sys_close acceptedSocketFd s)
          else
            (let alertMessage = take (BUFFER_SIZE - 1) bytes
             in seq_st (processAlert P cfg alertMessage s) (\<lambda>_ s.
                  let s = sys_close acceptedSocketFd s;
                      s = Logger_log P cfg INFO ''IpcHandler'' ''UNIX message processed successfully'' None s
                  in (Inr True, incrementMessage ''ipc'' ''rx'' s))))"

section \<open>Lemmas\<close>

lemma processAlert_keeps [after_intros]:
  assumes "sessions_inv s"
  shows "after sessions_inv (processAlert P cfg m s)"
  unfolding processAlert_def using assms
  by (intro after_intros) (simp_all add: broadcastMessage_keeps)

lemma handleConnection_keeps [after_intros]:
  assumes "sessions_inv s"
  shows "after sessions_inv (handleConnection P cfg fd available s)"
  unfolding handleConnection_def using assms
  by (intro after_intros) simp_all

section \<open>Properties\<close>


text \<open>
  A text that is not an alert does nothing: when it does not parse, or has no string
  for its type or its message, no exception leaves processAlert, no user changes, no
  session changes, nothing is sent and nothing is queued.
\<close>

theorem malformed_alert_ignored:
  assumes "json_api P"
    and "json_parse P m = None \<or> (\<exists>j e. json_parse P m = Some j \<and>
      (json_str_field P j ''type'' = Inl e \<or> json_str_field P j ''message'' = Inl e))"
  shows "\<exists>s'. processAlert P cfg m s = (Inr (), s') \<and> user_of s' = user_of s \<and>
    session_view s' = session_view s \<and> udp_out s' = udp_out s \<and> events_of s' = events_of s"
proof -
  define ignored where "ignored e = Logger_log P cfg ERROR ''AlertManager''
      (strcat [''Failed to process incoming alert. Reason: '', exn_what P e]) None
      (to_err (strcat [''Error processing alert: '', exn_what P e, ''\<newline>'']) s)" for e
  have "\<exists>e. processAlert P cfg m s = (Inr (), ignored e)"
  proof (cases "json_parse P m")
    case None
    then show ?thesis
      by (intro exI [of _ "JsonException 101"]) (simp add: processAlert_def json_parse_throwing_def ignored_def)
  next
    case (Some j)
    show ?thesis
    proof (cases "json_put P j ''category'' (json_string P ''alert'')")
      case (Inl e)
      with Some json_api.put_throws [OF assms(1) Inl] show ?thesis
        by (intro exI [of _ e]) (simp add: processAlert_def json_parse_throwing_def ignored_def)
    next
      case (Inr j')
      note kept = json_api.put_str_field [OF assms(1) Inr]
      have "(\<exists>e. json_str_field P j' ''type'' = Inl e) \<or> (\<exists>e. json_str_field P j' ''message'' = Inl e)"
        using assms(2) Some kept(2) [of "''type''"] kept(2) [of "''message''"] by auto
      then obtain e where e: "is_json_exception e" "json_str_field P j' ''type'' = Inl e \<or>
          (\<exists>t. json_str_field P j' ''type'' = Inr t) \<and> json_str_field P j' ''message'' = Inl e"
        using json_api.str_field_throws [OF assms(1), of j'] by (cases "json_str_field P j' ''type''") auto
      with Some Inr show ?thesis
        by (intro exI [of _ e]) (auto simp: processAlert_def json_parse_throwing_def ignored_def)
    qed
  qed
  then show ?thesis by (auto simp: events_of_def fun_eq_iff ignored_def)
qed

end
