(* ===== verification/Commands.thy ===== *)
theory Commands
  imports Alerts
begin

text \<open>
  The namespace commandProcessor (src/src/server/commandProcessor.cpp): the commands of an
  authenticated client.  A result is the text to send and whether to keep the connection.
\<close>

type_synonym commandResult = "string \<times> bool"

text \<open>\<^verbatim>\<open>{response.dump(), keep}\<close> after the assignments \<^verbatim>\<open>response[k] = v\<close>.\<close>

definition respond :: "'j platform \<Rightarrow> (string \<times> 'j) list \<Rightarrow> bool \<Rightarrow> commandResult" where
  "respond P kvs keep = (json_dump P (json_object P kvs), keep)"

definition error_response :: "'j platform \<Rightarrow> string \<Rightarrow> commandResult" where
  "error_response P m = respond P [(''status'', json_string P ''error''), (''message'', json_string P m)] True"

definition success_response :: "'j platform \<Rightarrow> string \<Rightarrow> commandResult" where
  "success_response P m = respond P [(''status'', json_string P ''success''), (''message'', json_string P m)] True"

section \<open>The handlers\<close>

definition handleStatusCommand :: "'j platform \<Rightarrow> bool \<Rightarrow> commandResult" where
  "handleStatusCommand P isInMaintenance =
     success_response P (if isInMaintenance then ''STATUS: MAINTENANCE'' else ''STATUS: OK'')"

definition handleEndCommand ::
  "'j platform \<Rightarrow> config \<Rightarrow> string \<Rightarrow> 'z net_scheme \<Rightarrow> commandResult \<times> 'z net_scheme" where
  "handleEndCommand P cfg clientId s =
     (respond P [(''status'', json_string P ''success''), (''message'', json_string P ''Goodbye!'')] False,
      Logger_log P cfg INFO ''CommandProcessor''
        (strcat [''Requested disconnection via end command for client '', clientId]) (Some clientId) s)"

definition handleGetInventoryCommand ::
  "'j platform \<Rightarrow> config \<Rightarrow> string \<Rightarrow> 'z net_scheme \<Rightarrow> commandResult res \<times> 'z net_scheme" where
  "handleGetInventoryCommand P cfg clientId s =
     seq_st (getInventorySummary P cfg clientId s) (\<lambda>inventoryMap s.
       case inventoryMap of
         Some m \<Rightarrow>
           (Inr (respond P
              [(''status'', json_string P ''success''),
               (''message'', json_string P (strcat [''Inventory data for client '', clientId, '' retrieved.''])),
               (''data'', json_of_inventory P m)] True),
            Logger_log P cfg INFO ''CommandProcessor''
              (strcat [''Inventory data retrieved for client '', clientId]) (Some clientId) s)
       | None \<Rightarrow>
           (Inr (error_response P (strcat [''Inventory data for client '', clientId, '' is empty.''])),
            Logger_log P cfg INFO ''CommandProcessor''
              (strcat [''No inventory data found for client '', clientId]) (Some clientId)
              (incrementError ''tcp'' ''rx'' s)))"

text \<open>The two ways a handler refuses: a malformed payload, a client that may not use the command.\<close>

definition refuse ::
  "'j platform \<Rightarrow> config \<Rightarrow> string \<Rightarrow> string \<Rightarrow> string \<Rightarrow> 'z net_scheme \<Rightarrow> commandResult res \<times> 'z net_scheme" where
  "refuse P cfg message log_text clientId s =
     (Inr (error_response P message),
      Logger_log P cfg WARNING ''CommandProcessor'' log_text (Some clientId) (incrementError ''tcp'' ''rx'' s))"

definition handleUpdateStockCommand ::
  "'j platform \<Rightarrow> config \<Rightarrow> 'j \<Rightarrow> string \<Rightarrow> 'z net_scheme \<Rightarrow> commandResult res \<times> 'z net_scheme" where
  "handleUpdateStockCommand P cfg request clientId s =
     (if \<not> starts_with clientId ''Hub'' then
        catch_st
          (seq_st (json_at P request ''payload'', s) (\<lambda>payload s.
           seq_st (json_str_field P payload ''category'', s) (\<lambda>category s.
           seq_st (json_str_field P payload ''item'', s) (\<lambda>item s.
           seq_st (json_int_field P payload ''quantity'', s) (\<lambda>quantity s.
           seq_st (Inventory_updateStock P cfg clientId category item quantity s) (\<lambda>result s.
             if usr_success result
             then (Inr (success_response P (usr_message result)), s)
             else (Inr (error_response P (usr_message result)), incrementError ''tcp'' ''rx'' s)))))))
          (\<lambda>e s.
             if is_json_exception e then
               refuse P cfg ''Invalid or missing field in update_stock payload.''
                 ''Invalid or missing field in update_stock payload.'' clientId s
             else (Inl e, s))
      else
        refuse P cfg ''update_stock command is not allowed for Hub clients.''
          ''update_stock command is not allowed for Hub clients.'' clientId s)"

definition handleGetStockCommand ::
  "'j platform \<Rightarrow> config \<Rightarrow> 'j \<Rightarrow> string \<Rightarrow> 'z net_scheme \<Rightarrow> commandResult res \<times> 'z net_scheme" where
  "handleGetStockCommand P cfg request clientId s =
     catch_st
       (seq_st (json_at P request ''payload'', s) (\<lambda>payload s.
        seq_st (json_str_field P payload ''category'', s) (\<lambda>category s.
        seq_st (json_str_field P payload ''item'', s) (\<lambda>item s.
        seq_st (Inventory_getStock clientId category item s) (\<lambda>result s.
          case result of
            Some quantity \<Rightarrow>
              (Inr (respond P
                 [(''status'', json_string P ''success''),
                  (''message'', json_string P ''Stock data retrieved successfully.''),
                  (''data'', json_object P
                     [(''category'', json_string P category), (''item'', json_string P item),
                      (''quantity'', json_int P quantity)])] True), s)
          | None \<Rightarrow>
              (Inr (error_response P ''Item not found for the specified client/category.''),
               incrementError ''tcp'' ''rx'' s))))))
       (\<lambda>e s.
          if is_json_exception e then
            refuse P cfg ''Invalid or missing field in get_stock payload.''
              ''Invalid or missing field in get_stock payload.'' clientId s
          else (Inl e, s))"

definition history_entry :: "'j platform \<Rightarrow> LogEntry \<Rightarrow> 'j" where
  "history_entry P entry = json_object P
     [(''timestamp'', json_string P (le_timestamp entry)), (''message'', json_string P (le_message entry)),
      (''component'', json_string P (le_component entry)), (''level'', json_string P (le_level entry))]"

definition handleGetHistoryCommand ::
  "'j platform \<Rightarrow> config \<Rightarrow> string \<Rightarrow> 'z net_scheme \<Rightarrow> commandResult res \<times> 'z net_scheme" where
  "handleGetHistoryCommand P cfg clientId s =
     seq_st (getInventoryHistoryTransaction P clientId s) (\<lambda>history s.
       let s = Logger_log P cfg INFO ''CommandProcessor''
             (strcat [''Inventory history retrieved for client '', clientId]) (Some clientId) s
       in (Inr (respond P
             [(''status'', json_string P ''success''),
              (''message'', json_string P ''Inventory history retrieved.''),
              (''data'', json_array P (map (history_entry P) history))] True), s))"

definition handleUnlockClientCommand ::
  "'j platform \<Rightarrow> config \<Rightarrow> 'j \<Rightarrow> string \<Rightarrow> 'z net_scheme \<Rightarrow> commandResult res \<times> 'z net_scheme" where
  "handleUnlockClientCommand P cfg request clientId s =
     (if clientId = ''admin'' then
        catch_st
          (seq_st (json_at P request ''payload'', s) (\<lambda>payload s.
           seq_st (json_str_field P payload ''secret_phrase'', s) (\<lambda>secretPhrase s.
           seq_st (json_str_field P payload ''client_to_unlock'', s) (\<lambda>clientToUnlock s.
             if secretPhrase = m_secretPhrase cfg then
               seq_st (unlockClient P cfg clientToUnlock s) (\<lambda>success s.
                 if success then
                   (Inr (success_response P (strcat [''Client `'', clientToUnlock, ''` successfully unlocked.''])), s)
                 else
                   refuse P cfg
                     (strcat [''Couldn'', quote, ''t unlock Client `'', clientToUnlock, ''`. Client didn'', quote, ''t found or misspelled.''])
                     (strcat [''Couldn'', quote, ''t unlock Client `'', clientToUnlock, ''`. Client didn'', quote, ''t found or misspelled.''])
                     clientId s)
             else
               refuse P cfg ''Wrong secret phrase. Try again.''
                 ''Wrong secret phrase provided for unlock_client command.'' clientId s))))
          (\<lambda>e s.
             if is_json_exception e then
               refuse P cfg ''Invalid or missing field in unlock_client payload.''
                 ''Invalid or missing field in unlock_client payload.'' clientId s
             else (Inl e, s))
      else
        refuse P cfg ''Command only available for admin user.''
          ''Trying to execute admin commands with a invalid user.'' clientId s)"

definition handleRegisterUser ::
  "'j platform \<Rightarrow> config \<Rightarrow> 'j \<Rightarrow> string \<Rightarrow> 'z net_scheme \<Rightarrow> commandResult res \<times> 'z net_scheme" where
  "handleRegisterUser P cfg request clientId s =
     (if clientId = ''admin'' then
        catch_st
          (seq_st (json_at P request ''payload'', s) (\<lambda>payload s.
           seq_st (json_str_field P payload ''new_client_id'', s) (\<lambda>newClientId s.
           seq_st (json_str_field P payload ''new_client_password'', s) (\<lambda>newClientPassword s.
           seq_st (createUser P newClientId newClientPassword s) (\<lambda>success s.
             if success then
               (Inr (success_response P (strcat [''Client `'', newClientId, ''` successfully registered.''])),
                Logger_log P cfg INFO ''CommandProcessor''
                  (strcat [''Client `'', newClientId, ''` registered successfully.'']) (Some clientId) s)
             else
               (Inr (error_response P (strcat [''Couldn'', quote, ''t register Client `'', newClientId, ''`.''])),
                Logger_log P cfg WARNING ''CommandProcessor''
                  (strcat [''Couldn'', quote, ''t register Client `'', newClientId, ''`.'']) (Some clientId) s))))))
          (\<lambda>e s.
             if is_json_exception e then
               (Inr (error_response P ''Invalid or missing field in register_user payload.''),
                Logger_log P cfg WARNING ''CommandProcessor''
                  ''Invalid or missing field in register_user payload.'' (Some clientId) s)
             else (Inl e, s))
      else
        (Inr (error_response P ''Command only available for admin user.''),
         Logger_log P cfg WARNING ''CommandProcessor''
           ''Trying to execute admin commands with a invalid user.'' (Some clientId) s))"

section \<open>Dispatch\<close>

definition processCommand ::
  "'j platform \<Rightarrow> config \<Rightarrow> 'j \<Rightarrow> string \<Rightarrow> bool \<Rightarrow> 'z net_scheme \<Rightarrow> commandResult res \<times> 'z net_scheme" where
  "processCommand P cfg request clientId isInMaintenance s =
     (if \<not> json_contains P request ''command'' then
        (let s = Logger_log P cfg WARNING ''CommandProcessor''
               (strcat [''Request from client '', clientId, '' is missing '', quote, ''command'', quote, '' field.''])
               (Some clientId) s
         in (Inr (error_response P (strcat [''Missing '', quote, ''command'', quote, '' field in request.''])),
             incrementError ''tcp'' ''rx'' s))
      else seq_st (json_str_field P request ''command'', s) (\<lambda>cmd s.
        if cmd = ''status'' then (Inr (handleStatusCommand P isInMaintenance), s)
        else if isInMaintenance then (Inr (error_response P ''Server is in maintenance mode.''), s)
        else if cmd = ''end'' then (let (r, s) = handleEndCommand P cfg clientId s in (Inr r, s))
        else if cmd = ''get_inventory'' then handleGetInventoryCommand P cfg clientId s
        else if cmd = ''update_stock'' then handleUpdateStockCommand P cfg request clientId s
        else if cmd = ''get_stock'' then handleGetStockCommand P cfg request clientId s
        else if cmd = ''get_history'' then handleGetHistoryCommand P cfg clientId s
        else if cmd = ''unlock_client'' then handleUnlockClientCommand P cfg request clientId s
        else if cmd = ''register_user'' then handleRegisterUser P cfg request clientId s
        else
          (Inr (success_response P ''ACK: Unknown command received.''),
           Logger_log P cfg WARNING ''CommandProcessor''
             (strcat [''Received unknown command '', quote, cmd, quote, '' from client '', clientId])
             (Some clientId) s)))"

definition locked_in :: "string \<Rightarrow> 'z storage_scheme \<Rightarrow> bool" where
  "locked_in h s \<longleftrightarrow> (\<exists>r. user_of s h = Some r \<and> u_is_locked r = 1)"

section \<open>Lemmas\<close>

interpretation locked_traffic: traffic_insensitive "locked_in h"
  by unfold_locales (simp_all add: locked_in_def user_of_def)

lemma refuse_keeps [after_intros]: "sessions_inv s \<Longrightarrow> after sessions_inv (refuse P cfg m l c s)"
  by (simp add: refuse_def after_iff)

lemma sessions_after_history [after_intros]:
  assumes "sessions_inv s"
  shows "after sessions_inv (getInventoryHistoryTransaction P c s)"
proof (rule after_sessions_inv [OF assms])
  obtain fs where fs: "snd (getInventoryHistoryTransaction P c s) = s\<lparr>db_faults := fs\<rparr>"
    using query_frame(5) [of P c s] by blast
  show "after inventory_inv (getInventoryHistoryTransaction P c s)"
    "after (users_grow s) (getInventoryHistoryTransaction P c s)"
    "after (\<lambda>s'. session_view s' = session_view s) (getInventoryHistoryTransaction P c s)"
    using assms by (simp_all add: after_def fs sessions_inv_def inventory_inv_def users_grow_eq session_view_def)
qed

text \<open>Every command keeps the invariant of the server.\<close>

lemma processCommand_keeps [after_intros]:
  assumes "json_api P" and "sessions_inv s"
  shows "after sessions_inv (processCommand P cfg request c maintenance s)"
proof -
  note range = json_api.int_field_range [OF assms(1)]
  have "after sessions_inv (handleGetInventoryCommand P cfg c s)" if "sessions_inv s" for s :: "'b net_scheme"
    unfolding handleGetInventoryCommand_def using that by (intro after_intros) simp_all
  moreover have "after sessions_inv (handleUpdateStockCommand P cfg request c s)"
    if "sessions_inv s" for s :: "'b net_scheme"
    unfolding handleUpdateStockCommand_def using that by (intro after_intros) (auto dest: range)
  moreover have "after sessions_inv (handleGetStockCommand P cfg request c s)"
    if "sessions_inv s" for s :: "'b net_scheme"
    unfolding handleGetStockCommand_def using that by (intro after_intros) auto
  moreover have "after sessions_inv (handleGetHistoryCommand P cfg c s)" if "sessions_inv s" for s :: "'b net_scheme"
    unfolding handleGetHistoryCommand_def using that by (intro after_intros) auto
  moreover have "after sessions_inv (handleUnlockClientCommand P cfg request c s)"
    if "sessions_inv s" for s :: "'b net_scheme"
    unfolding handleUnlockClientCommand_def using that by (intro after_intros) auto
  moreover have "after sessions_inv (handleRegisterUser P cfg request c s)"
    if "sessions_inv s" for s :: "'b net_scheme"
    unfolding handleRegisterUser_def using that by (intro after_intros) auto
  ultimately show ?thesis
    unfolding processCommand_def handleEndCommand_def using assms(2)
    by (intro after_intros) auto
qed

text \<open>What a command leaves alone: users for everybody but the administrator, the stock of other clients.\<close>

lemma history_same:
  "user_of s = u \<Longrightarrow> after (\<lambda>s. user_of s = u) (getInventoryHistoryTransaction P c s)"
  "\<forall>c' \<in> K. stock_of s c' = v c' \<Longrightarrow>
     after (\<lambda>s. \<forall>c' \<in> K. stock_of s c' = v c') (getInventoryHistoryTransaction P c s)"
  using query_frame(5) [of P c s] by (auto simp: after_def)

lemmas command_defs = processCommand_def handleEndCommand_def handleGetInventoryCommand_def
  handleUpdateStockCommand_def handleGetStockCommand_def handleGetHistoryCommand_def
  handleUnlockClientCommand_def handleRegisterUser_def refuse_def

lemma processCommand_users:
  assumes "c \<noteq> ''admin''" and "user_of s = u"
  shows "after (\<lambda>s. user_of s = u) (processCommand P cfg request c maintenance s)"
  unfolding command_defs using assms
  by (intro after_intros users_cache.inventory_op_same history_same) auto

lemma other_stock_ops:
  assumes "\<forall>c' \<in> K. stock_of s c' = v c'"
  shows "after (\<lambda>s. \<forall>c' \<in> K. stock_of s c' = v c') (Inventory_getStock c cat it s)"
    and "after (\<lambda>s. \<forall>c' \<in> K. stock_of s c' = v c') (getInventorySummary P cfg c s)"
    and "after (\<lambda>s. \<forall>c' \<in> K. stock_of s c' = v c') (createUser P h p s)"
    and "after (\<lambda>s. \<forall>c' \<in> K. stock_of s c' = v c') (setClientLockStatus h b s)"
  using assms read_stock_same(1) [of s "stock_of s" c cat it] read_stock_same(2) [of s "stock_of s" P cfg c]
    stock_user.createUser_same [of s "stock_of s" P h p]
    stock_user.setClientLockStatus_same [of s "stock_of s" h b]
  by (simp_all add: after_def)

lemma processCommand_stock:
  assumes "\<forall>c' \<in> K. stock_of s c' = v c'" and "c \<notin> K \<or> starts_with c ''Hub''"
  shows "after (\<lambda>s. \<forall>c' \<in> K. stock_of s c' = v c') (processCommand P cfg request c maintenance s)"
  unfolding command_defs unlockClient_def using assms
  by (intro after_intros other_stock_ops updateStock_own_stock history_same) auto

text \<open>Fields outside the database, the cache and the set of locked clients.\<close>

locale command_insensitive = component_field F + cache_insensitive F for F :: "'z net_scheme \<Rightarrow> 'a" +
  assumes F_locked: "F (s\<lparr>m_lockedClients := l\<rparr>) = F s"
begin

lemma processCommand_same:
  "F s = v \<Longrightarrow> after (\<lambda>s. F s = v) (processCommand P cfg request c maintenance s)"
  unfolding command_defs unlockClient_def
  by (intro after_intros inventory_op_same user_op_same; auto simp: F_locked)

end

interpretation store_command: command_insensitive session_store
  by unfold_locales simp_all

interpretation udp_command: command_insensitive udp_out
  by unfold_locales simp_all

interpretation queue_command: command_insensitive m_eventQueueMap
  by unfold_locales simp_all

text \<open>A locked user stays locked through every call but the unlocking of that user.\<close>

lemma locked_same:
  assumes "locked_in h s"
  shows "after (locked_in h) (Inventory_updateStock P cfg c cat it q s)"
    and "after (locked_in h) (Inventory_getStock c cat it s)"
    and "after (locked_in h) (getInventorySummary P cfg c s)"
    and "after (locked_in h) (getInventoryHistoryTransaction P c s)"
    and "after (locked_in h) (createUser P h' p s)"
  using assms users_cache.inventory_op_same(1) [of s "user_of s" P cfg c cat it q]
    users_cache.inventory_op_same(2) [of s "user_of s" c cat it]
    users_cache.inventory_op_same(3) [of s "user_of s" P cfg c]
    history_same(1) [of s "user_of s" P c] grow_createUser [of s s P h' p]
  by (fastforce simp: after_def locked_in_def users_grow_def)+

lemma locked_unlock:
  assumes "sessions_inv s" and "locked_in h s" and "c \<noteq> h"
  shows "after (locked_in h) (unlockClient P cfg c s)"
proof -
  obtain r s1 where sc: "setClientLockStatus c False s = (r, s1)" by fastforce
  from sc assms(1) have "locked_in h s1"
    by (cases rule: setClientLockStatus_outcome) (use assms(2,3) in \<open>auto simp: locked_in_def\<close>)
  with sc show ?thesis by (cases r) (auto simp: unlockClient_def after_iff locked_in_def Let_def)
qed

lemma processCommand_locked:
  assumes "json_api P" and "sessions_inv s" and "locked_in h s"
    and "\<not> (c = ''admin'' \<and> (\<exists>p. json_at P request ''payload'' = Inr p \<and>
      json_str_field P p ''secret_phrase'' = Inr (m_secretPhrase cfg) \<and> json_str_field P p ''client_to_unlock'' = Inr h))"
  shows "after (locked_in h) (processCommand P cfg request c maintenance s)"
  unfolding command_defs using assms
  by (intro after_intros locked_same locked_unlock) auto

section \<open>Properties\<close>

text \<open>
  C14. Commands are isolated: a command of a client other than the administrator changes no
  user, no command changes the stock of another client, and a command of a Hub changes no
  stock at all.
\<close>

theorem command_isolation:
  assumes "processCommand P cfg request c maintenance s = (r, s')"
  shows "(c \<noteq> ''admin'' \<longrightarrow> user_of s' = user_of s) \<and>
    (\<forall>c'. c' \<noteq> c \<longrightarrow> stock_of s' c' = stock_of s c') \<and>
    (starts_with c ''Hub'' \<longrightarrow> stock_of s' = stock_of s)"
proof (intro conjI impI)
  show "user_of s' = user_of s" if "c \<noteq> ''admin''"
    using processCommand_users [OF that, of s "user_of s" P cfg request maintenance] assms by (simp add: after_def)
  show "\<forall>c'. c' \<noteq> c \<longrightarrow> stock_of s' c' = stock_of s c'"
    using processCommand_stock [of "- {c}" s "stock_of s" c P cfg request maintenance] assms by (simp add: after_def)
  show "stock_of s' = stock_of s" if "starts_with c ''Hub''"
    using processCommand_stock [of UNIV s "stock_of s" c P cfg request maintenance] assms that
    by (simp add: after_def fun_eq_iff)
qed

text \<open>
  C6. Only the administrator unlocks, and only with the secret phrase: if a user is locked
  before a command and not after it, the command came from the administrator, carried the
  phrase of the configuration and named that user.
\<close>

theorem unlock_needs_phrase:
  assumes "json_api P" and "sessions_inv s" and "processCommand P cfg request c maintenance s = (r, s')"
    and "locked_in h s" and "\<not> locked_in h s'"
  shows "c = ''admin'' \<and> (\<exists>p. json_at P request ''payload'' = Inr p \<and>
    json_str_field P p ''secret_phrase'' = Inr (m_secretPhrase cfg) \<and> json_str_field P p ''client_to_unlock'' = Inr h)"
  using processCommand_locked [OF assms(1,2,4), of c request cfg maintenance] assms(3,5)
  by (auto simp: after_def)

text \<open>
  The command update_stock does what it says: for a registered client that is not a
  Hub and a well-formed payload, on a database that answers, the answer is a success exactly
  when the quantity is not negative and the item is in the catalogue, the connection stays
  open and the stock changes as the contract of the inventory says.
\<close>

theorem update_stock_command:
  assumes "sessions_inv s" and "storage_ready s" and "user_known s c" and "\<not> starts_with c ''Hub''"
    and "json_contains P request ''command''" and "json_str_field P request ''command'' = Inr ''update_stock''"
    and "json_at P request ''payload'' = Inr p" and "json_str_field P p ''category'' = Inr cat"
    and "json_str_field P p ''item'' = Inr it" and "json_int_field P p ''quantity'' = Inr q" and "is_int32 q"
  shows "\<exists>ok m s'. processCommand P cfg request c False s =
      (Inr (if ok then success_response P m else error_response P m), s') \<and>
    (ok, stock_abs s') = spec_update c cat it q (stock_abs s) \<and> sessions_inv s'"
proof -
  have inv: "inventory_inv s" using assms(1) by (simp add: sessions_inv_def)
  obtain r s1 where u: "Inventory_updateStock P cfg c cat it q s = (Inr r, s1)"
      "(usr_success r, stock_abs s1) = spec_update c cat it q (stock_abs s)"
    using updateStock_contract [OF inv assms(2,3,11), of P cfg cat it] by blast
  have s1: "sessions_inv s1"
    using sessions_after_inventory(1) [OF assms(1,11), of P cfg c cat it] u(1) by (simp add: after_def)
  let ?s' = "if usr_success r then s1 else incrementError ''tcp'' ''rx'' s1"
  have "processCommand P cfg request c False s = (Inr (if usr_success r then success_response P (usr_message r)
      else error_response P (usr_message r)), ?s')"
    using assms(4-10) u(1) by (simp add: processCommand_def handleUpdateStockCommand_def)
  moreover have "stock_abs ?s' = stock_abs s1" "sessions_inv ?s'"
    using s1 by (simp_all add: stock_abs_def)
  ultimately show ?thesis using u(2) by metis
qed

text \<open>
  The command get_stock answers the stored quantity: for a well-formed payload on a
  database that answers, the answer carries the quantity of the client's own stock in the
  database, or says that the item was not found when there is none.
\<close>

theorem get_stock_command:
  assumes "sessions_inv s" and "storage_ready s"
    and "json_contains P request ''command''" and "json_str_field P request ''command'' = Inr ''get_stock''"
    and "json_at P request ''payload'' = Inr p" and "json_str_field P p ''category'' = Inr cat"
    and "json_str_field P p ''item'' = Inr it"
  shows "fst (processCommand P cfg request c False s) = Inr (case stock_of s c cat it of
      None \<Rightarrow> error_response P ''Item not found for the specified client/category.''
    | Some q \<Rightarrow> respond P
        [(''status'', json_string P ''success''),
         (''message'', json_string P ''Stock data retrieved successfully.''),
         (''data'', json_object P [(''category'', json_string P cat), (''item'', json_string P it),
            (''quantity'', json_int P q)])] True)"
proof -
  have inv: "inventory_inv s" using assms(1) by (simp add: sessions_inv_def)
  obtain r s1 where g: "Inventory_getStock c cat it s = (r, s1)" by fastforce
  from g inv have "r = Inr (stock_of s c cat it)"
    by (cases rule: getStockE) (use assms(2) in \<open>auto simp: Storage_getStock_def sql_on_ready\<close>)
  with g assms(3-7) show ?thesis
    by (auto simp: processCommand_def handleGetStockCommand_def split: option.splits)
qed

end
