(* ===== verification/ClientSession.thy ===== *)
theory ClientSession
  imports Commands
begin

text \<open>
  The methods of the class clientSession (src/src/server/clientSession.cpp): one message of
  a TCP connection is read, answered and followed by the delivery of a queued event.  A
  method runs on the session object \<open>sid\<close> of the store.
\<close>

definition createLoggableRequest :: "'j platform \<Rightarrow> 'j \<Rightarrow> 'j res" where
  "createLoggableRequest P request =
     (if json_contains P request ''payload'' then
        bind_res (json_at P request ''payload'') (\<lambda>payload.
          if json_contains P payload ''password'' then
            bind_res (json_put P payload ''password'' (json_string P ''[REDACTED]'')) (\<lambda>payload.
              json_put P request ''payload'' payload)
          else Inr request)
      else Inr request)"

definition isAuthenticated :: "nat \<Rightarrow> 'z sessions_scheme \<Rightarrow> bool" where
  "isAuthenticated sid s = m_isAuthenticated (the_session sid s)"

definition hasPendingMessages :: "nat \<Rightarrow> 'z sessions_scheme \<Rightarrow> bool" where
  "hasPendingMessages sid s = (m_pendingMessages (the_session sid s) \<noteq> [])"

section \<open>One message\<close>

text \<open>The branches of the switch over the result of authenticate.\<close>

definition login_response ::
  "'j platform \<Rightarrow> config \<Rightarrow> nat \<Rightarrow> string \<Rightarrow> AuthResult \<Rightarrow> 'z net_scheme \<Rightarrow> commandResult \<times> 'z net_scheme" where
  "login_response P cfg sid user result s =
     (case result of
        SUCCESS \<Rightarrow>
          (let s = with_session sid (\<lambda>cs. cs\<lparr>m_isAuthenticated := True, m_clientID := user\<rparr>) s;
               s = registerSession P cfg user sid s
           in (respond P
                 [(''status'', json_string P ''success''),
                  (''message'', json_string P (strcat [''Login successful! Welcome '', user, ''.''])),
                  (''client_id'', json_string P user)] True,
               Logger_log P cfg INFO ''ClientSession''
                 (strcat [''Client '', user, '' authenticated successfully from IP: '', m_clientIP (the_session sid s)])
                 None s))
      | FAILED_ACCOUNT_LOCKED \<Rightarrow>
          (error_response P ''Account is temporarily locked due to too many failed attempts.'',
           incrementError ''tcp'' ''rx'' s)
      | FAILED_ALERT_LOCKED \<Rightarrow>
          (error_response P ''Account is locked untill manually freed by an admin, due to alert trigger.'',
           incrementError ''tcp'' ''rx'' s)
      | FAILED_USER_NOT_FOUND \<Rightarrow>
          (error_response P ''Login failed. Invalid hostname or password.'', incrementError ''tcp'' ''rx'' s)
      | FAILED_BAD_CREDENTIALS \<Rightarrow>
          (error_response P ''Login failed. Invalid hostname or password.'', incrementError ''tcp'' ''rx'' s))"

text \<open>The try block of a login and its two handlers.\<close>

definition process_login ::
  "'j platform \<Rightarrow> config \<Rightarrow> nat \<Rightarrow> 'j \<Rightarrow> 'z net_scheme \<Rightarrow> commandResult res \<times> 'z net_scheme" where
  "process_login P cfg sid request s =
     catch_st
       (seq_st (json_at P request ''payload'', s) (\<lambda>payload s.
        seq_st (json_str_field P payload ''hostname'', s) (\<lambda>user s.
        seq_st (json_at P request ''payload'', s) (\<lambda>payload s.
        seq_st (json_str_field P payload ''password'', s) (\<lambda>pass s.
        seq_st (authenticate P cfg user pass (m_blockTimeSeconds cfg) s) (\<lambda>result s.
          let (r, s) = login_response P cfg sid user result s in (Inr r, s)))))))
       (\<lambda>e s.
          if is_json_exception e then
            (let s = Logger_log P cfg WARNING ''ClientSession''
                   (strcat [''Malformed login request from ClientIP: '', m_clientIP (the_session sid s)]) None s
             in (Inr (error_response P
                   (strcat [''Malformed login request. Please provide a valid JSON with '', quote, ''payload'', quote,
                      '', '', quote, ''hostname'', quote, '' and '', quote, ''password'', quote, ''.''])),
                 incrementError ''tcp'' ''rx'' s))
          else
            (let s = Logger_log P cfg ERROR ''ClientSession''
                   (strcat [''CRITICAL: Unhandled exception during login attempt from clientIP: '',
                      m_clientIP (the_session sid s), ''. Error: '', exn_what P e]) None s
             in (Inr (respond P
                   [(''status'', json_string P ''error''),
                    (''message'', json_string P ''An internal server error occurred. Please reconnect'')] False),
                 incrementError ''tcp'' ''rx'' s)))"

definition processMessage ::
  "'j platform \<Rightarrow> config \<Rightarrow> nat \<Rightarrow> string \<Rightarrow> 'z net_scheme \<Rightarrow> commandResult res \<times> 'z net_scheme" where
  "processMessage P cfg sid json_text s =
     (case json_parse P json_text of
        None \<Rightarrow>
          (let s = Logger_log P cfg WARNING ''ClientSession''
                 (strcat [''Invalid JSON format from clientIP: '', m_clientIP (the_session sid s)]) None s
           in (Inr (''{\"status\":\"error\",\"message\":\"Invalid JSON format.\"}'', True),
               incrementError ''tcp'' ''rx'' s))
      | Some request \<Rightarrow>
          (let s = incrementMessage ''tcp'' ''rx'' s
           in seq_st (createLoggableRequest P request, s) (\<lambda>loggable s.
              let s = Logger_log P cfg DEBUG ''ClientSession''
                    (strcat [''Received message: '', json_dump P loggable]) None s
              in if \<not> m_isAuthenticated (the_session sid s) then
                   seq_st (json_value P request ''command'' [], s) (\<lambda>command s.
                     if command = ''login'' then process_login P cfg sid request s
                     else (Inr (error_response P ''Authentication required. Please log in first.''),
                           incrementError ''tcp'' ''rx'' s))
                 else
                   catch_st
                     (processCommand P cfg request (m_clientID (the_session sid s)) False s)
                     (\<lambda>e s.
                        let s = Logger_log P cfg ERROR ''ClientSession''
                              (strcat [''CRITICAL: Unhandled exception for client '', m_clientID (the_session sid s),
                                 ''. Error: '', exn_what P e]) None s
                        in (Inr (respond P
                              [(''status'', json_string P ''error''),
                               (''message'', json_string P ''An internal server error occurred. Please reconnect'')] False),
                            incrementError ''tcp'' ''rx'' s)))))"

section \<open>Queued events and pending messages\<close>

text \<open>
  handleEventQueue.  The loop leaves in its first turn, whatever it popped.  During the
  sleep another thread may set the address of the session: \<open>late\<close> is the address that a
  keepalive brings in that time.
\<close>

definition handleEventQueue ::
  "'j platform \<Rightarrow> config \<Rightarrow> nat \<Rightarrow> sockaddr option \<Rightarrow> 'z net_scheme \<Rightarrow> bool \<times> 'z net_scheme" where
  "handleEventQueue P cfg sid late s =
     (let clientID = m_clientID (the_session sid s);
          (popped, s) = popEvent P cfg clientID s
      in case popped of
           None \<Rightarrow> (True, s)
         | Some event \<Rightarrow>
             (case ev_type event of
                NOTIFICATION \<Rightarrow>
                  (let s = (case (m_udpAddress (the_session sid s), late) of
                         (None, Some addr) \<Rightarrow> setUdpAddress sid addr s
                       | _ \<Rightarrow> s)
                   in case m_udpAddress (the_session sid s) of
                        Some addr \<Rightarrow> (True, sendMessageToClient P cfg clientID (ev_message event) addr s)
                      | None \<Rightarrow>
                          (False, Logger_log P cfg ERROR ''ClientSession''
                             (strcat [''UDP address not set for client '', clientID,
                                ''. Cannot send event \"NOTIFICATION\".'']) None s))))"

definition welcome_msg :: string where
  "welcome_msg = strcat [''Welcome to the C++ Server! Please login to start operating or type '', quote, ''end'', quote,
     '' to disconnect.\<newline>'']"

definition push_pending :: "nat \<Rightarrow> string \<Rightarrow> 'z sessions_scheme \<Rightarrow> 'z sessions_scheme" where
  "push_pending sid m s = with_session sid (\<lambda>cs. cs\<lparr>m_pendingMessages := m_pendingMessages cs @ [m]\<rparr>) s"

definition sendWelcomeMessage ::
  "'j platform \<Rightarrow> config \<Rightarrow> nat \<Rightarrow> 'z net_scheme \<Rightarrow> bool \<times> 'z net_scheme" where
  "sendWelcomeMessage P cfg sid s =
     (let ((bytes_written, errno), s) = sys_write (m_clientSocket (the_session sid s)) (c_string welcome_msg) s
      in if bytes_written \<le> 0 then
           if errno \<noteq> EAGAIN \<and> errno \<noteq> EWOULDBLOCK then
             (let s = incrementError ''tcp'' ''tx'' s
              in (False, Logger_log P cfg ERROR ''ClientSession''
                    (strcat [''Error writing to client socket from IP: '', m_clientIP (the_session sid s)]) None s))
           else (True, push_pending sid welcome_msg s)
         else (True, s))"

text \<open>
  trySendPendingMessage.  After \<^verbatim>\<open>pop_front\<close> the reference \<open>msg\<close> dangles and the code still
  reads it: from there on the behaviour is undefined, which the state records.
\<close>

definition trySendPendingMessage ::
  "'j platform \<Rightarrow> config \<Rightarrow> nat \<Rightarrow> 'z net_scheme \<Rightarrow> bool \<times> 'z net_scheme" where
  "trySendPendingMessage P cfg sid s =
     (case m_pendingMessages (the_session sid s) of
        [] \<Rightarrow> (False, s)
      | msg # rest \<Rightarrow>
          if m_clientSocket (the_session sid s) < 0 then (False, s)
          else
            (let ((sent, errno), s) = sys_write (m_clientSocket (the_session sid s)) msg s
             in if sent < 0 then
                  if errno = EAGAIN \<or> errno = EWOULDBLOCK then (True, s)
                  else
                    (let s = incrementError ''tcp'' ''tx'' s
                     in (False, Logger_log P cfg ERROR ''ClientSession''
                           (strcat [''Error writing pending message to client socket from IP: '',
                              m_clientIP (the_session sid s)]) None s))
                else
                  (True, (with_session sid (\<lambda>cs. cs\<lparr>m_pendingMessages := rest\<rparr>) s)\<lparr>undefined_behaviour := True\<rparr>)))"

section \<open>The task of a readable connection\<close>

text \<open>
  run; \<open>available\<close> is what \<^verbatim>\<open>read\<close> finds: an error number, or the bytes that have arrived
  (none when the peer has closed), of which the call returns what fits the buffer.
\<close>

definition unregister_own :: "nat \<Rightarrow> 'z sessions_scheme \<Rightarrow> 'z sessions_scheme" where
  "unregister_own sid s =
     (if m_clientID (the_session sid s) \<noteq> [] then unregisterSession (m_clientID (the_session sid s)) s else s)"

definition run_after_write ::
  "'j platform \<Rightarrow> config \<Rightarrow> nat \<Rightarrow> bool \<Rightarrow> sockaddr option \<Rightarrow> 'z net_scheme \<Rightarrow> bool \<times> 'z net_scheme" where
  "run_after_write P cfg sid keep late s =
     (let s = (if m_isAuthenticated (the_session sid s) then
             (let (ok, s) = handleEventQueue P cfg sid late s
              in if \<not> ok then
                   Logger_log P cfg ERROR ''ClientSession''
                     (strcat [''Failed to send event to client '', m_clientID (the_session sid s),
                        '' from IP: '', m_clientIP (the_session sid s), ''.'']) None s
                 else s)
           else s)
      in if \<not> keep then
           (let s = Logger_log P cfg INFO ''ClientSession''
                  (strcat [''Closing connection with client: '', m_clientID (the_session sid s),
                     '' from IP: '', m_clientIP (the_session sid s)]) None s
            in (False, unregister_own sid s))
         else (True, s))"

text \<open>The string the buffer holds after the read: cut at 255 bytes and at the first NUL.\<close>

definition received_text :: "string \<Rightarrow> string" where
  "received_text bytes = c_string (take (BUFFER_SIZE - 1) bytes)"

definition clientSession_run ::
  "'j platform \<Rightarrow> config \<Rightarrow> nat \<Rightarrow> nat + string \<Rightarrow> sockaddr option \<Rightarrow> 'z net_scheme
     \<Rightarrow> bool res \<times> 'z net_scheme" where
  "clientSession_run P cfg sid available late s =
     (case available of
        Inl errno \<Rightarrow>
          if errno = EAGAIN \<or> errno = EWOULDBLOCK then (Inr True, s)
          else
            (Inr False, Logger_log P cfg ERROR ''ClientSession''
               (strcat [''Error reading from client socket from IP: '', m_clientIP (the_session sid s),
                  ''. Closing session.'']) None s)
      | Inr bytes \<Rightarrow>
          if bytes = [] then
            (let s = Logger_log P cfg WARNING ''ClientSession''
                   (strcat [''Client connection from IP: '', m_clientIP (the_session sid s),
                      ''has been disconnected.'']) None s
             in (Inr False, unregister_own sid s))
          else
            (let client_message = received_text bytes
             in seq_st (processMessage P cfg sid client_message s) (\<lambda>result s.
                let ((bytes_written, errno), s) = sys_write (m_clientSocket (the_session sid s)) (fst result) s
                in if bytes_written \<le> 0 \<and> errno \<noteq> EAGAIN \<and> errno \<noteq> EWOULDBLOCK then
                     (let s = incrementError ''tcp'' ''tx'' s;
                          s = Logger_log P cfg ERROR ''ClientSession''
                                (strcat [''Error writing to client socket from IP: '', m_clientIP (the_session sid s)])
                                None s
                      in (Inr False, unregister_own sid s))
                   else
                     (let s = (if bytes_written \<le> 0 then push_pending sid (fst result) s else s);
                          (keep, s) = run_after_write P cfg sid (snd result) late s
                      in (Inr keep, s)))))"

text \<open>The session objects that exist.\<close>

definition objects :: "'z sessions_scheme \<Rightarrow> nat set" where
  "objects s = dom (session_store s)"

section \<open>Lemmas\<close>

lemma session_view_store: "session_view s' = session_view s \<Longrightarrow> the_session sid s' = the_session sid s"
  by (simp add: session_view_def the_session_def)

lemma the_session_log [simp]:
  "the_session sid (Logger_log P cfg l c m ci s) = the_session sid s"
  "the_session sid (incrementMessage p d s) = the_session sid s"
  "the_session sid (incrementError p d s) = the_session sid s"
  by (simp_all add: the_session_def)

lemma authenticate_success:
  assumes "authenticate P cfg h p block s = (Inr SUCCESS, s')"
  obtains r where "user_of s h = Some r" and "to_int32 (u_is_locked r) \<noteq> 1"
    and "bcrypt_validatePassword P p (u_password_hash r)"
proof -
  obtain d s1 where d: "getUserLoginData h s = (Inr (Some d), s1)" "\<not> is_locked d"
      "bcrypt_validatePassword P p (passwordHash d)"
    using assms unfolding authenticate_def Let_def by (auto split: st_splits option.splits if_splits)
  from d(1) show thesis
    by (rule getUserLoginDataE) (use d(2,3) that in \<open>cases "user_of s h"; auto\<close>)+
qed

lemma authenticate_success_known:
  assumes "authenticate P cfg h p block s = (Inr SUCCESS, s')"
  shows "user_known s' h"
proof -
  obtain r where "user_of s h = Some r" by (rule authenticate_success [OF assms])
  moreover have "users_grow s s'" using grow_authenticate [of s s P cfg h p block] assms by (simp add: after_def)
  ultimately show ?thesis using users_grow_known [of s s' h] user_of_None [of s h] by auto
qed

lemma login_response_keeps:
  assumes "sessions_inv s" and "session_store s sid = Some cs" and "\<not> m_isAuthenticated cs"
    and "result = SUCCESS \<Longrightarrow> user_known s user"
  shows "after sessions_inv (login_response P cfg sid user result s)"
proof (cases result)
  case SUCCESS
  let ?cs = "cs\<lparr>m_isAuthenticated := True, m_clientID := user\<rparr>"
  have "sessions_inv (registerSession P cfg user sid (s\<lparr>session_store := (session_store s)(sid \<mapsto> ?cs)\<rparr>))"
    using assms SUCCESS by (intro registerSession_keeps) simp_all
  with SUCCESS assms(2) show ?thesis
    by (simp add: login_response_def Let_def after_iff with_session_def the_session_def)
qed (use assms(1) in \<open>simp_all add: login_response_def after_iff\<close>)

lemma process_login_keeps:
  assumes "sessions_inv s" and "session_store s sid = Some cs" and "\<not> m_isAuthenticated cs"
  shows "after sessions_inv (process_login P cfg sid request s)"
proof -
  have login: "after sessions_inv (case login_response P cfg sid user result s1 of (r, s) \<Rightarrow> (Inr r, s))"
    if "authenticate P cfg user pass block s = (Inr result, s1)" "sessions_inv s1" for user pass block result s1
  proof -
    have "session_view s1 = session_view s"
      using session_field.authenticate_same [of s "session_view s" P cfg user pass block] that(1)
      by (simp add: after_def)
    then have "session_store s1 sid = Some cs" using assms(2) by (simp add: session_view_def)
    with that assms(3) authenticate_success_known [of P cfg user pass block s s1]
    have "after sessions_inv (login_response P cfg sid user result s1)"
      by (intro login_response_keeps) auto
    then show ?thesis by (auto simp: after_def split: prod.splits)
  qed
  show ?thesis
    unfolding process_login_def Let_def using assms(1)
    by (intro after_catch after_seq sessions_after_authenticate after_if after_pair)
      (auto intro!: login after_pair)
qed

lemma processMessage_keeps [after_intros]:
  assumes "json_api P" and "sessions_inv s" and "session_store s sid = Some cs"
  shows "after sessions_inv (processMessage P cfg sid t s)"
  unfolding processMessage_def Let_def using assms
  by (intro after_intros) (auto intro!: after_intros process_login_keeps [where cs = cs] simp: the_session_def)

lemma unregister_own_keeps:
  assumes "sessions_inv s" and "session_store s sid = Some cs"
  shows "sessions_inv (unregister_own sid s)"
proof -
  have "session_ok s cs" using assms by (auto simp: sessions_inv_def ran_def)
  with assms show ?thesis
    by (auto simp: unregister_own_def the_session_def session_ok_def intro!: unregisterSession_keeps split: if_splits)
qed

lemma handleEventQueue_keeps [after_intros]:
  assumes "sessions_inv s"
  shows "after sessions_inv (handleEventQueue P cfg sid late s)"
proof -
  obtain e s1 where pop: "popEvent P cfg (m_clientID (the_session sid s)) s = (e, s1)" by fastforce
  have "sessions_inv s1" using popEvent_keeps [OF assms, of P cfg "m_clientID (the_session sid s)"] pop by (simp add: after_def)
  with pop show ?thesis
    unfolding handleEventQueue_def Let_def
    by (cases e) (auto simp: after_iff setUdpAddress_keeps sendMessageToClient_keeps
        split: EventType.splits option.splits intro!: after_pair)
qed

lemma push_pending_keeps: "sessions_inv s \<Longrightarrow> sessions_inv (push_pending sid m s)"
  unfolding push_pending_def by (rule with_session_keeps) simp_all

subsection \<open>No message creates or destroys a session object\<close>

interpretation objects_field: component_field objects
  by unfold_locales (simp_all add: objects_def)

interpretation objects_command: command_insensitive objects
  by unfold_locales (simp_all add: objects_def)

lemma objects_fields [simp]:
  "objects (s\<lparr>m_eventQueueMap := a\<rparr>) = objects s"
  "objects (s\<lparr>undefined_behaviour := b\<rparr>) = objects s"
  "objects (s\<lparr>udp_out := c\<rparr>) = objects s"
  "objects (s\<lparr>udp_send_faults := d\<rparr>) = objects s"
  "objects (s\<lparr>tcp_out := e\<rparr>) = objects s"
  "objects (s\<lparr>write_results := f\<rparr>) = objects s"
  "objects (s\<lparr>fd_closes := g\<rparr>) = objects s"
  by (simp_all add: objects_def)

lemma objects_registry_fields [simp]:
  "objects (s\<lparr>m_activeSessions := h\<rparr>) = objects s"
  "objects (s\<lparr>m_offlineUsers := i\<rparr>) = objects s"
  "objects (s\<lparr>m_connectedUsers := j\<rparr>) = objects s"
  "objects (s\<lparr>m_lockedClients := k\<rparr>) = objects s"
  by (simp_all add: objects_def)

lemma objects_with_session [simp]: "sid \<in> objects s \<Longrightarrow> objects (with_session sid f s) = objects s"
  by (auto simp: objects_def with_session_def)

lemma objects_register [simp]: "objects (registerSession P cfg c sid s) = objects s"
  by (simp add: registerSession_def Let_def)

lemma objects_unregister [simp]:
  "objects (unregisterSession c s) = objects s"
  "objects (unregister_own sid s) = objects s"
  by (simp_all add: unregisterSession_def unregister_own_def)

lemma objects_setUdpAddress [simp]: "sid \<in> objects s \<Longrightarrow> objects (setUdpAddress sid a s) = objects s"
  by (simp add: setUdpAddress_def)

lemma objects_push_pending [simp]: "sid \<in> objects s \<Longrightarrow> objects (push_pending sid m s) = objects s"
  by (simp add: push_pending_def)

lemma objects_login_response:
  "sid \<in> objects s \<Longrightarrow> objects (snd (login_response P cfg sid user result s)) = objects s"
  by (cases result) (simp_all add: login_response_def Let_def)

lemma objects_process_login:
  fixes s :: "'b net_scheme"
  shows "sid \<in> D \<Longrightarrow> objects s = D \<Longrightarrow> after (\<lambda>s. objects s = D) (process_login P cfg sid request s)"
proof -
  assume sid: "sid \<in> D" and "objects s = D"
  have resp: "after (\<lambda>s. objects s = D) (case login_response P cfg sid u r s' of (r, s) \<Rightarrow> (Inr r, s))"
    if "objects s' = D" for u r and s' :: "'b net_scheme"
    using objects_login_response [of sid s' P cfg u r] sid that
    by (cases "login_response P cfg sid u r s'") (simp add: after_def)
  from \<open>objects s = D\<close> show ?thesis
    unfolding process_login_def Let_def
    by (intro after_catch after_seq objects_field.authenticate_same resp after_if after_pair) (auto intro!: resp)
qed

lemma objects_processMessage:
  "sid \<in> D \<Longrightarrow> objects s = D \<Longrightarrow> after (\<lambda>s. objects s = D) (processMessage P cfg sid t s)"
  unfolding processMessage_def Let_def
  by (intro after_intros objects_command.processCommand_same objects_process_login) auto

lemma objects_popEvent [simp]:
  fixes s :: "'b net_scheme"
  shows "objects (snd (popEvent P cfg c s)) = objects s"
  by (auto simp: popEvent_def Let_def split: option.splits list.splits)

lemma objects_sendMessageToClient [simp]: "objects (sendMessageToClient P cfg c m a s) = objects s"
  by (auto simp: sendMessageToClient_def sendto_def Let_def split: prod.splits list.splits if_splits)

lemma objects_handleEventQueue:
  assumes "sid \<in> D" and "objects s = D"
  shows "after (\<lambda>s. objects s = D) (handleEventQueue P cfg sid late s)"
proof -
  obtain e s1 where pop: "popEvent P cfg (m_clientID (the_session sid s)) s = (e, s1)" by fastforce
  then have "objects s1 = D" using objects_popEvent [of P cfg "m_clientID (the_session sid s)" s] assms by simp
  with pop assms(1) show ?thesis
    unfolding handleEventQueue_def Let_def
    by (cases e) (auto simp: after_iff split: EventType.splits option.splits intro!: after_pair)
qed

lemma objects_sys_write: "sys_write fd d s = (r, s') \<Longrightarrow> objects s' = objects s"
  by (auto simp: sys_write_def Let_def split: list.splits if_splits prod.splits)

subsection \<open>The task keeps the invariant\<close>

lemma unregister_own_object: "sessions_inv s \<Longrightarrow> sid \<in> objects s \<Longrightarrow> sessions_inv (unregister_own sid s)"
  by (auto simp: objects_def intro: unregister_own_keeps)

lemma run_after_write_keeps:
  assumes "sessions_inv s" and "sid \<in> D" and "objects s = D"
  shows "after (\<lambda>s. sessions_inv s \<and> objects s = D) (run_after_write P cfg sid keep late s)"
proof -
  obtain ok s1 where ev: "handleEventQueue P cfg sid late s = (ok, s1)" by fastforce
  have "sessions_inv s1" "objects s1 = D"
    using handleEventQueue_keeps [OF assms(1), of P cfg sid late]
      objects_handleEventQueue [OF assms(2,3), of P cfg late] ev
    by (simp_all add: after_def)
  then show ?thesis
    unfolding run_after_write_def Let_def ev using assms
    by (auto simp: after_iff unregister_own_object)
qed

lemma clientSession_run_keeps:
  assumes "json_api P" and "sessions_inv s" and "sid \<in> D" and "objects s = D"
  shows "after (\<lambda>s. sessions_inv s \<and> objects s = D) (clientSession_run P cfg sid available late s)"
proof (cases "\<exists>bytes. available = Inr bytes \<and> bytes \<noteq> []")
  case False
  with assms show ?thesis
    by (auto simp: clientSession_run_def after_iff Let_def unregister_own_object split: sum.splits)
next
  case True
  then obtain bytes where bytes: "available = Inr bytes" "bytes \<noteq> []" by blast
  let ?t = "received_text bytes"
  obtain cs where cs: "session_store s sid = Some cs" using assms(3,4) by (auto simp: objects_def)
  obtain r s1 where pm: "processMessage P cfg sid ?t s = (r, s1)" by fastforce
  have s1: "sessions_inv s1" "objects s1 = D"
    using processMessage_keeps [OF assms(1,2) cs, of cfg ?t] objects_processMessage [OF assms(3,4), of P cfg ?t] pm
    by (simp_all add: after_def)
  show ?thesis
  proof (cases r)
    case (Inl e)
    with bytes pm s1 show ?thesis by (simp add: clientSession_run_def after_iff)
  next
    case (Inr res)
    obtain n errno s2 where w: "sys_write (m_clientSocket (the_session sid s1)) (fst res) s1 = ((n, errno), s2)"
      by (metis prod.collapse)
    have s2: "sessions_inv s2" "objects s2 = D"
      using sys_write_keeps [OF w s1(1)] objects_sys_write [OF w] s1(2) by simp_all
    have s3: "sessions_inv (push_pending sid (fst res) s2)" "objects (push_pending sid (fst res) s2) = D"
      using s2 assms(3) by (simp_all add: push_pending_keeps)
    note after_write = run_after_write_keeps [OF s2(1) assms(3) s2(2), of P cfg "snd res" late]
      run_after_write_keeps [OF s3(1) assms(3) s3(2), of P cfg "snd res" late]
    from bytes Inr pm w s2 after_write assms(3) show ?thesis
      unfolding clientSession_run_def Let_def
      by (auto simp: after_def unregister_own_object split: prod.splits)
  qed
qed

subsection \<open>Becoming authenticated\<close>

lemma the_session_register [simp]: "the_session sid (registerSession P cfg c sid' s) = the_session sid s"
  by (simp add: registerSession_def Let_def) (simp add: the_session_def)

lemma the_session_with_session [simp]: "the_session sid (with_session sid f s) = f (the_session sid s)"
  by (simp add: the_session_def with_session_def)

lemma login_response_session:
  "the_session sid (snd (login_response P cfg sid user result s)) =
     (if result = SUCCESS then (the_session sid s)\<lparr>m_isAuthenticated := True, m_clientID := user\<rparr>
      else the_session sid s)"
  by (cases result) (simp_all add: login_response_def Let_def)

lemma authenticate_session:
  "authenticate P cfg h p b s = (r, s1) \<Longrightarrow> the_session sid s1 = the_session sid s"
  using session_field.authenticate_same [of s "session_view s" P cfg h p b]
  by (auto simp: after_def dest: session_view_store)

lemma process_loginE:
  assumes "process_login P cfg sid request s = (r, s')"
  obtains (same) "the_session sid s' = the_session sid s"
    | (login) payload user pass s1 where "json_at P request ''payload'' = Inr payload"
      and "json_str_field P payload ''hostname'' = Inr user" and "json_str_field P payload ''password'' = Inr pass"
      and "authenticate P cfg user pass (m_blockTimeSeconds cfg) s = (Inr SUCCESS, s1)"
      and "the_session sid s' = (the_session sid s)\<lparr>m_isAuthenticated := True, m_clientID := user\<rparr>"
proof -
  have auth: "authenticate P cfg u p b s = (r', s1) \<Longrightarrow> the_session sid s1 = the_session sid s" for u p b r' s1
    by (rule authenticate_session)
  consider (malformed) "the_session sid s' = the_session sid s"
    | (attempt) payload user pass result s1 where "json_at P request ''payload'' = Inr payload"
      "json_str_field P payload ''hostname'' = Inr user" "json_str_field P payload ''password'' = Inr pass"
      "authenticate P cfg user pass (m_blockTimeSeconds cfg) s = (Inr result, s1)"
      "the_session sid s' = the_session sid (snd (login_response P cfg sid user result s1))"
    using assms unfolding process_login_def Let_def
    by (auto split: st_splits prod.splits if_splits dest: auth)
  then show thesis
  proof cases
    case malformed
    then show ?thesis by (rule same)
  next
    case (attempt payload user pass result s1)
    with auth [OF attempt(4)] same login show ?thesis
      by (cases "result = SUCCESS") (simp_all add: login_response_session)
  qed
qed

lemma processMessage_session:
  assumes "processMessage P cfg sid t s = (r, s')" and "\<not> m_isAuthenticated (the_session sid s)"
  obtains (same) "the_session sid s' = the_session sid s"
    | (login) request x where "json_parse P t = Some request" and "json_value P request ''command'' [] = Inr ''login''"
      and "process_login P cfg sid request (Logger_log P cfg DEBUG ''ClientSession''
        (strcat [''Received message: '', json_dump P x]) None (incrementMessage ''tcp'' ''rx'' s)) = (r, s')"
  using assms unfolding processMessage_def Let_def
  by (auto split: st_splits option.splits if_splits)

subsection \<open>What an unauthenticated session leaves alone\<close>

locale login_insensitive = user_insensitive F for F :: "'z net_scheme \<Rightarrow> 'a" +
  assumes F_store: "F (s\<lparr>session_store := st\<rparr>) = F s"
    and F_active: "F (s\<lparr>m_activeSessions := ac\<rparr>) = F s"
    and F_connected: "F (s\<lparr>m_connectedUsers := co\<rparr>) = F s"
    and F_offline: "F (s\<lparr>m_offlineUsers := off\<rparr>) = F s"
begin

lemma registerSession_same [simp]: "F (registerSession P cfg c sid s) = F s"
  by (simp add: registerSession_def Let_def F_active F_connected F_offline)

lemma login_response_same: "F (snd (login_response P cfg sid user result s)) = F s"
  by (cases result) (simp_all add: login_response_def Let_def with_session_def F_store)

lemma process_login_same: "F s = v \<Longrightarrow> after (\<lambda>s. F s = v) (process_login P cfg sid request s)"
proof -
  have resp: "F s1 = v \<Longrightarrow> after (\<lambda>s. F s = v) (case login_response P cfg sid user result s1 of (r, s) \<Rightarrow> (Inr r, s))"
    for user result s1
    using login_response_same [of P cfg sid user result s1] by (auto simp: after_def split: prod.splits)
  assume "F s = v"
  then show ?thesis
    unfolding process_login_def Let_def
    by (intro after_catch after_seq authenticate_same resp after_if after_pair) (auto intro!: resp)
qed

lemma unauthenticated_same:
  assumes "\<not> m_isAuthenticated (the_session sid s)" and "F s = v"
  shows "after (\<lambda>s. F s = v) (processMessage P cfg sid t s)"
  unfolding processMessage_def Let_def using assms
  by (intro after_intros process_login_same) auto

end

interpretation stock_login: login_insensitive stock_of
  by unfold_locales simp_all

interpretation cache_login: login_insensitive m_inventories
  by unfold_locales simp_all

interpretation locked_login: login_insensitive m_lockedClients
  by unfold_locales simp_all

interpretation out_login: login_insensitive udp_out
  by unfold_locales simp_all

interpretation queue_login: login_insensitive m_eventQueueMap
  by unfold_locales simp_all

lemma unauthenticated_users:
  assumes "\<not> m_isAuthenticated (the_session sid s)"
  shows "after (users_grow s) (processMessage P cfg sid t s)"
proof -
  have resp: "users_grow s s1 \<Longrightarrow> after (users_grow s) (case login_response P cfg sid' user result s1 of (r, s) \<Rightarrow> (Inr r, s))"
    for sid' user result s1
    by (cases result) (simp_all add: login_response_def Let_def with_session_def registerSession_def
        after_iff users_grow_def)
  have login: "users_grow s s1 \<Longrightarrow> after (users_grow s) (process_login P cfg sid request s1)" for request s1
    unfolding process_login_def Let_def
    by (intro after_catch after_seq grow_authenticate resp after_if after_pair) (auto intro!: resp)
  show ?thesis
    unfolding processMessage_def Let_def using assms
    by (intro after_intros login) auto
qed

lemma loggable_request:
  assumes "json_api P"
  shows "\<exists>j. createLoggableRequest P request = Inr j \<and>
    (\<forall>p. json_at P request ''payload'' = Inr p \<and> json_contains P p ''password'' \<longrightarrow>
      (\<exists>p'. json_at P j ''payload'' = Inr p' \<and> json_str_field P p' ''password'' = Inr ''[REDACTED]''))"
proof (cases "\<exists>p. json_at P request ''payload'' = Inr p \<and> json_contains P p ''password''")
  case True
  then obtain p where p: "json_at P request ''payload'' = Inr p" "json_contains P p ''password''" by blast
  have has: "json_contains P request ''payload''"
    using json_api.contains_iff_at [OF assms] p(1) by blast
  obtain p' where p': "json_put P p ''password'' (json_string P ''[REDACTED]'') = Inr p'"
    using json_api.put_object [OF assms p(2)] by blast
  obtain j where j: "json_put P request ''payload'' p' = Inr j"
    using json_api.put_object [OF assms has] by blast
  with p has p' json_api.put_at [OF assms p'] json_api.put_at [OF assms j]
    json_api.get_string_of_string [OF assms]
  show ?thesis by (simp add: createLoggableRequest_def json_str_field_def)
next
  case False
  then have "createLoggableRequest P request = Inr request"
    using json_api.contains_iff_at [OF assms, of request "''payload''"]
    by (auto simp: createLoggableRequest_def)
  with False show ?thesis by blast
qed

section \<open>Properties\<close>

text \<open>
  C4. Nobody is authenticated without the password: if a session that was not
  authenticated is after a message, the message was a login with the name of a user that is
  not locked and with a password that validates against the stored hash, and the session
  carries that name.
\<close>

theorem login_sound:
  assumes "processMessage P cfg sid t s = (r, s')"
    and "\<not> m_isAuthenticated (the_session sid s)" and "m_isAuthenticated (the_session sid s')"
  shows "\<exists>request payload pass q. json_parse P t = Some request \<and> json_value P request ''command'' [] = Inr ''login'' \<and>
    json_at P request ''payload'' = Inr payload \<and>
    json_str_field P payload ''hostname'' = Inr (m_clientID (the_session sid s')) \<and>
    json_str_field P payload ''password'' = Inr pass \<and>
    user_of s (m_clientID (the_session sid s')) = Some q \<and> to_int32 (u_is_locked q) \<noteq> 1 \<and>
    bcrypt_validatePassword P pass (u_password_hash q)"
  using assms(1,2)
proof (cases rule: processMessage_session)
  case same
  with assms(2,3) show ?thesis by simp
next
  case (login request x)
  from login(3) show ?thesis
  proof (cases rule: process_loginE)
    case same
    with assms(2,3) show ?thesis by simp
  next
    case (login payload user pass s1)
    obtain q where "user_of s user = Some q" "to_int32 (u_is_locked q) \<noteq> 1"
        "bcrypt_validatePassword P pass (u_password_hash q)"
      by (rule authenticate_success [OF login(4)]) simp
    with login \<open>json_parse P t = Some request\<close> \<open>json_value P request ''command'' [] = Inr ''login''\<close>
    show ?thesis by auto
  qed
qed


text \<open>
  C19. An authenticated session always gets an answer: whatever the text and whatever the
  database does, processMessage returns and lets no exception out.
\<close>

theorem authenticated_always_answered:
  assumes "json_api P" and "m_isAuthenticated (the_session sid s)"
  shows "\<exists>res s'. processMessage P cfg sid t s = (Inr res, s')"
proof (cases "json_parse P t")
  case (Some request)
  obtain j where "createLoggableRequest P request = Inr j" using loggable_request [OF assms(1)] by blast
  with Some assms(2) show ?thesis
    by (auto simp: processMessage_def Let_def split: st_splits)
next
  case None
  then show ?thesis
    by (cases "processMessage P cfg sid t s") (auto simp: processMessage_def Let_def)
qed

text \<open>
  C20. Before the login nothing of the server can be used: a message on a session that is
  not authenticated changes no stock, no cached stock, no lock and no queue of events,
  sends no datagram and removes or locks no user.
\<close>

theorem unauthenticated_changes_nothing:
  assumes "processMessage P cfg sid t s = (r, s')" and "\<not> m_isAuthenticated (the_session sid s)"
  shows "stock_of s' = stock_of s \<and> m_inventories s' = m_inventories s \<and> m_lockedClients s' = m_lockedClients s \<and>
    udp_out s' = udp_out s \<and> m_eventQueueMap s' = m_eventQueueMap s \<and> users_grow s s'"
  using stock_login.unauthenticated_same [OF assms(2) refl, of P cfg t]
    cache_login.unauthenticated_same [OF assms(2) refl, of P cfg t]
    locked_login.unauthenticated_same [OF assms(2) refl, of P cfg t]
    out_login.unauthenticated_same [OF assms(2) refl, of P cfg t]
    queue_login.unauthenticated_same [OF assms(2) refl, of P cfg t]
    unauthenticated_users [OF assms(2), of P cfg t] assms(1)
  by (simp add: after_def)

text \<open>
  A closed connection frees the user: when the peer of an authenticated session has
  closed, the task asks the server to close the session, and the user is no longer
  registered and is from then on one of the offline users, for whom alerts are queued.
\<close>

theorem disconnect_unregisters:
  assumes "m_clientID (the_session sid s) = c" and "c \<noteq> []"
  shows "\<exists>s'. clientSession_run P cfg sid (Inr []) late s = (Inr False, s') \<and>
    \<not> isClientRegistered c s' \<and> c \<in> getOfflineUsers s'"
  using assms
  by (simp add: clientSession_run_def unregister_own_def unregisterSession_def isClientRegistered_def
      getOfflineUsers_def)

text \<open>
  A failed connection does not: when the read fails with another error than "try again"
  the task asks the server to close the session as well, but the registered sessions and
  the offline users stay as they are, so the client remains registered with a closed session.
\<close>

theorem read_error_keeps_registration:
  assumes "errno \<noteq> EAGAIN" and "errno \<noteq> EWOULDBLOCK"
  shows "\<exists>s'. clientSession_run P cfg sid (Inl errno) late s = (Inr False, s') \<and>
    (\<forall>c. isClientRegistered c s' = isClientRegistered c s) \<and> getOfflineUsers s' = getOfflineUsers s"
  using assms by (simp add: clientSession_run_def isClientRegistered_def getOfflineUsers_def)

text \<open>
  C29. What happens to a queued notification: one is taken from the queue of the client,
  the oldest.  When the session knows an UDP address the datagram is sent to it; when it
  knows none and none arrives during the sleep, the notification is lost.
\<close>

theorem queued_event_delivery:
  assumes "m_clientID (the_session sid s) = c" and "events_of s c = e # es" and "udp_send_faults s = []"
  shows "\<exists>s'. handleEventQueue P cfg sid None s = (m_udpAddress (the_session sid s) \<noteq> None, s') \<and>
    events_of s' c = es \<and>
    udp_out s' = udp_out s @ (case m_udpAddress (the_session sid s) of
       Some addr \<Rightarrow> [(addr, sockaddr_len addr, ev_message e)] | None \<Rightarrow> [])"
proof -
  obtain s1 where pop: "popEvent P cfg c s = (Some e, s1)" "events_of s1 c = es"
      "udp_send_faults s1 = []" "udp_out s1 = udp_out s" "the_session sid s1 = the_session sid s"
    using assms(2,3)
    by (auto simp: popEvent_def events_of_def Let_def the_session_def split: option.splits)
  obtain k where k: "ev_type e = k" by simp
  have "k = NOTIFICATION" by (cases k) simp
  with k pop assms show ?thesis
    by (cases "m_udpAddress (the_session sid s)")
      (simp_all add: handleEventQueue_def sendMessageToClient_def sendto_ok Let_def events_of_def
        send_faults_field.Logger_log_same)
qed


end
