(* ===== verification/ThreadPool.thy ===== *)
theory ThreadPool
  imports Prelude "HOL-Library.Multiset"
begin

text \<open>
  The class ThreadPool (src/src/server/threadPool.cpp) for tasks of any type.  A worker is
  at the test of its loop, about to enter the critical section and to test the predicate of
  the wait, between a predicate that was false and the call that blocks it (it holds the
  mutex there), blocked on the condition variable, executing a task, or it has returned.
  The steps are those between two points at which another thread can be scheduled.
\<close>

datatype 't worker = AtLoop | Testing | Decided | Blocked | Busy 't | Exited

record 't pool =
  m_threads :: "'t worker list"
  m_taskQueue :: "'t list"
  m_running :: bool

definition ThreadPool_construct :: "nat \<Rightarrow> 't pool" where
  "ThreadPool_construct numThreads = \<lparr>m_threads = replicate numThreads AtLoop, m_taskQueue = [], m_running = True\<rparr>"

definition set_worker :: "nat \<Rightarrow> 't worker \<Rightarrow> 't pool \<Rightarrow> 't pool" where
  "set_worker i w p = p\<lparr>m_threads := (m_threads p)[i := w]\<rparr>"

text \<open>Nobody holds the mutex between two steps.\<close>

definition mutex_free :: "'t pool \<Rightarrow> bool" where
  "mutex_free p = list_all (\<lambda>w. w \<noteq> Decided) (m_threads p)"

text \<open>Waking a blocked worker: one of them (the workers are alike), or all.\<close>

fun notify_one :: "'t worker list \<Rightarrow> 't worker list" where
  "notify_one [] = []"
| "notify_one (w # ws) = (if w = Blocked then Testing # ws else w # notify_one ws)"

definition notify_all :: "'t worker list \<Rightarrow> 't worker list" where
  "notify_all ws = map (\<lambda>w. if w = Blocked then Testing else w) ws"

text \<open>
  enqueueTask.  The push needs the mutex: a caller waits until \<open>mutex_free\<close>.  A worker that
  runs between the push and the notification only sees the task earlier, so the two are
  one step.
\<close>

definition enqueueTask :: "'t \<Rightarrow> 't pool \<Rightarrow> 't pool" where
  "enqueueTask task p = p\<lparr>m_taskQueue := m_taskQueue p @ [task], m_threads := notify_one (m_threads p)\<rparr>"

text \<open>
  One step of the worker \<open>i\<close> in the loop of workerThread: \<open>None\<close> when it cannot move by
  itself (it waits for the mutex, is blocked, executes a task or has returned).
\<close>

definition workerThread :: "nat \<Rightarrow> 't pool \<Rightarrow> 't pool option" where
  "workerThread i p =
     (if i < length (m_threads p) then
        case m_threads p ! i of
          AtLoop \<Rightarrow> Some (set_worker i (if m_running p then Testing else Exited) p)
        | Testing \<Rightarrow>
            if mutex_free p then
              if m_taskQueue p \<noteq> [] \<or> \<not> m_running p then
                if \<not> m_running p \<and> m_taskQueue p = [] then Some (set_worker i Exited p)
                else Some ((set_worker i (Busy (hd (m_taskQueue p))) p)\<lparr>m_taskQueue := tl (m_taskQueue p)\<rparr>)
              else Some (set_worker i Decided p)
            else None
        | Decided \<Rightarrow> Some (set_worker i Blocked p)
        | _ \<Rightarrow> None
      else None)"

text \<open>The end of a task: the worker returns to the test of the loop.\<close>

definition task_end :: "nat \<Rightarrow> 't pool \<Rightarrow> 't pool option" where
  "task_end i p =
     (if i < length (m_threads p) then
        case m_threads p ! i of Busy _ \<Rightarrow> Some (set_worker i AtLoop p) | _ \<Rightarrow> None
      else None)"

text \<open>
  \<open>stop\<close> clears the flag and wakes everybody, both without the mutex; it returns when all
  workers have.
\<close>

definition stop_request :: "'t pool \<Rightarrow> 't pool" where
  "stop_request p = p\<lparr>m_running := False, m_threads := notify_all (m_threads p)\<rparr>"

definition all_joined :: "'t pool \<Rightarrow> bool" where
  "all_joined p = list_all (\<lambda>w. w = Exited) (m_threads p)"

text \<open>The tasks that workers execute.\<close>

definition busy_task :: "'t worker \<Rightarrow> 't list" where
  "busy_task w = (case w of Busy t \<Rightarrow> [t] | _ \<Rightarrow> [])"

definition busy_tasks :: "'t pool \<Rightarrow> 't list" where
  "busy_tasks p = concat (map busy_task (m_threads p))"

section \<open>Histories\<close>

text \<open>
  A history of the pool with what happened in it: tasks that were enqueued, started and
  finished, in order.
\<close>

datatype 't pool_event = Enqueued 't | Started nat 't | Finished nat 't | Moved nat | Stopped

inductive pool_run :: "'t pool \<Rightarrow> 't pool_event list \<Rightarrow> 't pool \<Rightarrow> bool" where
  start: "pool_run p [] p"
| enqueue: "pool_run p es q \<Longrightarrow> mutex_free q \<Longrightarrow> pool_run p (es @ [Enqueued t]) (enqueueTask t q)"
| take_task: "pool_run p es q \<Longrightarrow> workerThread i q = Some r \<Longrightarrow> m_threads r ! i = Busy t \<Longrightarrow>
    pool_run p (es @ [Started i t]) r"
| move: "pool_run p es q \<Longrightarrow> workerThread i q = Some r \<Longrightarrow> busy_task (m_threads r ! i) = [] \<Longrightarrow>
    pool_run p (es @ [Moved i]) r"
| finish: "pool_run p es q \<Longrightarrow> task_end i q = Some r \<Longrightarrow> m_threads q ! i = Busy t \<Longrightarrow>
    pool_run p (es @ [Finished i t]) r"
| stop: "pool_run p es q \<Longrightarrow> pool_run p (es @ [Stopped]) (stop_request q)"

definition enqueued :: "'t pool_event list \<Rightarrow> 't list" where
  "enqueued es = List.map_filter (\<lambda>e. case e of Enqueued t \<Rightarrow> Some t | _ \<Rightarrow> None) es"

definition started :: "'t pool_event list \<Rightarrow> 't list" where
  "started es = List.map_filter (\<lambda>e. case e of Started _ t \<Rightarrow> Some t | _ \<Rightarrow> None) es"

definition finished :: "'t pool_event list \<Rightarrow> 't list" where
  "finished es = List.map_filter (\<lambda>e. case e of Finished _ t \<Rightarrow> Some t | _ \<Rightarrow> None) es"

text \<open>
  How many steps a worker can still make once the flag is cleared and nobody was caught
  between a false predicate and the wait.
\<close>

definition worker_weight :: "'t worker \<Rightarrow> nat" where
  "worker_weight w = (case w of AtLoop \<Rightarrow> 1 | Busy _ \<Rightarrow> 2 | Testing \<Rightarrow> 3 | _ \<Rightarrow> 0)"

definition pool_weight :: "'t pool \<Rightarrow> nat" where
  "pool_weight p = sum_list (map worker_weight (m_threads p))"

definition stopping :: "'t pool \<Rightarrow> bool" where
  "stopping p \<longleftrightarrow> \<not> m_running p \<and> list_all (\<lambda>w. w \<noteq> Decided \<and> w \<noteq> Blocked) (m_threads p)"

text \<open>A queued task and a worker about to block never meet, and somebody is awake for a queued task.\<close>

definition pool_inv :: "'t pool \<Rightarrow> bool" where
  "pool_inv p \<longleftrightarrow> (m_running p \<longrightarrow>
     (Decided \<in> set (m_threads p) \<longrightarrow> m_taskQueue p = []) \<and> Exited \<notin> set (m_threads p) \<and>
     (m_taskQueue p \<noteq> [] \<longrightarrow> (\<exists>w \<in> set (m_threads p). w \<noteq> Blocked)))"

text \<open>A step of any worker, as the scheduler may choose it.\<close>

definition pool_move :: "nat \<Rightarrow> 't pool \<Rightarrow> 't pool option" where
  "pool_move i p = (case workerThread i p of Some q \<Rightarrow> Some q | None \<Rightarrow> task_end i p)"

primrec pool_moves :: "nat list \<Rightarrow> 't pool \<Rightarrow> 't pool option" where
  "pool_moves [] p = Some p"
| "pool_moves (i # is) p = (case pool_move i p of None \<Rightarrow> None | Some q \<Rightarrow> pool_moves is q)"

section \<open>Lemmas\<close>

lemma events_snoc [simp]:
  "enqueued (es @ [e]) = enqueued es @ (case e of Enqueued t \<Rightarrow> [t] | _ \<Rightarrow> [])"
  "started (es @ [e]) = started es @ (case e of Started _ t \<Rightarrow> [t] | _ \<Rightarrow> [])"
  "finished (es @ [e]) = finished es @ (case e of Finished _ t \<Rightarrow> [t] | _ \<Rightarrow> [])"
  by (auto simp: enqueued_def started_def finished_def List.map_filter_def split: pool_event.splits)

lemma events_nil [simp]: "enqueued [] = []" "started [] = []" "finished [] = []"
  by (simp_all add: enqueued_def started_def finished_def List.map_filter_def)

lemma workerThread_threads:
  "workerThread i p = Some q \<Longrightarrow> \<exists>w. i < length (m_threads p) \<and> m_threads q = (m_threads p)[i := w]"
  by (auto simp: workerThread_def set_worker_def split: if_splits worker.splits)

lemma workerThread_cases:
  assumes "workerThread i p = Some q"
  obtains (takes) t where "m_taskQueue p = t # m_taskQueue q" and "m_threads q ! i = Busy t"
    | (moves) "m_taskQueue q = m_taskQueue p" and "busy_task (m_threads q ! i) = []"
  using assms
  by (cases "m_taskQueue p")
    (auto simp: workerThread_def set_worker_def busy_task_def split: if_splits worker.splits)

lemma task_end_queue: "task_end i p = Some q \<Longrightarrow> m_taskQueue q = m_taskQueue p"
  by (auto simp: task_end_def set_worker_def split: if_splits worker.splits)

lemma mset_busy_update:
  assumes "i < length ws"
  shows "mset (concat (map busy_task (ws[i := w]))) + mset (busy_task (ws ! i)) =
    mset (concat (map busy_task ws)) + mset (busy_task w)"
  using assms
proof (induction ws arbitrary: i)
  case (Cons v ws)
  then show ?case by (cases i) (simp_all add: ac_simps)
qed simp

lemma busy_before_worker:
  "workerThread i p = Some q \<Longrightarrow> busy_task (m_threads p ! i) = []"
  by (auto simp: workerThread_def busy_task_def split: if_splits worker.splits)

lemma workerThread_busy:
  assumes "workerThread i p = Some q"
  shows "mset (busy_tasks q) = mset (busy_tasks p) + mset (busy_task (m_threads q ! i))"
proof -
  obtain w where w: "i < length (m_threads p)" "m_threads q = (m_threads p)[i := w]"
    using workerThread_threads [OF assms] by blast
  with mset_busy_update [OF w(1), of w] busy_before_worker [OF assms] show ?thesis
    by (simp add: busy_tasks_def)
qed

lemma task_end_busy:
  assumes "task_end i p = Some q" and "m_threads p ! i = Busy t"
  shows "mset (busy_tasks p) = add_mset t (mset (busy_tasks q))"
proof -
  have q: "i < length (m_threads p)" "m_threads q = (m_threads p)[i := AtLoop]"
    using assms by (auto simp: task_end_def set_worker_def split: if_splits)
  with mset_busy_update [OF q(1), of AtLoop] assms(2) show ?thesis
    by (simp add: busy_tasks_def busy_task_def)
qed

lemma sum_list_update_less:
  "i < length xs \<Longrightarrow> f w < f (xs ! i) \<Longrightarrow> sum_list (map f (xs[i := w])) < sum_list (map f (xs :: 'b list) :: nat list)"
proof (induction xs arbitrary: i)
  case (Cons x xs)
  then show ?case by (cases i) auto
qed simp

lemma notify_one_props [simp]:
  "map busy_task (notify_one ws) = map busy_task ws"
  "length (notify_one ws) = length ws"
  "Decided \<in> set (notify_one ws) \<longleftrightarrow> Decided \<in> set ws"
  "Exited \<in> set (notify_one ws) \<longleftrightarrow> Exited \<in> set ws"
  by (induction ws) (auto simp: busy_task_def)

lemma notify_one_awake: "ws \<noteq> [] \<Longrightarrow> \<exists>w \<in> set (notify_one ws). w \<noteq> Blocked"
  by (cases ws) auto

lemma notify_all_props [simp]:
  "map busy_task (notify_all ws) = map busy_task ws"
  "length (notify_all ws) = length ws"
  "Blocked \<notin> set (notify_all ws)"
  "Decided \<in> set (notify_all ws) \<longleftrightarrow> Decided \<in> set ws"
  by (auto simp: notify_all_def busy_task_def)

lemma mutex_free_iff: "mutex_free p \<longleftrightarrow> Decided \<notin> set (m_threads p)"
  by (auto simp: mutex_free_def list_all_iff)

lemma stopping_iff: "stopping p \<longleftrightarrow> \<not> m_running p \<and> Decided \<notin> set (m_threads p) \<and> Blocked \<notin> set (m_threads p)"
  by (auto simp: stopping_def list_all_iff)

lemma pool_move_stopping:
  assumes "stopping p" and "pool_move i p = Some q"
  shows "stopping q" and "pool_weight q < pool_weight p"
proof -
  have free: "mutex_free p" using assms(1) by (simp add: mutex_free_iff stopping_iff)
  have "i < length (m_threads p) \<Longrightarrow> m_threads p ! i \<noteq> Decided"
    using assms(1) nth_mem [of i "m_threads p"] unfolding stopping_iff by metis
  then have "\<exists>w. i < length (m_threads p) \<and> m_threads q = (m_threads p)[i := w] \<and> w \<noteq> Decided \<and> w \<noteq> Blocked \<and>
      worker_weight w < worker_weight (m_threads p ! i) \<and> m_running q = m_running p"
    using assms free
    by (auto simp: pool_move_def workerThread_def task_end_def set_worker_def worker_weight_def stopping_iff
        split: if_splits worker.splits option.splits)
  then obtain w where w: "i < length (m_threads p)" "m_threads q = (m_threads p)[i := w]" "w \<noteq> Decided" "w \<noteq> Blocked"
      "worker_weight w < worker_weight (m_threads p ! i)" "m_running q = m_running p" by blast
  show "stopping q"
    using assms(1) w set_update_subset_insert [of "m_threads p" i w] by (auto simp: stopping_iff)
  show "pool_weight q < pool_weight p"
    using w by (auto simp: pool_weight_def intro!: sum_list_update_less)
qed

lemma pool_move_possible:
  assumes "stopping p" and "i < length (m_threads p)" and "m_threads p ! i \<noteq> Exited"
  shows "\<exists>q. pool_move i p = Some q"
proof -
  have "m_threads p ! i \<noteq> Decided" "m_threads p ! i \<noteq> Blocked"
    using assms(1) nth_mem [OF assms(2)] unfolding stopping_iff by metis+
  with assms show ?thesis
    by (auto simp: pool_move_def workerThread_def task_end_def stopping_iff mutex_free_iff
        split: worker.splits option.splits)
qed

lemma pool_moves_stopping:
  assumes "stopping p" and "pool_moves is p = Some q"
  shows "stopping q \<and> length is + pool_weight q \<le> pool_weight p"
  using assms
proof (induction "is" arbitrary: p)
  case (Cons i "is")
  then obtain r where r: "pool_move i p = Some r" "pool_moves is r = Some q" by (auto split: option.splits)
  from Cons(1) [OF _ r(2)] pool_move_stopping [OF Cons(2) r(1)] show ?case by simp
qed simp

lemma worker_weight_le: "worker_weight w \<le> 3"
  by (cases w) (auto simp: worker_weight_def)

lemma pool_weight_le: "pool_weight p \<le> 3 * length (m_threads p)"
proof -
  have "sum_list (map worker_weight ws) \<le> 3 * length ws" for ws :: "'a worker list"
  proof (induction ws)
    case (Cons w ws)
    then show ?case using worker_weight_le [of w] by simp
  qed simp
  then show ?thesis by (simp add: pool_weight_def)
qed

lemma pool_move_blocked:
  assumes "pool_move i p = Some q" and "m_threads p ! k = Blocked"
  shows "m_threads q ! k = Blocked"
  using assms
  by (cases "k = i")
    (auto simp: pool_move_def workerThread_def task_end_def set_worker_def
      split: if_splits worker.splits option.splits)

lemma pool_moves_blocked:
  "pool_moves is p = Some q \<Longrightarrow> m_threads p ! k = Blocked \<Longrightarrow> m_threads q ! k = Blocked"
  by (induction "is" arbitrary: p) (auto split: option.splits dest: pool_move_blocked)

lemma workerThread_inv:
  assumes "workerThread i p = Some q" and "pool_inv p"
  shows "pool_inv q"
proof (cases "m_running p")
  case False
  with assms show ?thesis
    by (auto simp: workerThread_def set_worker_def pool_inv_def split: if_splits worker.splits)
next
  case True
  have i: "i < length (m_threads p)" and len: "length (m_threads q) = length (m_threads p)"
    using workerThread_threads [OF assms(1)] by auto
  have upd: "set ((m_threads p)[i := w]) \<subseteq> insert w (set (m_threads p))" "w \<in> set ((m_threads p)[i := w])" for w
    using i by (auto simp: set_update_subset_insert set_update_memI)
  from True assms i nth_mem [OF i] show ?thesis
    using upd [of Testing] upd [of Decided] upd [of Blocked] upd [of "Busy (hd (m_taskQueue p))"]
    by (cases "m_threads p ! i")
      (auto simp: workerThread_def set_worker_def pool_inv_def mutex_free_iff split: if_splits)
qed

lemma task_end_inv: "task_end i p = Some q \<Longrightarrow> pool_inv p \<Longrightarrow> pool_inv q"
  using set_update_subset_insert [of "m_threads p" i AtLoop] set_update_memI [of i "m_threads p" AtLoop]
  by (fastforce simp: task_end_def set_worker_def pool_inv_def split: if_splits worker.splits)

lemma length_threads_moves:
  "workerThread i p = Some q \<Longrightarrow> length (m_threads q) = length (m_threads p)"
  "task_end i p = Some q \<Longrightarrow> length (m_threads q) = length (m_threads p)"
  by (auto simp: task_end_def set_worker_def split: if_splits worker.splits dest: workerThread_threads)

lemma length_pool_moves: "pool_moves is p = Some q \<Longrightarrow> length (m_threads q) = length (m_threads p)"
  by (induction "is" arbitrary: p) (auto simp: pool_move_def split: option.splits dest: length_threads_moves)

lemma pool_run_inv:
  assumes "pool_run p es q" and "pool_inv p" and "0 < length (m_threads p)"
  shows "pool_inv q \<and> 0 < length (m_threads q)"
  using assms
proof (induction rule: pool_run.induct)
  case (enqueue p es q t)
  then have "m_threads q \<noteq> []" "Decided \<notin> set (m_threads q)" "pool_inv q" by (auto simp: mutex_free_iff)
  with notify_one_awake [of "m_threads q"] show ?case
    by (simp add: pool_inv_def enqueueTask_def)
next
  case (take_task p es q i r t)
  then show ?case by (simp add: workerThread_inv [of i q] length_threads_moves(1) [of i q])
next
  case (move p es q i r)
  then show ?case by (simp add: workerThread_inv [of i q] length_threads_moves(1) [of i q])
next
  case (finish p es q i r t)
  then show ?case by (simp add: task_end_inv [of i q] length_threads_moves(2) [of i q])
next
  case (stop p es q)
  then show ?case by (simp add: pool_inv_def stop_request_def)
qed simp

lemma awake_moves:
  assumes "pool_inv p" and "m_running p" and "m_taskQueue p \<noteq> []"
  shows "\<exists>i q. pool_move i p = Some q"
proof -
  from assms obtain w where w: "w \<in> set (m_threads p)" "w \<noteq> Blocked" "w \<noteq> Exited" "Decided \<notin> set (m_threads p)"
    by (auto simp: pool_inv_def)
  then obtain i where "i < length (m_threads p)" "m_threads p ! i = w" by (auto simp: in_set_conv_nth)
  moreover have "w \<noteq> Decided" using w(1,4) by blast
  ultimately have "\<exists>q. pool_move i p = Some q"
    using w by (auto simp: pool_move_def workerThread_def task_end_def mutex_free_iff split: worker.splits option.splits)
  then show ?thesis by blast
qed

section \<open>Properties\<close>

text \<open>
  C8. No task is lost, duplicated or overtaken: in every history of the pool the tasks are
  started in the order in which they were enqueued, those not started yet are in the queue,
  and what was started is finished or being executed.
\<close>

theorem tasks_fifo_no_loss:
  assumes "pool_run p es q"
  shows "m_taskQueue p @ enqueued es = started es @ m_taskQueue q \<and>
    mset (busy_tasks p) + mset (started es) = mset (finished es) + mset (busy_tasks q)"
  using assms
proof (induction rule: pool_run.induct)
  case (enqueue p es q t)
  then show ?case by (simp add: enqueueTask_def busy_tasks_def)
next
  case (take_task p es q i r t)
  from take_task(2) show ?case
  proof (cases rule: workerThread_cases)
    case (takes t')
    with take_task workerThread_busy [OF take_task(2)] show ?thesis by (simp add: busy_task_def)
  next
    case moves
    with take_task(3) show ?thesis by (simp add: busy_task_def)
  qed
next
  case (move p es q i r)
  from move(2) show ?case
    by (cases rule: workerThread_cases)
      (use move workerThread_busy [OF move(2)] in \<open>simp_all add: busy_task_def\<close>)
next
  case (finish p es q i r t)
  with task_end_queue [OF finish(2)] task_end_busy [OF finish(2,3)] show ?case by simp
next
  case (stop p es q)
  then show ?case by (simp add: stop_request_def busy_tasks_def)
qed simp

text \<open>
  C15. A queued task never waits for a wakeup that was missed: in every history of a pool
  with at least one thread that has not been stopped, while a task is queued some worker
  can move.
\<close>

theorem queued_task_not_stuck:
  assumes "pool_run (ThreadPool_construct n) es q" and "0 < n" and "m_running q" and "m_taskQueue q \<noteq> []"
  shows "\<exists>i r. pool_move i q = Some r"
proof -
  have "pool_inv (ThreadPool_construct n :: 'a pool)"
    by (simp add: pool_inv_def ThreadPool_construct_def)
  with pool_run_inv [OF assms(1)] assms(2) have "pool_inv q"
    by (simp add: ThreadPool_construct_def)
  with awake_moves assms(3,4) show ?thesis by blast
qed

text \<open>
  C18. Stopping the pool ends when no worker is between its false predicate and the wait:
  then every schedule of the workers is over after at most three steps for each of them,
  whatever is queued, and as long as a worker has not returned somebody can move, so the
  joins of stop return.
\<close>

theorem stop_terminates:
  assumes "mutex_free p" and "pool_moves is (stop_request p) = Some q"
  shows "length is \<le> 3 * length (m_threads p) \<and> (all_joined q \<or> (\<exists>i r. pool_move i q = Some r))"
proof -
  have "stopping (stop_request p)" using assms(1) by (simp add: stopping_iff stop_request_def mutex_free_iff)
  note moves = pool_moves_stopping [OF this assms(2)]
  then have "length is \<le> 3 * length (m_threads p)"
    using pool_weight_le [of "stop_request p"] by (simp add: stop_request_def)
  moreover have "\<exists>i r. pool_move i q = Some r" if not: "\<not> all_joined q"
  proof -
    from not obtain i where "i < length (m_threads q)" "m_threads q ! i \<noteq> Exited"
      by (auto simp: all_joined_def list_all_length)
    with pool_move_possible moves show ?thesis by blast
  qed
  ultimately show ?thesis by blast
qed

text \<open>
  C31. Otherwise the notification is lost: since stop clears the flag without the mutex, a
  worker can find the flag set, and block after the notification.  There is a history after
  which a worker stays blocked in every schedule, so that its join never returns.
\<close>

theorem stop_can_hang:
  assumes "0 < n"
  shows "\<exists>es q. pool_run (ThreadPool_construct n) es q \<and> Stopped \<in> set es \<and>
    (\<forall>is r. pool_moves is q = Some r \<longrightarrow> \<not> all_joined r)"
proof -
  let ?p = "ThreadPool_construct n :: 'a pool"
  let ?p2 = "set_worker 0 Decided ?p"
  let ?q = "set_worker 0 Blocked (stop_request ?p2)"
  obtain k where n: "n = Suc k" using assms by (cases n) auto
  have "pool_run ?p ([] @ [Moved 0]) (set_worker 0 Testing ?p)"
    by (rule pool_run.move [OF pool_run.start])
      (auto simp: n workerThread_def set_worker_def ThreadPool_construct_def busy_task_def)
  then have "pool_run ?p (([] @ [Moved 0]) @ [Moved 0]) ?p2"
    by (rule pool_run.move)
      (auto simp: n workerThread_def set_worker_def ThreadPool_construct_def busy_task_def mutex_free_def list_all_iff)
  then have "pool_run ?p ((([] @ [Moved 0]) @ [Moved 0]) @ [Stopped]) (stop_request ?p2)"
    by (rule pool_run.stop)
  then have run: "pool_run ?p (((([] @ [Moved 0]) @ [Moved 0]) @ [Stopped]) @ [Moved 0]) ?q"
    by (rule pool_run.move)
      (auto simp: n workerThread_def set_worker_def ThreadPool_construct_def busy_task_def stop_request_def notify_all_def)
  have q: "m_threads ?q ! 0 = Blocked" "length (m_threads ?q) = n"
    by (simp_all add: n set_worker_def ThreadPool_construct_def stop_request_def notify_all_def)
  have "\<not> all_joined r" if moves: "pool_moves is ?q = Some r" for "is" r
  proof -
    have "m_threads r ! 0 = Blocked" using pool_moves_blocked [OF moves] q(1) by simp
    moreover have "length (m_threads r) = n" using length_pool_moves [OF moves] q(2) by simp
    ultimately show ?thesis using n by (auto simp: all_joined_def list_all_length)
  qed
  with run show ?thesis by (intro exI [of _ "(((([] @ [Moved 0]) @ [Moved 0]) @ [Stopped]) @ [Moved 0])"] exI [of _ ?q]) simp
qed

end
