(* ===== verification/Server.thy ===== *)
theory Server
  imports ClientSession ThreadPool "HOL-Library.Word" "HOL-Library.AList"
begin

unbundle bit_operations_syntax

text \<open>
  The class Server (src/src/server/server.cpp): the set-up of the sockets, the event loop of
  the main thread, the tasks the workers of the thread pool execute, and the shutdown.
  The answers of the kernel are arguments (of \<^verbatim>\<open>socket\<close>, \<^verbatim>\<open>bind\<close>, \<^verbatim>\<open>accept\<close>, \<^verbatim>\<open>read\<close> ...)
  or a schedule (\<open>epoll_results\<close>: the error number of the next \<^verbatim>\<open>epoll_ctl\<close>, when it
  fails).  The interest list of the epoll instance is part of the state.  A
  \<^verbatim>\<open>shared_ptr\<close> to a session is an object number, \<open>None\<close> is the null pointer.
\<close>

datatype task = Udp_task | Ipc_task int | Tcp_task nat int

record server = net +
  m_serverTCPFD :: int
  m_serverUDPFD :: int
  m_serverUnixFD :: int
  m_epollFD :: int
  m_clientSessions :: "(int \<times> nat option) list"
  m_threadPool :: "task pool"
  g_shutdown_flag :: bool
  epoll_interest :: "(int \<times> 32 word) list"
  epoll_results :: "nat option list"
  pending_events :: "(int \<times> 32 word) list"
  next_object :: nat
  unix_address :: "string option"
  unlinked :: "string list"

definition EPOLLIN :: "32 word" where "EPOLLIN = 1"

definition EPOLLOUT :: "32 word" where "EPOLLOUT = 4"

definition EPOLLONESHOT :: "32 word" where "EPOLLONESHOT = 0x40000000"

definition EBADF :: nat where "EBADF = 9"

definition AF_INET6 :: nat where "AF_INET6 = 10"

definition THREAD_POOL_SIZE :: nat where "THREAD_POOL_SIZE = 16"

definition MAX_EPOLL_EVENTS :: nat where "MAX_EPOLL_EVENTS = 1024"

section \<open>System calls\<close>

definition epoll_set :: "int \<Rightarrow> 32 word \<Rightarrow> 'z server_scheme \<Rightarrow> (int \<times> nat) \<times> 'z server_scheme" where
  "epoll_set fd events s =
     (case epoll_results s of
        Some errno # rs \<Rightarrow> ((-1, errno), s\<lparr>epoll_results := rs\<rparr>)
      | rs \<Rightarrow> ((0, 0), s\<lparr>epoll_results := tl rs, epoll_interest := AList.update fd events (epoll_interest s)\<rparr>))"

definition epoll_del :: "int \<Rightarrow> 'z server_scheme \<Rightarrow> (int \<times> nat) \<times> 'z server_scheme" where
  "epoll_del fd s =
     (case epoll_results s of
        Some errno # rs \<Rightarrow> ((-1, errno), s\<lparr>epoll_results := rs\<rparr>)
      | rs \<Rightarrow> ((0, 0), s\<lparr>epoll_results := tl rs, epoll_interest := AList.delete fd (epoll_interest s)\<rparr>))"

text \<open>Closing a descriptor also takes it from the interest list.\<close>

definition close_fd :: "int \<Rightarrow> 'z server_scheme \<Rightarrow> 'z server_scheme" where
  "close_fd fd s = (sys_close fd s)\<lparr>epoll_interest := AList.delete fd (epoll_interest s)\<rparr>"

text \<open>
  What \<^verbatim>\<open>epoll_wait\<close> may report: descriptors of the interest list with some of the events
  they are registered for.  A descriptor registered with \<^verbatim>\<open>EPOLLONESHOT\<close> is disabled by it.
\<close>

definition reportable :: "(int \<times> 32 word) list \<Rightarrow> 'z server_scheme \<Rightarrow> bool" where
  "reportable evs s \<longleftrightarrow> length evs \<le> MAX_EPOLL_EVENTS \<and> distinct (map fst evs) \<and>
     list_all (\<lambda>(fd, ev). case map_of (epoll_interest s) fd of
        Some armed \<Rightarrow> ev AND armed AND (EPOLLIN OR EPOLLOUT) \<noteq> 0 \<and> ev AND NOT armed = 0 | None \<Rightarrow> False) evs"

definition disarm :: "int \<Rightarrow> (int \<times> 32 word) list \<Rightarrow> (int \<times> 32 word) list" where
  "disarm fd m =
     (case map_of m fd of
        Some armed \<Rightarrow> if armed AND EPOLLONESHOT \<noteq> 0 then AList.update fd 0 m else m
      | None \<Rightarrow> m)"

section \<open>Addresses\<close>

text \<open>
  \<^verbatim>\<open>inet_ntop\<close> on the bytes of an address: dotted decimal for IPv4, and for IPv6 groups of
  hexadecimal digits where the longest run of at least two zero groups (the first of the
  longest) is written as two colons and an embedded IPv4 address in dotted decimal.
\<close>

definition byte_at :: "string \<Rightarrow> nat \<Rightarrow> nat" where
  "byte_at bs i = (if i < length bs then of_char (bs ! i) else 0)"

definition inet_ntop4 :: "nat list \<Rightarrow> string" where
  "inet_ntop4 bs = concat (map (\<lambda>i. (if i = 0 then [] else ''.'') @ nat_to_string (bs ! i)) [0..<4])"

fun to_hex :: "nat \<Rightarrow> string" where
  "to_hex n = (if n < 16 then [hex_digit n] else to_hex (n div 16) @ [hex_digit (n mod 16)])"

declare to_hex.simps [simp del]

text \<open>The length of the run of zeros at the start of a list, and the best run: (base, length).\<close>

definition zero_run :: "nat list \<Rightarrow> nat" where
  "zero_run ws = length (takeWhile (\<lambda>w. w = 0) ws)"

definition best_run :: "nat list \<Rightarrow> (nat \<times> nat) option" where
  "best_run ws =
     (let best = fold (\<lambda>i b. if zero_run (drop i ws) > snd b then (i, zero_run (drop i ws)) else b) [0..<length ws] (0, 0)
      in if snd best < 2 then None else Some best)"

definition inet_ntop6 :: "nat list \<Rightarrow> string" where
  "inet_ntop6 bs =
     (let ws = map (\<lambda>i. 256 * bs ! (2 * i) + bs ! (2 * i + 1)) [0..<8];
          best = best_run ws;
          embedded = (case best of Some (b, l) \<Rightarrow> b = 0 \<and> (l = 6 \<or> l = 5 \<and> ws ! 5 = 0xffff) | None \<Rightarrow> False);
          group = (\<lambda>i. case best of
             Some (b, l) \<Rightarrow> if b \<le> i \<and> i < b + l then (if i = b then '':'' else [])
               else (if i = 0 then [] else '':'') @ to_hex (ws ! i)
           | None \<Rightarrow> (if i = 0 then [] else '':'') @ to_hex (ws ! i))
      in if embedded then concat (map group [0..<6]) @ '':'' @ inet_ntop4 (drop 12 bs)
         else concat (map group [0..<8]) @
           (case best of Some (b, l) \<Rightarrow> if b + l = 8 then '':'' else [] | None \<Rightarrow> []))"

text \<open>
  getClientIP.  The data of an address are the bytes after its family: for IPv4 the port and
  the address, for IPv6 the port, the flow information and the address.
\<close>

definition getClientIP :: "sockaddr \<Rightarrow> string" where
  "getClientIP clientAddress =
     (if ss_family clientAddress = AF_INET then
        inet_ntop4 (map (byte_at (ss_data clientAddress)) [2..<6])
      else if ss_family clientAddress = AF_INET6 then
        inet_ntop6 (map (byte_at (ss_data clientAddress)) [6..<22])
      else ''UNKNOWN'')"

section \<open>Set-up\<close>

text \<open>
  The answers of the kernel during the set-up: for every candidate address of the TCP port
  the results of \<^verbatim>\<open>socket\<close>, of the two \<^verbatim>\<open>setsockopt\<close> calls (with the error number) and
  of \<^verbatim>\<open>bind\<close>.
\<close>

record candidate =
  c_socket :: int
  c_v6only :: int
  c_reuse :: int
  c_errno :: nat
  c_bind :: int

record setup_env =
  e_epoll :: int
  e_tcp_gai :: int
  e_gai_strerror :: string
  e_candidates :: "candidate list"
  e_tcp_listen :: int
  e_udp_gai :: int
  e_udp_socket :: int
  e_udp_bind :: int
  e_unix_socket :: int
  e_unix_bind :: int
  e_unix_listen :: int
  e_exposer :: bool

text \<open>The loop over the candidates: the first one that can be bound.\<close>

primrec bind_first :: "candidate list \<Rightarrow> 'z server_scheme \<Rightarrow> bool res \<times> 'z server_scheme" where
  "bind_first [] s = (Inr False, s)"
| "bind_first (c # cs) s =
     (if c_socket c < 0 then bind_first cs s
      else if c_v6only c < 0 then (Inl (SystemError (c_errno c) ''setsockopt IPV6_V6ONLY failed\<newline>''), s)
      else if c_reuse c < 0 then (Inl (SystemError (c_errno c) ''setsockopt to reuse port failed\<newline>''), s)
      else if c_bind c = 0 then (Inr True, s\<lparr>m_serverTCPFD := c_socket c\<rparr>)
      else bind_first cs (close_fd (c_socket c) s))"

definition setTCPConfig ::
  "'j platform \<Rightarrow> config \<Rightarrow> setup_env \<Rightarrow> 'z server_scheme \<Rightarrow> unit res \<times> 'z server_scheme" where
  "setTCPConfig P cfg env s =
     (if e_tcp_gai env \<noteq> 0 then
        (Inl (RuntimeError ''getaddrinfo failed\<newline>''),
         Logger_log P cfg ERROR ''Server'' (strcat [''getaddrinfo failed: '', e_gai_strerror env]) None s)
      else
        seq_st (bind_first (e_candidates env) s) (\<lambda>bound s.
          if \<not> bound then
            (Inl (RuntimeError ''Failed to bind\<newline>''),
             Logger_log P cfg ERROR ''Server'' ''Failed to bind to any address.'' None s)
          else if e_tcp_listen env < 0 then
            (Inl (RuntimeError ''Failed to listen\<newline>''),
             Logger_log P cfg ERROR ''Server'' ''Failed to listen on socket.'' None s)
          else
            (let ((result, errno), s) = epoll_set (m_serverTCPFD s) EPOLLIN s
             in if result < 0 then
                  (Inl (RuntimeError ''Failed to add server TCP socket to epoll\<newline>''),
                   Logger_log P cfg ERROR ''Server'' ''Failed to add server TCP socket to epoll'' None s)
                else
                  (Inr (), Logger_log P cfg INFO ''Server''
                     (strcat [''Server TCP socket listening on port '', to_string (m_tcpPort cfg)]) None s))))"

definition setUDPConfig ::
  "'j platform \<Rightarrow> config \<Rightarrow> setup_env \<Rightarrow> 'z server_scheme \<Rightarrow> unit res \<times> 'z server_scheme" where
  "setUDPConfig P cfg env s =
     (if e_udp_gai env \<noteq> 0 then (Inl (RuntimeError ''getaddrinfo for UDP failed''), s)
      else
        (let s = s\<lparr>m_serverUDPFD := e_udp_socket env\<rparr>
         in if m_serverUDPFD s < 0 then
              (Inl (RuntimeError ''Failed to create socket''),
               Logger_log P cfg ERROR ''Server'' ''Failed to create socket.'' None s)
            else if e_udp_bind env < 0 then
              (Inl (RuntimeError ''Failed to bind''),
               Logger_log P cfg ERROR ''Server'' ''Failed to bind to any address.'' None s)
            else
              (let ((result, errno), s) = epoll_set (m_serverUDPFD s) EPOLLIN s
               in if result < 0 then
                    (Inl (RuntimeError ''Failed to add server UDP socket to epoll''),
                     Logger_log P cfg ERROR ''Server'' ''Failed to add server UDP socket to epoll'' None s)
                  else
                    (Inr (), Logger_log P cfg INFO ''Server''
                       (strcat [''UDP socket listening on port '', to_string (m_udpPort cfg)]) None s))))"

text \<open>The size of the path of a \<^verbatim>\<open>sockaddr_un\<close>; what \<^verbatim>\<open>strncpy\<close> leaves of a longer one is bound.\<close>

definition SUN_PATH_SIZE :: nat where "SUN_PATH_SIZE = 108"

definition setUNIXconfig ::
  "'j platform \<Rightarrow> config \<Rightarrow> setup_env \<Rightarrow> 'z server_scheme \<Rightarrow> unit res \<times> 'z server_scheme" where
  "setUNIXconfig P cfg env s =
     (let socketPath = m_unixSocketPath cfg;
          s = s\<lparr>m_serverUnixFD := e_unix_socket env\<rparr>
      in if m_serverUnixFD s < 0 then (Inl (RuntimeError ''Failed to create UNIX socket''), s)
         else
           (let s = s\<lparr>unlinked := unlinked s @ [c_string socketPath]\<rparr>
            in if e_unix_bind env < 0 then (Inl (RuntimeError ''Failed to bind IPC socket''), s)
               else
                 (let s = s\<lparr>unix_address := Some (take (SUN_PATH_SIZE - 1) (c_string socketPath))\<rparr>
                  in if e_unix_listen env < 0 then (Inl (RuntimeError ''Failed to listen on IPC socket''), s)
                     else
                       (let ((result, errno), s) = epoll_set (m_serverUnixFD s) EPOLLIN s
                        in if result < 0 then
                             (Inl (RuntimeError ''Failed to add IPC socket to epoll''), close_fd (m_serverUnixFD s) s)
                           else
                             (Inr (), Logger_log P cfg INFO ''Server''
                                (strcat [''IPC socket listening on '', socketPath]) None s)))))"

definition setupServer ::
  "'j platform \<Rightarrow> config \<Rightarrow> setup_env \<Rightarrow> 'z server_scheme \<Rightarrow> unit res \<times> 'z server_scheme" where
  "setupServer P cfg env s =
     (let s = s\<lparr>m_epollFD := e_epoll env\<rparr>
      in if m_epollFD s < 0 then (Inl (RuntimeError ''Failed to create epoll''), s)
         else
           seq_st (setTCPConfig P cfg env s) (\<lambda>_ s.
           seq_st (setUDPConfig P cfg env s) (\<lambda>_ s.
           seq_st (setUNIXconfig P cfg env s) (\<lambda>_ s.
           seq_st (userExists ''admin'' s) (\<lambda>exists s.
             if \<not> exists then
               seq_st (createUser P ''admin'' ''admin'' s) (\<lambda>_ s.
                 (Inr (), Logger_log P cfg INFO ''Server''
                    (strcat [''Default admin user created with username '', quote, ''admin'', quote,
                       '' and password '', quote, ''admin'', quote]) None s))
             else (Inr (), s))))))"

text \<open>
  The constructor: the members with their initial values, then the set-up and the start of
  the exposer, whose result is ignored.
\<close>

definition Server_members :: "'z server_scheme \<Rightarrow> 'z server_scheme" where
  "Server_members s =
     s\<lparr>m_serverTCPFD := -1, m_serverUDPFD := -1, m_serverUnixFD := -1, m_epollFD := -1,
       m_clientSessions := [], m_threadPool := ThreadPool_construct THREAD_POOL_SIZE,
       m_eventQueueMap := Map.empty, m_inventories := Map.empty, m_fullyCachedClients := {},
       m_activeSessions := [], m_lockedClients := {}, m_connectedUsers := {}, m_offlineUsers := {},
       session_store := Map.empty, next_object := 0\<rparr>"

definition Server_construct ::
  "'j platform \<Rightarrow> config \<Rightarrow> setup_env \<Rightarrow> 'z server_scheme \<Rightarrow> unit res \<times> 'z server_scheme" where
  "Server_construct P cfg env s =
     seq_st (setupServer P cfg env (Server_members s)) (\<lambda>_ s.
       (Inr (), snd (startPrometheusExposer (e_exposer env) (m_metricHostPort cfg) s)))"

section \<open>Session objects\<close>

text \<open>
  An object is destroyed when the last \<^verbatim>\<open>shared_ptr\<close> to it goes: those of the map of
  connections, of the registered sessions and of the queued and running tasks.  The
  destructor closes the socket.
\<close>

definition task_object :: "task \<Rightarrow> nat option" where
  "task_object t = (case t of Tcp_task sid _ \<Rightarrow> Some sid | _ \<Rightarrow> None)"

definition referenced :: "nat \<Rightarrow> 'z server_scheme \<Rightarrow> bool" where
  "referenced sid s \<longleftrightarrow> Some sid \<in> snd ` set (m_clientSessions s) \<or> sid \<in> snd ` set (m_activeSessions s) \<or>
     Some sid \<in> task_object ` set (m_taskQueue (m_threadPool s) @ busy_tasks (m_threadPool s))"

definition clientSession_destroy :: "nat \<Rightarrow> 'z server_scheme \<Rightarrow> 'z server_scheme" where
  "clientSession_destroy sid s =
     (let fd = m_clientSocket (the_session sid s);
          s = (if fd \<noteq> -1 then close_fd fd s else s)
      in s\<lparr>session_store := (session_store s)(sid := None)\<rparr>)"

definition release_object :: "nat \<Rightarrow> 'z server_scheme \<Rightarrow> 'z server_scheme" where
  "release_object sid s =
     (if session_store s sid \<noteq> None \<and> \<not> referenced sid s then clientSession_destroy sid s else s)"

text \<open>All objects that nobody points to any more.\<close>

definition release_objects :: "'z server_scheme \<Rightarrow> 'z server_scheme" where
  "release_objects s = fold release_object [0..<next_object s] s"

section \<open>The main thread\<close>

definition enqueue :: "task \<Rightarrow> 'z server_scheme \<Rightarrow> 'z server_scheme" where
  "enqueue t s = s\<lparr>m_threadPool := enqueueTask t (m_threadPool s)\<rparr>"

text \<open>\<open>accepted\<close>: the result of \<^verbatim>\<open>accept\<close> and the address of the peer.\<close>

definition handleTcpConnection ::
  "'j platform \<Rightarrow> config \<Rightarrow> int \<times> sockaddr \<Rightarrow> 'z server_scheme \<Rightarrow> 'z server_scheme" where
  "handleTcpConnection P cfg accepted s =
     (let (newsockfd, clientAddress) = accepted
      in if newsockfd < 0 then Logger_log P cfg ERROR ''Server'' ''Error while trying to accept.'' None s
         else
           (let ((result, errno), s) = epoll_set newsockfd (EPOLLIN OR EPOLLONESHOT) s
            in if result < 0 then
                 Logger_log P cfg ERROR ''Server'' ''Failed to add client socket to epoll'' None (close_fd newsockfd s)
               else
                 (let clientIp = getClientIP clientAddress;
                      s = (if clientIp = ''UNKNOWN''
                        then Logger_log P cfg ERROR ''Server'' ''Error while trying to get client IP.'' None s else s);
                      session = next_object s;
                      s = s\<lparr>session_store := (session_store s)(session \<mapsto> clientSession_construct newsockfd clientIp),
                            next_object := Suc session\<rparr>;
                      s = release_objects (s\<lparr>m_clientSessions := AList.update newsockfd (Some session) (m_clientSessions s)\<rparr>);
                      s = Logger_log P cfg INFO ''ClientSession''
                            (strcat [''New connection accepted from IP '', clientIp]) None s;
                      (_, s) = sendWelcomeMessage P cfg session s
                  in s)))"

definition handleUNIXConnection ::
  "'j platform \<Rightarrow> config \<Rightarrow> int \<Rightarrow> 'z server_scheme \<Rightarrow> 'z server_scheme" where
  "handleUNIXConnection P cfg newsockfd s =
     (if newsockfd < 0 then Logger_log P cfg ERROR ''Server'' ''Error while trying to accept.'' None s
      else Logger_log P cfg INFO ''Server'' ''IPC connection established.'' None (enqueue (Ipc_task newsockfd) s))"

text \<open>\<^verbatim>\<open>m_clientSessions[fd]\<close>, which inserts a null pointer when there is no entry.\<close>

definition session_entry :: "int \<Rightarrow> 'z server_scheme \<Rightarrow> nat option \<times> 'z server_scheme" where
  "session_entry fd s =
     (case map_of (m_clientSessions s) fd of
        Some p \<Rightarrow> (p, s)
      | None \<Rightarrow> (None, s\<lparr>m_clientSessions := AList.update fd None (m_clientSessions s)\<rparr>))"

definition tcpHandling :: "'j platform \<Rightarrow> config \<Rightarrow> int \<Rightarrow> 'z server_scheme \<Rightarrow> 'z server_scheme" where
  "tcpHandling P cfg fd s =
     (let (session, s) = session_entry fd s
      in case session of
           Some sid \<Rightarrow> enqueue (Tcp_task sid fd) s
         | None \<Rightarrow> Logger_log P cfg WARNING ''Server''
                     (strcat [''Invalid client session for FD: '', to_string fd]) None s)"

definition pendingMessages :: "'j platform \<Rightarrow> config \<Rightarrow> int \<Rightarrow> 'z server_scheme \<Rightarrow> 'z server_scheme" where
  "pendingMessages P cfg fd s =
     (let (session, s) = session_entry fd s
      in case session of
           Some sid \<Rightarrow>
             (let (_, s) = trySendPendingMessage P cfg sid s
              in if \<not> hasPendingMessages sid s then snd (epoll_set fd EPOLLIN s) else s)
         | None \<Rightarrow> Logger_log P cfg WARNING ''Server''
                     (strcat [''Invalid client session for FD: '', to_string fd]) None s)"

text \<open>The body of the loop over the reported events.\<close>

definition handle_event ::
  "'j platform \<Rightarrow> config \<Rightarrow> int \<times> sockaddr \<Rightarrow> int \<times> 32 word \<Rightarrow> 'z server_scheme \<Rightarrow> 'z server_scheme" where
  "handle_event P cfg accepted ev s =
     (let (fd, events) = ev;
          s = (if events AND EPOLLOUT \<noteq> 0 then pendingMessages P cfg fd s else s)
      in if fd = m_serverTCPFD s then handleTcpConnection P cfg accepted s
         else if fd = m_serverUDPFD s then enqueue Udp_task s
         else if fd = m_serverUnixFD s then handleUNIXConnection P cfg (fst accepted) s
         else if map_of (m_clientSessions s) fd \<noteq> None then tcpHandling P cfg fd s
         else Logger_log P cfg DEBUG ''Server'' (strcat [''Ignoring event for closed FD: '', to_string fd]) None s)"

text \<open>The call of \<^verbatim>\<open>epoll_wait\<close>: it fails, or reports events that are handled one after the other.\<close>

definition epoll_wait ::
  "'j platform \<Rightarrow> config \<Rightarrow> (int \<times> 32 word) list option \<Rightarrow> 'z server_scheme \<Rightarrow> 'z server_scheme" where
  "epoll_wait P cfg reported s =
     (case reported of
        None \<Rightarrow> Logger_log P cfg ERROR ''Server'' ''epoll_wait failed'' None s
      | Some evs \<Rightarrow> s\<lparr>pending_events := evs, epoll_interest := fold (disarm \<circ> fst) evs (epoll_interest s)\<rparr>)"

definition run_end :: "'j platform \<Rightarrow> config \<Rightarrow> 'z server_scheme \<Rightarrow> 'z server_scheme" where
  "run_end P cfg s =
     Logger_log P cfg INFO ''Server'' ''Shutdown signal received. Server is now closing.'' None s"

section \<open>The tasks\<close>

text \<open>What the kernel has for a task: bytes of a connection, a datagram, and a late address.\<close>

record task_io =
  t_read :: "nat + string"
  t_recv :: "nat + (string \<times> sockaddr)"
  t_late :: "sockaddr option"

text \<open>The lambda of tcpHandling.\<close>

definition tcp_task ::
  "'j platform \<Rightarrow> config \<Rightarrow> nat \<Rightarrow> int \<Rightarrow> task_io \<Rightarrow> 'z server_scheme \<Rightarrow> unit res \<times> 'z server_scheme" where
  "tcp_task P cfg sid fd io s =
     seq_st (clientSession_run P cfg sid (t_read io) (t_late io) s) (\<lambda>continueSession s.
       if \<not> continueSession then
         (let s = Logger_log P cfg INFO ''Server''
                (strcat [''Closing client connection from FD: '', to_string fd]) None s;
              ((result, errno), s) = epoll_del fd s;
              s = (if result < 0 then
                     if errno = EBADF then
                       Logger_log P cfg WARNING ''Server''
                         (strcat [''FD already removed or closed: '', to_string fd]) None s
                     else
                       Logger_log P cfg ERROR ''Server''
                         (strcat [''Failed to remove FD from epoll: '', to_string fd]) None s
                   else s);
              s = close_fd fd s
          in (Inr (), s\<lparr>m_clientSessions := AList.delete fd (m_clientSessions s)\<rparr>))
       else
         (let events = EPOLLIN OR EPOLLONESHOT;
              events = (if hasPendingMessages sid s then events OR EPOLLOUT else events)
          in (Inr (), snd (epoll_set fd events s))))"

definition exec_task ::
  "'j platform \<Rightarrow> config \<Rightarrow> task_io \<Rightarrow> task \<Rightarrow> 'z server_scheme \<Rightarrow> unit res \<times> 'z server_scheme" where
  "exec_task P cfg io t s =
     (case t of
        Udp_task \<Rightarrow> UdpHandler_handleMessage P cfg (t_recv io) s
      | Ipc_task fd \<Rightarrow> seq_st (handleConnection P cfg fd (t_read io) s) (\<lambda>_ s. (Inr (), s))
      | Tcp_task sid fd \<Rightarrow> tcp_task P cfg sid fd io s)"

text \<open>
  A worker executes its task and drops it.  Nothing catches an exception in workerThread:
  it ends the process.
\<close>

definition run_task :: "'j platform \<Rightarrow> config \<Rightarrow> nat \<Rightarrow> task_io \<Rightarrow> task \<Rightarrow> 'z server_scheme \<Rightarrow> 'z server_scheme" where
  "run_task P cfg i io t s =
     (let (r, s) = exec_task P cfg io t s
      in case r of
           Inl e \<Rightarrow> s\<lparr>terminated := True\<rparr>
         | Inr _ \<Rightarrow>
             (case task_end i (m_threadPool s) of
                Some p \<Rightarrow> release_objects (s\<lparr>m_threadPool := p\<rparr>)
              | None \<Rightarrow> s))"

section \<open>The server as a transition system\<close>

text \<open>
  The main thread and the workers take turns: \<^verbatim>\<open>epoll_wait\<close> returns (or fails), the next
  reported event is handled, a worker moves, a worker executes its task, a signal arrives.
  A process that has terminated does nothing.  The tasks and the handling of an event are
  single steps.
\<close>

inductive server_step :: "'j platform \<Rightarrow> config \<Rightarrow> 'z server_scheme \<Rightarrow> 'z server_scheme \<Rightarrow> bool"
  for P :: "'j platform" and cfg :: config where
  wait_failed: "\<not> terminated s \<Longrightarrow> \<not> g_shutdown_flag s \<Longrightarrow> pending_events s = [] \<Longrightarrow>
    server_step P cfg s (epoll_wait P cfg None s)"
| wait: "\<not> terminated s \<Longrightarrow> \<not> g_shutdown_flag s \<Longrightarrow> pending_events s = [] \<Longrightarrow> reportable evs s \<Longrightarrow>
    server_step P cfg s (epoll_wait P cfg (Some evs) s)"
| event: "\<not> terminated s \<Longrightarrow> pending_events s = ev # evs \<Longrightarrow> mutex_free (m_threadPool s) \<Longrightarrow>
    server_step P cfg s (handle_event P cfg accepted ev (s\<lparr>pending_events := evs\<rparr>))"
| worker: "\<not> terminated s \<Longrightarrow> workerThread i (m_threadPool s) = Some p \<Longrightarrow>
    server_step P cfg s (s\<lparr>m_threadPool := p\<rparr>)"
| task: "\<not> terminated s \<Longrightarrow> i < length (m_threads (m_threadPool s)) \<Longrightarrow> m_threads (m_threadPool s) ! i = Busy t \<Longrightarrow>
    server_step P cfg s (run_task P cfg i io t s)"
| signal: "\<not> terminated s \<Longrightarrow> server_step P cfg s (s\<lparr>g_shutdown_flag := True\<rparr>)"
| tick: "\<not> terminated s \<Longrightarrow> clock_now s \<le> t \<Longrightarrow> server_step P cfg s (s\<lparr>clock_now := t\<rparr>)"

section \<open>The process\<close>

text \<open>The destructor after the threads were joined.\<close>

definition Server_destroy :: "config \<Rightarrow> 'z server_scheme \<Rightarrow> 'z server_scheme" where
  "Server_destroy cfg s =
     (let s = release_objects (s\<lparr>m_clientSessions := []\<rparr>);
          s = (if m_serverTCPFD s \<noteq> -1 then close_fd (m_serverTCPFD s) s else s);
          s = (if m_serverUDPFD s \<noteq> -1 then close_fd (m_serverUDPFD s) s else s);
          s = (if m_serverUnixFD s \<noteq> -1
            then (close_fd (m_serverUnixFD s) s)\<lparr>unlinked := unlinked s @ [c_string (m_unixSocketPath cfg)]\<rparr> else s);
          s = (if m_epollFD s \<ge> 0 then close_fd (m_epollFD s) s else s)
      in closeLogFile s)"

text \<open>
  The part of main in front of the loop, from the configuration on; \<open>c0\<close> is the
  configuration object before its members are assigned.
\<close>

definition startup ::
  "'j platform \<Rightarrow> 'y yaml_lib \<Rightarrow> string list \<Rightarrow> string option \<Rightarrow> config \<Rightarrow> setup_env \<Rightarrow> 'z server_scheme
     \<Rightarrow> config res \<times> 'z server_scheme" where
  "startup P Y args env_port c0 env s =
     seq_st (Config_construct Y args env_port c0, s) (\<lambda>cfg s.
     seq_st (Storage_construct (TrafficReporter_construct s)) (\<lambda>_ s.
     seq_st (initializeSchema s) (\<lambda>_ s.
       let s = s\<lparr>m_logFile := None, m_fileEnabled := False\<rparr>;
           (_, s) = openLogFile P (m_logPath cfg) s;
           s = Logger_log P cfg INFO ''Main'' ''Core services initialized.'' None s
       in seq_st (Server_construct P cfg env s) (\<lambda>_ s.
            (Inr cfg, Logger_log P cfg INFO ''Main'' ''Server successfully started. Running loop...'' None s)))))"

text \<open>
  main: the exit code and the state at the end, when it ends.  The loop runs until a
  signal has come and the reported events are handled; then the destructor stops the pool,
  waits for the workers and closes what is open.  The storage, the clock and the
  logger are local to the block that is left after the loop, and the server is destroyed
  later: its destructor uses objects that do not exist any more, whatever they left behind.
\<close>

inductive server_main ::
  "'j platform \<Rightarrow> 'y yaml_lib \<Rightarrow> (string \<Rightarrow> bool) \<Rightarrow> string list \<Rightarrow> string option \<Rightarrow> config \<Rightarrow> setup_env
     \<Rightarrow> 'z server_scheme \<Rightarrow> int \<Rightarrow> 'z server_scheme \<Rightarrow> bool"
  for P :: "'j platform" and Y :: "'y yaml_lib" and exists :: "string \<Rightarrow> bool" and args :: "string list"
    and env_port :: "string option" and c0 :: config and env :: setup_env where
  bad_arguments: "\<not> validateArguments exists args \<Longrightarrow> server_main P Y exists args env_port c0 env s 1 s"
| failure: "validateArguments exists args \<Longrightarrow> startup P Y args env_port c0 env s = (Inl e, s') \<Longrightarrow>
    server_main P Y exists args env_port c0 env s 1 s'"
| shutdown: "validateArguments exists args \<Longrightarrow> startup P Y args env_port c0 env s = (Inr cfg, s1) \<Longrightarrow>
    (server_step P cfg)\<^sup>*\<^sup>* s1 s2 \<Longrightarrow> \<not> terminated s2 \<Longrightarrow> g_shutdown_flag s2 \<Longrightarrow> pending_events s2 = [] \<Longrightarrow>
    s3 = run_end P cfg s2 \<Longrightarrow>
    (server_step P cfg)\<^sup>*\<^sup>* (s3\<lparr>m_threadPool := stop_request (m_threadPool s3)\<rparr>) s4 \<Longrightarrow>
    \<not> terminated s4 \<Longrightarrow> all_joined (m_threadPool s4) \<Longrightarrow>
    server_main P Y exists args env_port c0 env s 0 ((Server_destroy cfg s4)\<lparr>undefined_behaviour := True\<rparr>)"

section \<open>The invariant\<close>

text \<open>
  The invariant of the sessions; nobody points to an object that was destroyed; new objects
  are new; the pool has its workers.
\<close>

definition server_inv :: "'z server_scheme \<Rightarrow> bool" where
  "server_inv s \<longleftrightarrow> sessions_inv s \<and> (\<forall>sid. referenced sid s \<longrightarrow> sid \<in> objects s) \<and>
     objects s \<subseteq> {..<next_object s} \<and> length (m_threads (m_threadPool s)) = THREAD_POOL_SIZE"

text \<open>A descriptor registered for reading, without \<^verbatim>\<open>EPOLLONESHOT\<close>.\<close>

definition armed_in :: "int \<Rightarrow> 'z server_scheme \<Rightarrow> bool" where
  "armed_in fd s \<longleftrightarrow> map_of (epoll_interest s) fd = Some EPOLLIN"

section \<open>Lemmas\<close>

subsection \<open>What the components below leave alone\<close>

locale alert_insensitive = user_insensitive F for F :: "'z net_scheme \<Rightarrow> 'a" +
  assumes F_locked_clients: "F (s\<lparr>m_lockedClients := lc\<rparr>) = F s"
    and F_events: "F (s\<lparr>m_eventQueueMap := ev\<rparr>) = F s"
    and F_undefined: "F (s\<lparr>undefined_behaviour := ub\<rparr>) = F s"
    and F_udp_out: "F (s\<lparr>udp_out := uo\<rparr>) = F s"
    and F_udp_faults: "F (s\<lparr>udp_send_faults := uf\<rparr>) = F s"
    and F_tcp_out: "F (s\<lparr>tcp_out := out\<rparr>) = F s"
    and F_write_results: "F (s\<lparr>write_results := wr\<rparr>) = F s"
    and F_closes: "F (s\<lparr>fd_closes := cl\<rparr>) = F s"
begin

lemma sendto_same: "sendto m a l s = (r, s') \<Longrightarrow> F s' = F s"
  by (auto simp: sendto_def Let_def F_udp_faults F_udp_out split: list.splits if_splits prod.splits)

lemma sys_write_same: "sys_write fd d s = (r, s') \<Longrightarrow> F s' = F s"
  by (auto simp: sys_write_def Let_def F_write_results F_tcp_out split: list.splits if_splits prod.splits)

lemma sys_close_same [simp]: "F (sys_close fd s) = F s"
  by (simp add: sys_close_def F_closes)

lemma pushEvent_same [simp]: "F (pushEvent P cfg c e s) = F s"
  by (simp add: pushEvent_def Let_def F_events F_undefined)

lemma popEvent_same: "popEvent P cfg c s = (r, s') \<Longrightarrow> F s' = F s"
  by (auto simp: popEvent_def Let_def F_events split: option.splits list.splits)

lemma broadcastMessage_same [simp]: "F (broadcastMessage P cfg j s) = F s"
proof -
  have to: "F (broadcast_to P cfg t a s) = F s" for t a s
    by (auto simp: broadcast_to_def Let_def dest: sendto_same split: prod.splits)
  have fold: "F (fold (broadcast_to P cfg t) as s) = F s" "F (fold (queue_for P cfg t) us s) = F s" for t as us s
    by (induction as arbitrary: s, simp_all add: to) (induction us arbitrary: s, simp_all add: queue_for_def)
  show ?thesis by (simp add: broadcastMessage_def Let_def fold)
qed

lemma handleConnection_same:
  "F s = v \<Longrightarrow> after (\<lambda>s. F s = v) (handleConnection P cfg fd available s)"
  unfolding handleConnection_def processAlert_def lockClient_def Let_def
  by (intro after_intros user_op_same; auto simp: F_locked_clients)

end

interpretation objects_alert: alert_insensitive objects
  by unfold_locales simp_all

locale net_insensitive = command_insensitive F + login_insensitive F + alert_insensitive F
  for F :: "'z net_scheme \<Rightarrow> 'a"
begin

lemma with_session_same [simp]:
  "F (with_session sid f s) = F s" "F (setUdpAddress sid a s) = F s" "F (push_pending sid m s) = F s"
  by (simp_all add: with_session_def setUdpAddress_def push_pending_def F_store)

lemma unregister_same [simp]: "F (unregisterSession c s) = F s" "F (unregister_own sid s) = F s"
  by (simp_all add: unregisterSession_def unregister_own_def F_active F_offline)

lemma handleKeepalive_same:
  "F s = v \<Longrightarrow> after (\<lambda>s. F s = v) (handleKeepalive P cfg request addr s)"
  unfolding handleKeepalive_def Let_def
  by (intro after_intros) (auto dest!: sendto_same)

lemma handleMessage_same:
  "F s = v \<Longrightarrow> after (\<lambda>s. F s = v) (UdpHandler_handleMessage P cfg received s)"
  unfolding UdpHandler_handleMessage_def Let_def
  by (intro after_intros handleKeepalive_same) auto

lemma processMessage_same:
  "F s = v \<Longrightarrow> after (\<lambda>s. F s = v) (processMessage P cfg sid t s)"
  unfolding processMessage_def Let_def
  by (intro after_intros processCommand_same process_login_same) auto

lemma handleEventQueue_same:
  "F s = v \<Longrightarrow> after (\<lambda>s. F s = v) (handleEventQueue P cfg sid late s)"
  unfolding handleEventQueue_def sendMessageToClient_def Let_def
  by (rule afterI)
    (auto split: prod.splits option.splits EventType.splits if_splits dest!: popEvent_same sendto_same)

lemma run_after_write_same:
  "F s = v \<Longrightarrow> after (\<lambda>s. F s = v) (run_after_write P cfg sid keep late s)"
  using handleEventQueue_same [of s v P cfg sid late]
  by (auto simp: run_after_write_def Let_def after_def split: prod.splits)

lemma clientSession_run_same:
  assumes "F s = v"
  shows "after (\<lambda>s. F s = v) (clientSession_run P cfg sid available late s)"
proof -
  have fin: "after (\<lambda>s'. F s' = F s) (case run_after_write P cfg sid keep late s1 of (keep, s) \<Rightarrow> (Inr keep :: bool res, s))"
    if "F s1 = F s" for keep s1
    using run_after_write_same [OF that, of P cfg sid keep late] by (auto simp: after_def split: prod.splits)
  show ?thesis
    unfolding assms [symmetric] clientSession_run_def Let_def
    by (intro after_intros processMessage_same fin) (auto simp: after_iff dest!: sys_write_same intro!: fin)
qed

lemma sendWelcomeMessage_same: "sendWelcomeMessage P cfg sid s = (r, s') \<Longrightarrow> F s' = F s"
  by (auto simp: sendWelcomeMessage_def Let_def split: prod.splits if_splits dest!: sys_write_same)

lemma trySendPendingMessage_same: "trySendPendingMessage P cfg sid s = (r, s') \<Longrightarrow> F s' = F s"
  by (auto simp: trySendPendingMessage_def Let_def F_undefined split: prod.splits if_splits list.splits
      dest!: sys_write_same)

end

interpretation more_net: net_insensitive net.more
  by unfold_locales simp_all

text \<open>The fields of the server are in the part of the state the components below do not know.\<close>

lemma server_fields_more:
  fixes s s' :: "'z server_scheme"
  assumes "net.more s' = net.more s"
  shows "m_clientSessions s' = m_clientSessions s" and "m_threadPool s' = m_threadPool s"
    and "next_object s' = next_object s" and "epoll_interest s' = epoll_interest s"
    and "m_serverTCPFD s' = m_serverTCPFD s" and "m_serverUDPFD s' = m_serverUDPFD s"
    and "m_serverUnixFD s' = m_serverUnixFD s" and "m_epollFD s' = m_epollFD s"
    and "pending_events s' = pending_events s" and "g_shutdown_flag s' = g_shutdown_flag s"
  using assms by (cases s; cases s'; simp)+

lemmas log_server_fields [simp] = server_fields_more [OF more_net.Logger_log_same]

lemma server_fields_sessions [simp]:
  "sessions_inv (s\<lparr>m_serverTCPFD := a\<rparr>) = sessions_inv s"
  "sessions_inv (s\<lparr>m_serverUDPFD := b\<rparr>) = sessions_inv s"
  "sessions_inv (s\<lparr>m_serverUnixFD := c\<rparr>) = sessions_inv s"
  "sessions_inv (s\<lparr>m_epollFD := d\<rparr>) = sessions_inv s"
  "sessions_inv (s\<lparr>m_clientSessions := e\<rparr>) = sessions_inv s"
  "sessions_inv (s\<lparr>m_threadPool := f\<rparr>) = sessions_inv s"
  "sessions_inv (s\<lparr>g_shutdown_flag := g\<rparr>) = sessions_inv s"
  "sessions_inv (s\<lparr>epoll_interest := h\<rparr>) = sessions_inv s"
  "sessions_inv (s\<lparr>epoll_results := i\<rparr>) = sessions_inv s"
  "sessions_inv (s\<lparr>pending_events := j\<rparr>) = sessions_inv s"
  "sessions_inv (s\<lparr>next_object := k\<rparr>) = sessions_inv s"
  "sessions_inv (s\<lparr>unix_address := l\<rparr>) = sessions_inv s"
  "sessions_inv (s\<lparr>unlinked := m\<rparr>) = sessions_inv s"
  by (simp_all add: sessions_inv_def inventory_inv_def storage_ok_def users_ok_def inventory_ok_def logs_ok_def
      user_known_def stock_of_def [abs_def] user_of_def locks_agree_def registry_ok_def session_ok_def cong: option.case_cong)

lemma server_fields_objects [simp]:
  "objects (s\<lparr>m_serverTCPFD := a\<rparr>) = objects s"
  "objects (s\<lparr>m_serverUDPFD := b\<rparr>) = objects s"
  "objects (s\<lparr>m_serverUnixFD := c\<rparr>) = objects s"
  "objects (s\<lparr>m_epollFD := d\<rparr>) = objects s"
  "objects (s\<lparr>m_clientSessions := e\<rparr>) = objects s"
  "objects (s\<lparr>m_threadPool := f\<rparr>) = objects s"
  "objects (s\<lparr>g_shutdown_flag := g\<rparr>) = objects s"
  "objects (s\<lparr>epoll_interest := h\<rparr>) = objects s"
  "objects (s\<lparr>epoll_results := i\<rparr>) = objects s"
  "objects (s\<lparr>pending_events := j\<rparr>) = objects s"
  "objects (s\<lparr>next_object := k\<rparr>) = objects s"
  "objects (s\<lparr>unix_address := l\<rparr>) = objects s"
  "objects (s\<lparr>unlinked := m\<rparr>) = objects s"
  by (simp_all add: objects_def)

lemma clock_terminated_fields [simp]:
  "sessions_inv (s\<lparr>clock_now := t\<rparr>) = sessions_inv s"
  "sessions_inv (s\<lparr>terminated := b\<rparr>) = sessions_inv s"
  "objects (s\<lparr>clock_now := t\<rparr>) = objects s"
  "objects (s\<lparr>terminated := b\<rparr>) = objects s"
  by (simp_all add: sessions_inv_def inventory_inv_def storage_ok_def users_ok_def inventory_ok_def logs_ok_def
      user_known_def stock_of_def [abs_def] user_of_def locks_agree_def registry_ok_def session_ok_def objects_def
      cong: option.case_cong)

subsection \<open>The invariant\<close>

lemma active_objects: "sessions_inv s \<Longrightarrow> sid \<in> snd ` set (m_activeSessions s) \<Longrightarrow> sid \<in> objects s"
  by (fastforce simp: sessions_inv_def registry_ok_def objects_def)

text \<open>What a component below does keeps the invariant when it keeps that of the sessions and the objects.\<close>

lemma server_inv_frame:
  fixes s s' :: "'z server_scheme"
  assumes "server_inv s" and "sessions_inv s'" and "objects s' = objects s" and "net.more s' = net.more s"
  shows "server_inv s'"
proof -
  note same = server_fields_more [OF assms(4)]
  have "sid \<in> objects s'" if "referenced sid s'" for sid
    using that active_objects [OF assms(2), of sid] assms(1,3) same(1,2)
    by (auto simp: referenced_def server_inv_def)
  with assms same(2,3) show ?thesis by (simp add: server_inv_def)
qed

lemma server_inv_log [simp]: "server_inv s \<Longrightarrow> server_inv (Logger_log P cfg l c m ci s)"
  by (rule server_inv_frame) (simp_all add: server_inv_def)

lemma server_inv_fields [simp]:
  "server_inv (s\<lparr>m_serverTCPFD := a\<rparr>) = server_inv s"
  "server_inv (s\<lparr>m_serverUDPFD := b\<rparr>) = server_inv s"
  "server_inv (s\<lparr>m_serverUnixFD := c\<rparr>) = server_inv s"
  "server_inv (s\<lparr>m_epollFD := d\<rparr>) = server_inv s"
  "server_inv (s\<lparr>g_shutdown_flag := g\<rparr>) = server_inv s"
  "server_inv (s\<lparr>epoll_interest := h\<rparr>) = server_inv s"
  "server_inv (s\<lparr>epoll_results := i\<rparr>) = server_inv s"
  "server_inv (s\<lparr>pending_events := j\<rparr>) = server_inv s"
  "server_inv (s\<lparr>unix_address := l\<rparr>) = server_inv s"
  "server_inv (s\<lparr>unlinked := m\<rparr>) = server_inv s"
  "server_inv (s\<lparr>clock_now := n\<rparr>) = server_inv s"
  "server_inv (s\<lparr>terminated := t\<rparr>) = server_inv s"
  by (simp_all add: server_inv_def referenced_def)

lemma server_inv_close [simp]: "server_inv s \<Longrightarrow> server_inv (close_fd fd s)"
proof -
  assume "server_inv s"
  then have "server_inv (sys_close fd s)"
    by (rule server_inv_frame) (use \<open>server_inv s\<close> in \<open>simp_all add: server_inv_def sys_close_def\<close>)
  then show ?thesis by (simp add: close_fd_def)
qed

lemma server_inv_epoll [simp]:
  "server_inv s \<Longrightarrow> server_inv (snd (epoll_set fd ev s))"
  "server_inv s \<Longrightarrow> server_inv (snd (epoll_del fd s))"
  by (auto simp: epoll_set_def epoll_del_def split: list.splits option.splits)

lemma destroy_keeps:
  assumes "sessions_inv s" and "sid \<notin> snd ` set (m_activeSessions s)"
  shows "sessions_inv (s\<lparr>session_store := (session_store s)(sid := None)\<rparr>)"
proof -
  let ?s = "s\<lparr>session_store := (session_store s)(sid := None)\<rparr>"
  have reg: "registry_ok s" using assms(1) by (simp add: sessions_inv_def)
  have "k \<noteq> sid" if "(c, k) \<in> set (m_activeSessions s)" for c k
    using assms(2) that image_eqI [of k snd "(c, k)"] by auto
  then have "\<forall>(c, k) \<in> set (m_activeSessions s). \<exists>cs. ((session_store s)(sid := None)) k = Some cs \<and>
      m_isAuthenticated cs \<and> m_clientID cs = c"
    using reg unfolding registry_ok_def by auto
  with reg have "registry_ok ?s" by (simp add: registry_ok_def)
  moreover have "cs \<in> ran (session_store s)" if "cs \<in> ran ((session_store s)(sid := None))" for cs
    using that by (auto simp: ran_def split: if_splits)
  ultimately show ?thesis
    using assms(1) by (simp add: sessions_inv_def locks_agree_def session_ok_def)
qed

lemma release_object_keeps: "server_inv s \<Longrightarrow> server_inv (release_object sid s)"
proof -
  assume inv: "server_inv s"
  show ?thesis
  proof (cases "session_store s sid \<noteq> None \<and> \<not> referenced sid s")
    case True
    let ?s = "if m_clientSocket (the_session sid s) \<noteq> -1 then close_fd (m_clientSocket (the_session sid s)) s else s"
    have s: "server_inv ?s" using inv by simp
    moreover have unref: "\<not> referenced sid ?s" using True by (simp add: referenced_def close_fd_def sys_close_def)
    ultimately have "sessions_inv (?s\<lparr>session_store := (session_store ?s)(sid := None)\<rparr>)"
      by (intro destroy_keeps) (simp_all add: server_inv_def referenced_def)
    moreover have "objects (?s\<lparr>session_store := (session_store ?s)(sid := None)\<rparr>) = objects ?s - {sid}"
      by (auto simp: objects_def)
    ultimately have "server_inv (?s\<lparr>session_store := (session_store ?s)(sid := None)\<rparr>)"
      using s unref by (auto simp: server_inv_def referenced_def)
    with True show ?thesis by (simp add: release_object_def clientSession_destroy_def Let_def)
  qed (use inv in \<open>auto simp: release_object_def\<close>)
qed

lemma release_objects_keeps: "server_inv s \<Longrightarrow> server_inv (release_objects s)"
  unfolding release_objects_def by (rule fold_keeps) (simp_all add: release_object_keeps)

end
