(* ===== verification/ServerSteps.thy ===== *)
theory ServerSteps
  imports Server
begin

unbundle bit_operations_syntax

text \<open>
  Every step of the server keeps the invariant: the handlers of the main thread, the tasks
  of the workers, the start and the end of the process.
\<close>

interpretation closes_field: component_field fd_closes
  by unfold_locales simp_all

section \<open>The main thread\<close>

lemma busy_tasks_enqueue [simp]: "busy_tasks (enqueueTask t p) = busy_tasks p"
  by (simp add: busy_tasks_def enqueueTask_def)

lemma enqueue_keeps:
  assumes "server_inv s" and "\<And>sid. task_object t = Some sid \<Longrightarrow> sid \<in> objects s"
  shows "server_inv (enqueue t s)"
proof -
  have "sid \<in> objects s" if "referenced sid (enqueue t s)" for sid
    using that assms by (auto simp: referenced_def enqueue_def server_inv_def) (auto simp: enqueueTask_def)
  with assms(1) show ?thesis
    by (simp add: server_inv_def enqueue_def) (simp add: enqueueTask_def)
qed

lemma new_object_keeps:
  assumes "server_inv s"
  shows "server_inv (s\<lparr>session_store := (session_store s)(next_object s \<mapsto> clientSession_construct fd ip),
    next_object := Suc (next_object s)\<rparr>)"
proof -
  let ?n = "next_object s"
  let ?s = "s\<lparr>session_store := (session_store s)(?n \<mapsto> clientSession_construct fd ip)\<rparr>"
  have inv: "sessions_inv s" and fresh: "?n \<notin> objects s" using assms by (auto simp: server_inv_def)
  have reg: "registry_ok s" using inv by (simp add: sessions_inv_def)
  have "k \<noteq> ?n" if "(c, k) \<in> set (m_activeSessions s)" for c k
    using active_objects [OF inv, of k] that fresh by force
  then have "registry_ok ?s" using reg unfolding registry_ok_def by auto
  moreover have "session_ok s (clientSession_construct fd ip)"
    by (simp add: session_ok_def clientSession_construct_def)
  moreover have "ran ((session_store s)(?n \<mapsto> clientSession_construct fd ip)) \<subseteq>
      insert (clientSession_construct fd ip) (ran (session_store s))"
    by (auto simp: ran_def)
  ultimately have "sessions_inv ?s"
    using inv by (auto simp: sessions_inv_def locks_agree_def session_ok_def)
  moreover have "objects ?s = insert ?n (objects s)" by (auto simp: objects_def)
  ultimately show ?thesis
    using assms by (auto simp: server_inv_def referenced_def lessThan_Suc)
qed

lemma sendWelcomeMessage_keeps:
  assumes "server_inv s" and "sid \<in> objects s" and "sendWelcomeMessage P cfg sid s = (r, s')"
  shows "server_inv s'"
proof -
  obtain n errno s1 where w: "sys_write (m_clientSocket (the_session sid s)) (c_string welcome_msg) s = ((n, errno), s1)"
    by (metis prod.collapse)
  have s1: "sessions_inv s1" "sid \<in> objects s1" "objects s1 = objects s"
    using sys_write_keeps [OF w] objects_sys_write [OF w] assms(1,2) by (simp_all add: server_inv_def)
  have "s' = snd (sendWelcomeMessage P cfg sid s)" using assms(3) by simp
  with s1 have "sessions_inv s' \<and> objects s' = objects s1"
    by (simp add: sendWelcomeMessage_def w push_pending_keeps)
  with s1(3) more_net.sendWelcomeMessage_same [OF assms(3)] show ?thesis
    by (auto intro!: server_inv_frame [OF assms(1)])
qed

lemma trySendPendingMessage_keeps:
  assumes "server_inv s" and "sid \<in> objects s" and "trySendPendingMessage P cfg sid s = (r, s')"
  shows "server_inv s'"
proof -
  have "sessions_inv s' \<and> objects s' = objects s"
  proof (cases "m_pendingMessages (the_session sid s)")
    case Nil
    with assms(1,3) show ?thesis by (simp add: trySendPendingMessage_def server_inv_def)
  next
    case (Cons m ms)
    obtain n errno s1 where w: "sys_write (m_clientSocket (the_session sid s)) m s = ((n, errno), s1)"
      by (metis prod.collapse)
    have s1: "sessions_inv s1" "sid \<in> objects s1" "objects s1 = objects s"
      using sys_write_keeps [OF w] objects_sys_write [OF w] assms(1,2) by (simp_all add: server_inv_def)
    then have "sessions_inv (with_session sid (\<lambda>cs. cs\<lparr>m_pendingMessages := ms\<rparr>) s1)"
      by (intro with_session_keeps) simp_all
    moreover have "s' = snd (trySendPendingMessage P cfg sid s)" using assms(3) by simp
    ultimately show ?thesis
      using s1 assms(1) by (simp add: trySendPendingMessage_def w Cons server_inv_def)
  qed
  with more_net.trySendPendingMessage_same [OF assms(3)] show ?thesis
    by (auto intro!: server_inv_frame [OF assms(1)])
qed

lemma connections_keeps:
  assumes "server_inv s" and "\<And>sid. p = Some sid \<Longrightarrow> sid \<in> objects s"
  shows "server_inv (s\<lparr>m_clientSessions := AList.update fd p (m_clientSessions s)\<rparr>)"
proof -
  have "snd ` set (AList.update fd p m) \<subseteq> insert p (snd ` set m)" for m :: "(int \<times> nat option) list"
    by (induction m) auto
  from this [of "m_clientSessions s"]
  have new: "p = Some sid \<or> referenced sid s"
    if "referenced sid (s\<lparr>m_clientSessions := AList.update fd p (m_clientSessions s)\<rparr>)" for sid
    using that by (auto simp: referenced_def)
  have "sid \<in> objects s"
    if "referenced sid (s\<lparr>m_clientSessions := AList.update fd p (m_clientSessions s)\<rparr>)" for sid
    using new [OF that] assms by (auto simp: server_inv_def)
  with assms(1) show ?thesis by (simp add: server_inv_def)
qed

lemma release_other [simp]: "referenced sid s \<Longrightarrow> sid \<in> objects s \<Longrightarrow> sid \<in> objects (release_objects s)"
proof -
  have one: "sid \<in> objects (release_object k s) \<and> referenced sid (release_object k s)"
    if "sid \<in> objects s \<and> referenced sid s" for k and s :: "'b server_scheme"
    using that
    by (auto simp: release_object_def clientSession_destroy_def close_fd_def sys_close_def objects_def Let_def
        referenced_def)
  assume "referenced sid s" "sid \<in> objects s"
  then show ?thesis
    unfolding release_objects_def
    using fold_keeps [of "\<lambda>s. sid \<in> objects s \<and> referenced sid s" s release_object] one by blast
qed

lemma handleTcpConnection_keeps:
  assumes "server_inv s"
  shows "server_inv (handleTcpConnection P cfg accepted s)"
proof -
  obtain fd addr where acc: "accepted = (fd, addr)" by fastforce
  obtain r errno s1 where ep: "epoll_set fd (EPOLLIN OR EPOLLONESHOT) s = ((r, errno), s1)" by (metis prod.collapse)
  have s1: "server_inv s1" using server_inv_epoll(1) [OF assms, of fd "EPOLLIN OR EPOLLONESHOT"] ep by simp
  have greeted: "server_inv (case sendWelcomeMessage P cfg (next_object s0)
      (Logger_log P cfg INFO ''ClientSession'' m None (release_objects (s0\<lparr>session_store := (session_store s0)(next_object s0 \<mapsto> clientSession_construct fd ip),
         next_object := Suc (next_object s0),
         m_clientSessions := AList.update fd (Some (next_object s0)) (m_clientSessions s0)\<rparr>))) of (_, s) \<Rightarrow> s)"
    if s0: "server_inv s0" for s0 :: "'a server_scheme" and ip m
  proof -
    let ?a = "s0\<lparr>session_store := (session_store s0)(next_object s0 \<mapsto> clientSession_construct fd ip),
         next_object := Suc (next_object s0)\<rparr>"
    let ?b = "?a\<lparr>m_clientSessions := AList.update fd (Some (next_object s0)) (m_clientSessions s0)\<rparr>"
    have new: "next_object s0 \<in> objects ?a" by (simp add: objects_def)
    have b: "server_inv ?b"
      using connections_keeps [OF new_object_keeps [OF s0, of fd ip], of "Some (next_object s0)" fd] new by simp
    have "(fd, Some (next_object s0)) \<in> set (m_clientSessions ?b)"
      by (simp add: update_conv' map_of_SomeD)
    then have "referenced (next_object s0) ?b" by (force simp: referenced_def)
    moreover have "next_object s0 \<in> objects ?b" using new by simp
    ultimately have "next_object s0 \<in> objects (Logger_log P cfg INFO ''ClientSession'' m None (release_objects ?b))"
      by simp
    with sendWelcomeMessage_keeps [OF server_inv_log [OF release_objects_keeps [OF b]]] show ?thesis
      by (auto split: prod.splits)
  qed
  from s1 acc ep assms greeted [of s1] greeted [OF server_inv_log [OF s1, of P cfg ERROR "''Server''"
      "''Error while trying to get client IP.''" None]] show ?thesis
    by (simp add: handleTcpConnection_def Let_def)
qed

lemma session_entry_keeps:
  assumes "server_inv s" and "session_entry fd s = (p, s')"
  shows "server_inv s'" and "p = Some sid \<Longrightarrow> sid \<in> objects s'"
proof -
  show "server_inv s'"
    using assms connections_keeps [OF assms(1), of None fd] by (auto simp: session_entry_def split: option.splits)
  show "sid \<in> objects s'" if p: "p = Some sid"
  proof -
    have "(fd, Some sid) \<in> set (m_clientSessions s)" "s' = s"
      using assms(2) p by (auto simp: session_entry_def dest: map_of_SomeD split: option.splits)
    then have "referenced sid s" by (force simp: referenced_def)
    with assms(1) \<open>s' = s\<close> show ?thesis by (simp add: server_inv_def)
  qed
qed

lemma tcpHandling_keeps: "server_inv s \<Longrightarrow> server_inv (tcpHandling P cfg fd s)"
  by (auto simp: tcpHandling_def task_object_def split: prod.splits option.splits
      dest: session_entry_keeps intro!: enqueue_keeps)

lemma pendingMessages_keeps: "server_inv s \<Longrightarrow> server_inv (pendingMessages P cfg fd s)"
  by (auto simp: pendingMessages_def Let_def split: prod.splits option.splits
      dest: session_entry_keeps trySendPendingMessage_keeps intro!: server_inv_epoll(1))

lemma handle_event_keeps:
  assumes "server_inv s"
  shows "server_inv (handle_event P cfg accepted ev s)"
proof -
  obtain fd events where ev: "ev = (fd, events)" by fastforce
  define s1 where "s1 = (if events AND EPOLLOUT \<noteq> 0 then pendingMessages P cfg fd s else s)"
  have s1: "server_inv s1" using assms by (simp add: s1_def pendingMessages_keeps)
  have "server_inv (enqueue Udp_task s1)" "server_inv (enqueue (Ipc_task k) s1)" for k
    using s1 by (auto intro!: enqueue_keeps simp: task_object_def)
  with s1 show ?thesis
    unfolding handle_event_def ev Let_def prod.case s1_def [symmetric]
    by (simp add: handleTcpConnection_keeps tcpHandling_keeps handleUNIXConnection_def)
qed

lemma epoll_wait_keeps: "server_inv s \<Longrightarrow> server_inv (epoll_wait P cfg r s)"
  by (auto simp: epoll_wait_def split: option.splits)

section \<open>The tasks\<close>

lemma after_server_inv:
  assumes "server_inv s" and "after sessions_inv m" and "after (\<lambda>s'. objects s' = objects s) m"
    and "after (\<lambda>s'. net.more s' = net.more s) m"
  shows "after server_inv m"
  using assms server_inv_frame [of s "snd m"] by (simp add: after_def)

lemma objects_handleMessage:
  assumes "sessions_inv s"
  shows "after (\<lambda>s'. objects s' = objects s) (UdpHandler_handleMessage P cfg received s)"
proof -
  have keepalive: "after (\<lambda>s'. objects s' = objects s) (handleKeepalive P cfg request addr s1)"
    if "sessions_inv s1" "objects s1 = objects s" for request addr and s1 :: "'a net_scheme"
  proof -
    have known: "sid \<in> objects s" if "getSession c s1 = Some sid" for c sid
      using active_objects [of s1 sid] map_of_SomeD [of "m_activeSessions s1" c sid] that
        \<open>sessions_inv s1\<close> \<open>objects s1 = objects s\<close> by (force simp: getSession_def)
    have sent: "objects s3 = objects s" if "sendto m a l s2 = (r, s3)" "objects s2 = objects s"
      for m a l r and s2 s3 :: "'a net_scheme"
      using objects_alert.sendto_same [OF that(1)] that(2) by simp
    have upd: "objects (setUdpAddress sid addr s1) = objects s" if "getSession c s1 = Some sid" for c sid
      using known [OF that] \<open>objects s1 = objects s\<close> by simp
    show ?thesis
      unfolding handleKeepalive_def Let_def
      by (intro after_intros; (simp add: that(2) upd)?; erule sent; simp add: upd)
  qed
  show ?thesis
    unfolding UdpHandler_handleMessage_def Let_def using assms
    by (intro after_intros keepalive) auto
qed

lemma tcp_task_keeps:
  fixes s :: "'z server_scheme"
  assumes "json_api P" and "server_inv s" and "sid \<in> objects s"
  shows "after server_inv (tcp_task P cfg sid fd io s)"
proof -
  obtain r s1 where run: "clientSession_run P cfg sid (t_read io) (t_late io) s = (r, s1)" by fastforce
  have s1: "server_inv s1"
    using clientSession_run_keeps [OF assms(1) _ assms(3) refl, of cfg "t_read io" "t_late io"]
      more_net.clientSession_run_same [of s "net.more s" P cfg sid "t_read io" "t_late io"] run assms(2)
    by (intro server_inv_frame [OF assms(2)]) (simp_all add: server_inv_def after_def)
  have closed: "server_inv (s'\<lparr>m_clientSessions := AList.delete fd (m_clientSessions s')\<rparr>)" if "server_inv s'"
    for s' :: "'z server_scheme"
  proof -
    have "referenced k (s'\<lparr>m_clientSessions := AList.delete fd (m_clientSessions s')\<rparr>) \<Longrightarrow> referenced k s'" for k
      by (auto simp: referenced_def AList.delete_eq)
    with that show ?thesis by (simp add: server_inv_def)
  qed
  have del: "server_inv s2" if "epoll_del fd s' = (x, s2)" "server_inv s'" for x s' and s2 :: "'z server_scheme"
    using server_inv_epoll(2) [OF that(2), of fd] that(1) by simp
  show ?thesis
    unfolding tcp_task_def run using s1
    by (cases r) (auto simp: after_iff Let_def split: prod.splits intro!: closed dest!: del)
qed

lemma exec_task_keeps:
  assumes "json_api P" and "server_inv s" and "\<And>sid. task_object t = Some sid \<Longrightarrow> sid \<in> objects s"
  shows "after server_inv (exec_task P cfg io t s)"
proof (cases t)
  case Udp_task
  have "sessions_inv s" using assms(2) by (simp add: server_inv_def)
  then have "after server_inv (UdpHandler_handleMessage P cfg (t_recv io) s)"
    by (intro after_server_inv [OF assms(2)] objects_handleMessage handleMessage_keeps more_net.handleMessage_same refl)
  with Udp_task show ?thesis by (simp add: exec_task_def)
next
  case (Ipc_task fd)
  have "sessions_inv s" using assms(2) by (simp add: server_inv_def)
  then have "after server_inv (handleConnection P cfg fd (t_read io) s)"
    by (intro after_server_inv [OF assms(2)] objects_alert.handleConnection_same handleConnection_keeps
        more_net.handleConnection_same refl)
  with Ipc_task show ?thesis by (auto simp: exec_task_def intro!: after_seq after_pair)
next
  case (Tcp_task sid fd)
  with tcp_task_keeps [OF assms(1,2)] assms(3) show ?thesis by (simp add: exec_task_def task_object_def)
qed

lemma pool_keeps:
  assumes "server_inv s" and "length (m_threads p) = THREAD_POOL_SIZE"
    and "set (m_taskQueue p @ busy_tasks p) \<subseteq> set (m_taskQueue (m_threadPool s) @ busy_tasks (m_threadPool s))"
  shows "server_inv (s\<lparr>m_threadPool := p\<rparr>)"
proof -
  have "referenced sid (s\<lparr>m_threadPool := p\<rparr>) \<Longrightarrow> referenced sid s" for sid
    using assms(3) by (auto simp: referenced_def)
  with assms(1,2) show ?thesis by (simp add: server_inv_def)
qed

lemma workerThread_tasks:
  assumes "workerThread i p = Some q"
  shows "set (m_taskQueue q @ busy_tasks q) \<subseteq> set (m_taskQueue p @ busy_tasks p)"
proof -
  have busy: "set (busy_tasks q) = set (busy_tasks p) \<union> set (busy_task (m_threads q ! i))"
    using arg_cong [OF workerThread_busy [OF assms], of set_mset] by simp
  from assms show ?thesis
    by (cases rule: workerThread_cases) (use busy in \<open>auto simp: busy_task_def\<close>)
qed

lemma task_end_tasks:
  assumes "task_end i p = Some q"
  shows "set (m_taskQueue q @ busy_tasks q) \<subseteq> set (m_taskQueue p @ busy_tasks p)"
proof -
  obtain t where t: "m_threads p ! i = Busy t" using assms by (auto simp: task_end_def split: if_splits worker.splits)
  have "set (busy_tasks q) \<subseteq> set (busy_tasks p)"
    using arg_cong [OF task_end_busy [OF assms t], of set_mset] by auto
  with task_end_queue [OF assms] show ?thesis by auto
qed

lemma run_task_keeps:
  assumes "json_api P" and "server_inv s" and "\<And>sid. task_object t = Some sid \<Longrightarrow> sid \<in> objects s"
  shows "server_inv (run_task P cfg i io t s)"
proof -
  obtain r s1 where ex: "exec_task P cfg io t s = (r, s1)" by fastforce
  have s1: "server_inv s1" using exec_task_keeps [of P s t cfg io] assms ex by (simp add: after_def)
  have "server_inv (release_objects (s1\<lparr>m_threadPool := p\<rparr>))" if "task_end i (m_threadPool s1) = Some p" for p
    using release_objects_keeps [OF pool_keeps [OF s1]] length_threads_moves(2) [OF that] task_end_tasks [OF that] s1
    by (simp add: server_inv_def)
  with ex s1 show ?thesis by (auto simp: run_task_def split: sum.splits option.splits)
qed

lemma busy_object:
  assumes "server_inv s" and "i < length (m_threads (m_threadPool s))" and "m_threads (m_threadPool s) ! i = Busy t"
    and "task_object t = Some sid"
  shows "sid \<in> objects s"
proof -
  have "t \<in> set (busy_tasks (m_threadPool s))"
    using nth_mem [OF assms(2)] assms(3) by (force simp: busy_tasks_def busy_task_def)
  with assms(4) have "referenced sid s" by (force simp: referenced_def)
  with assms(1) show ?thesis by (simp add: server_inv_def)
qed

section \<open>Reachable states\<close>

lemma server_step_keeps:
  assumes "server_step P cfg s s'" and "json_api P" and "server_inv s"
  shows "server_inv s'"
  using assms
proof (induction rule: server_step.induct)
  case (worker s i p)
  then show ?case
    using workerThread_tasks [OF worker(2)] length_threads_moves(1) [OF worker(2)]
    by (intro pool_keeps) (simp_all add: server_inv_def)
next
  case (task s i t io)
  then show ?case by (intro run_task_keeps) (auto dest: busy_object)
qed (simp_all add: epoll_wait_keeps handle_event_keeps)

lemma server_steps_keep:
  assumes "(server_step P cfg)\<^sup>*\<^sup>* s s'" and "json_api P" and "server_inv s"
  shows "server_inv s'"
  using assms(1) by (induction rule: rtranclp_induct) (use assms(2,3) in \<open>auto intro: server_step_keeps\<close>)

section \<open>Start\<close>

lemma construct_inv:
  assumes "storage_ok s"
  shows "server_inv (Server_members s)" (is "server_inv ?s")
proof -
  have ok: "storage_ok ?s"
    using assms by (simp add: Server_members_def storage_ok_def users_ok_def inventory_ok_def logs_ok_def user_known_def
        cong: option.case_cong)
  have "cache_agrees (stock_of ?s) Map.empty {}" by (simp add: cache_agrees_def)
  with ok have "sessions_inv ?s"
    by (simp add: Server_members_def sessions_inv_def inventory_inv_def locks_agree_def registry_ok_def)
  moreover have "busy_tasks (ThreadPool_construct n :: task pool) = []" for n
    by (simp add: busy_tasks_def ThreadPool_construct_def busy_task_def concat_eq_Nil_conv)
  ultimately show ?thesis
    by (simp add: Server_members_def server_inv_def referenced_def objects_def ThreadPool_construct_def)
qed

lemma bind_first_keeps: "server_inv s \<Longrightarrow> after server_inv (bind_first cs s)"
  by (induction cs arbitrary: s) (auto simp: after_iff)

lemma after_epoll_set:
  "server_inv s \<Longrightarrow> (\<And>r s'. server_inv s' \<Longrightarrow> after server_inv (f r s')) \<Longrightarrow>
     after server_inv (case epoll_set fd ev s of (r, s') \<Rightarrow> f r s')"
  using server_inv_epoll(1) [of s fd ev] by (cases "epoll_set fd ev s") simp

lemma setConfig_keeps:
  "server_inv s \<Longrightarrow> after server_inv (setTCPConfig P cfg env s)"
  "server_inv s \<Longrightarrow> after server_inv (setUDPConfig P cfg env s)"
  "server_inv s \<Longrightarrow> after server_inv (setUNIXconfig P cfg env s)"
  unfolding setTCPConfig_def setUDPConfig_def setUNIXconfig_def Let_def
  by (intro after_if after_pair after_seq bind_first_keeps after_epoll_set; auto simp: after_iff split: prod.splits)+

lemma admin_keeps:
  assumes "server_inv s"
  shows "after server_inv (userExists h s)" and "after server_inv (createUser P h p s)"
proof -
  have inv: "sessions_inv s" using assms by (simp add: server_inv_def)
  have "sessions_inv (s\<lparr>db_faults := fs\<rparr>)" for fs
    by (rule sessions_inv_frame [OF inv])
      (use inv in \<open>simp_all add: sessions_inv_def inventory_inv_def session_view_def users_grow_def\<close>)
  then have "after sessions_inv (userExists h s)"
    using query_frame(3) [of h s] by (auto simp: after_def)
  then show "after server_inv (userExists h s)"
    by (intro after_server_inv [OF assms] objects_field.user_op_same more_net.user_op_same refl)
  show "after server_inv (createUser P h p s)"
    using inv by (intro after_server_inv [OF assms] sessions_after_createUser objects_field.user_op_same
        more_net.user_op_same refl)
qed

lemma setupServer_keeps: "server_inv s \<Longrightarrow> after server_inv (setupServer P cfg env s)"
  unfolding setupServer_def Let_def
  by (intro after_if after_pair after_seq setConfig_keeps admin_keeps) simp_all

text \<open>After the set-up the three sockets are registered and there is an administrator.\<close>

lemma map_of_update [simp]: "map_of (AList.update k v m) = (map_of m)(k \<mapsto> v)"
  by (simp add: update_conv')

lemma epoll_set_ok:
  assumes "epoll_set fd ev s = ((r, errno), s')" and "\<not> r < 0"
  shows "map_of (epoll_interest s') = (map_of (epoll_interest s))(fd \<mapsto> ev) \<and>
    m_serverTCPFD s' = m_serverTCPFD s \<and> m_serverUDPFD s' = m_serverUDPFD s \<and>
    m_serverUnixFD s' = m_serverUnixFD s"
  using assms by (auto simp: epoll_set_def split: list.splits option.splits)

lemma setTCPConfig_armed:
  assumes "setTCPConfig P cfg env s = (Inr (), s')"
  shows "armed_in (m_serverTCPFD s') s'"
  using assms unfolding setTCPConfig_def armed_in_def
  by (auto split: st_splits if_splits prod.splits dest!: epoll_set_ok)

lemma setUDPConfig_armed:
  assumes "setUDPConfig P cfg env s = (Inr (), s')"
  shows "armed_in (m_serverUDPFD s') s'" and "m_serverTCPFD s' = m_serverTCPFD s"
    and "armed_in fd s \<Longrightarrow> armed_in fd s'"
  using assms unfolding setUDPConfig_def armed_in_def Let_def
  by (auto split: if_splits prod.splits dest!: epoll_set_ok)

lemma setUNIXconfig_armed:
  assumes "setUNIXconfig P cfg env s = (Inr (), s')"
  shows "armed_in (m_serverUnixFD s') s'" and "m_serverTCPFD s' = m_serverTCPFD s"
    and "m_serverUDPFD s' = m_serverUDPFD s" and "armed_in fd s \<Longrightarrow> armed_in fd s'"
  using assms unfolding setUNIXconfig_def armed_in_def Let_def
  by (auto split: if_splits prod.splits dest!: epoll_set_ok)

lemma armed_more:
  fixes s s' :: "'z server_scheme"
  assumes "net.more s' = net.more s"
  shows "armed_in fd s' = armed_in fd s"
  unfolding armed_in_def server_fields_more(4) [OF assms] ..

text \<open>The administrator: looked up, and created when missing.\<close>

lemma userExists_known:
  assumes "userExists h s = (Inr b, s')"
  shows "b \<Longrightarrow> user_known s' h"
proof -
  assume b
  obtain fs where "s' = s\<lparr>db_faults := fs\<rparr>" using query_frame(3) [of h s] assms by auto
  moreover have "filter (\<lambda>r. u_hostname r = h) (db_users s) \<noteq> []"
    using assms \<open>b\<close> unfolding userExists_def by (fastforce split: st_splits elim!: sql_onE)
  ultimately show ?thesis by (auto simp: user_known_def filter_empty_conv)
qed

lemma createUser_known: "createUser P h p s = (Inr b, s') \<Longrightarrow> user_known s' h"
  by (erule createUserE) (auto simp: user_known_def)

text \<open>What the set-up leaves when it returns.\<close>

lemma setupServer_ready:
  assumes "setupServer P cfg env s = (Inr (), s')"
  shows "user_known s' ''admin'' \<and> armed_in (m_serverTCPFD s') s' \<and> armed_in (m_serverUDPFD s') s' \<and>
    armed_in (m_serverUnixFD s') s'"
proof -
  obtain s1 s2 s3 b s4 where t: "setTCPConfig P cfg env (s\<lparr>m_epollFD := e_epoll env\<rparr>) = (Inr (), s1)"
      and u: "setUDPConfig P cfg env s1 = (Inr (), s2)" and x: "setUNIXconfig P cfg env s2 = (Inr (), s3)"
      and e: "userExists ''admin'' s3 = (Inr b, s4)"
      and last: "b \<and> s' = s4 \<or> (\<exists>r s5. createUser P ''admin'' ''admin'' s4 = (Inr r, s5) \<and>
        net.more s' = net.more s5 \<and> user_known s' = user_known s5)"
    using assms unfolding setupServer_def Let_def by (auto split: st_splits if_splits)
  have s4: "net.more s4 = net.more s3"
    using more_net.user_op_same(1) [of s3 "net.more s3" "''admin''"] e by (simp add: after_def)
  have more: "net.more s' = net.more s3"
    using last more_net.createUser_same [of s4 "net.more s4" P "''admin''" "''admin''"] s4 by (auto simp: after_def)
  have "user_known s' ''admin''"
    using last userExists_known [OF e] by (auto dest: createUser_known)
  moreover have "armed_in (m_serverTCPFD s3) s3" "armed_in (m_serverUDPFD s3) s3" "armed_in (m_serverUnixFD s3) s3"
    using setTCPConfig_armed [OF t] setUDPConfig_armed [OF u] setUNIXconfig_armed [OF x] by simp_all
  ultimately show ?thesis
    unfolding armed_more [OF more] server_fields_more(5,6,7) [OF more] by simp
qed

lemma startup_cases:
  assumes "startup P Y args env_port c0 env s = (Inr cfg, s')"
  obtains s1 s2 s3 s4 where "Config_construct Y args env_port c0 = Inr cfg"
    and "Storage_construct (TrafficReporter_construct s) = (Inr (), s1)" and "initializeSchema s1 = (Inr (), s2)"
    and "s3 = Logger_log P cfg INFO ''Main'' ''Core services initialized.'' None
      (snd (openLogFile P (m_logPath cfg) (s2\<lparr>m_logFile := None, m_fileEnabled := False\<rparr>)))"
    and "Server_construct P cfg env s3 = (Inr (), s4)"
    and "s' = Logger_log P cfg INFO ''Main'' ''Server successfully started. Running loop...'' None s4"
  using assms unfolding startup_def Let_def by (auto split: st_splits prod.splits)

lemma exposer_frame:
  "storage_ok (s\<lparr>m_exposer := e\<rparr>) = storage_ok s"
  "armed_in fd (s\<lparr>m_exposer := e\<rparr>) = armed_in fd s"
  by (simp_all add: storage_ok_def users_ok_def inventory_ok_def logs_ok_def user_known_def armed_in_def cong: option.case_cong)

lemma exposer_keeps:
  assumes "server_inv s"
  shows "server_inv (s\<lparr>m_exposer := e\<rparr>)"
proof -
  have "sessions_inv s" using assms by (simp add: server_inv_def)
  then have "sessions_inv (s\<lparr>m_exposer := e\<rparr>)"
    by (rule sessions_inv_frame)
      (use \<open>sessions_inv s\<close> in \<open>simp_all add: sessions_inv_def inventory_inv_def exposer_frame stock_traffic.F_exposer
        grow_traffic.F_exposer session_view_def\<close>)
  with assms show ?thesis by (rule server_inv_frame) (simp_all add: objects_def)
qed

lemma Server_construct_ready:
  assumes "Server_construct P cfg env s = (Inr (), s')" and "storage_ok s"
  shows "server_inv s' \<and> user_known s' ''admin'' \<and> armed_in (m_serverTCPFD s') s' \<and>
    armed_in (m_serverUDPFD s') s' \<and> armed_in (m_serverUnixFD s') s'"
proof -
  obtain s1 where "setupServer P cfg env (Server_members s) = (Inr (), s1)"
    and "s' = snd (startPrometheusExposer (e_exposer env) (m_metricHostPort cfg) s1)"
    using assms(1) unfolding Server_construct_def by (auto split: st_splits)
  with setupServer_keeps [OF construct_inv [OF assms(2)], of P cfg env] setupServer_ready show ?thesis
    by (fastforce simp: after_def startPrometheusExposer_def exposer_keeps exposer_frame known_traffic.F_exposer)
qed

lemma startup_ready_state:
  assumes "startup P Y args env_port c0 env s = (Inr cfg, s')" and "storage_ok (s\<lparr>db_foreign_keys := True\<rparr>)"
  shows "server_inv s' \<and> user_known s' ''admin'' \<and> armed_in (m_serverTCPFD s') s' \<and>
    armed_in (m_serverUDPFD s') s' \<and> armed_in (m_serverUnixFD s') s'"
  using assms(1)
proof (cases rule: startup_cases)
  case (1 s1 s2 s3 s4)
  let ?open = "openLogFile P (m_logPath cfg) (s2\<lparr>m_logFile := None, m_fileEnabled := False\<rparr>)"
  have "storage_ok ((TrafficReporter_construct s)\<lparr>db_foreign_keys := True\<rparr>)"
    using assms(2) by (simp add: TrafficReporter_construct_def storage_ok_def users_ok_def inventory_ok_def logs_ok_def user_known_def
        cong: option.case_cong)
  then have "storage_ok s2" using opened_database_ok [OF 1(2,3)] by simp
  then have "storage_ok (snd ?open)"
    using ok_file.openLogFile_same [of P "m_logPath cfg" "s2\<lparr>m_logFile := None, m_fileEnabled := False\<rparr>"]
    by (cases ?open) (simp add: ok_file.F_fields)
  then have "storage_ok s3" by (simp add: 1(4) Logger_log_keeps)
  then show ?thesis using Server_construct_ready [OF 1(5)] by (simp add: 1(6) armed_in_def)
qed

section \<open>Exceptions that leave a task\<close>

lemma handleKeepalive_returns:
  assumes "json_api P"
  shows "\<exists>s'. handleKeepalive P cfg request addr s = (Inr (), s')"
proof (cases "json_str_field P request ''clientId''")
  case (Inl e)
  with json_api.str_field_throws [OF assms this] show ?thesis by (simp add: handleKeepalive_def)
next
  case (Inr c)
  then show ?thesis
    by (auto simp: handleKeepalive_def Let_def split: option.splits prod.splits)
qed

lemma handleMessage_throws:
  assumes "json_api P" and "UdpHandler_handleMessage P cfg received s = (Inl e, s')"
  shows "is_json_exception e"
proof -
  obtain datagram addr where rec: "received = Inr (datagram, addr)"
    using assms(2) by (auto simp: UdpHandler_handleMessage_def split: sum.splits if_splits)
  obtain j where j: "json_parse P (c_string (take (BUFFER_SIZE_UDP - 1) datagram)) = Some j"
    using assms(2) rec by (auto simp: UdpHandler_handleMessage_def Let_def split: option.splits)
  have "handleKeepalive P cfg j addr s1 \<noteq> (Inl e, s')" for s1
    using handleKeepalive_returns [OF assms(1), of cfg j addr s1] by auto
  then have "json_value P j ''command'' ''unknown'' = Inl e"
    using assms(2) rec j by (auto simp: UdpHandler_handleMessage_def Let_def split: st_splits if_splits)
  then show ?thesis by (rule json_api.value_throws [OF assms(1)])
qed

lemma setClientLockStatus_throws:
  "setClientLockStatus h b s = (Inl e, s') \<Longrightarrow> \<exists>x. e = SqliteException x"
  by (erule setClientLockStatusE) auto

lemma processAlert_throws:
  assumes "json_api P" and "processAlert P cfg m s = (Inl e, s')"
  shows "\<exists>x. e = SqliteException x"
proof -
  have lock: "lockClient P cfg c s1 = (Inl e', s2) \<Longrightarrow> \<exists>x. e' = SqliteException x" for c s1 e' s2
    unfolding lockClient_def by (auto split: st_splits if_splits dest: setClientLockStatus_throws simp: Let_def)
  have parse: "json_parse_throwing P m = Inl e' \<Longrightarrow> is_json_exception e'" for e'
    by (auto simp: json_parse_throwing_def split: option.splits)
  show ?thesis
    using assms(2) unfolding processAlert_def Let_def
    by (auto split: st_splits if_splits dest: lock parse json_api.str_field_throws [OF assms(1)] json_api.put_throws [OF assms(1)])
qed

lemma handleConnection_throws:
  assumes "json_api P" and "handleConnection P cfg fd available s = (Inl e, s')"
  shows "\<exists>x. e = SqliteException x"
  using assms(2) processAlert_throws [OF assms(1)] unfolding handleConnection_def Let_def
  by (auto split: st_splits sum.splits if_splits)

lemma process_login_returns: "\<exists>r s'. process_login P cfg sid request s = (Inr r, s')"
  unfolding process_login_def Let_def
  by (auto split: catch_st_split)

lemma processMessage_throws:
  assumes "json_api P" and "processMessage P cfg sid t s = (Inl e, s')"
  shows "is_json_exception e \<and> \<not> m_isAuthenticated (the_session sid s)"
proof -
  obtain request where r: "json_parse P t = Some request"
    using assms(2) by (auto simp: processMessage_def Let_def split: option.splits)
  obtain j where j: "createLoggableRequest P request = Inr j" using loggable_request [OF assms(1)] by blast
  have login: "process_login P cfg sid request s1 \<noteq> (Inl e, s')" for s1
    using process_login_returns [of P cfg sid request s1] by auto
  have "json_value P request ''command'' [] = Inl e \<and> \<not> m_isAuthenticated (the_session sid s)"
    using assms(2) r j login by (auto simp: processMessage_def Let_def split: st_splits if_splits)
  with json_api.value_throws [OF assms(1)] show ?thesis by blast
qed

lemma tcp_task_throws:
  assumes "json_api P" and "tcp_task P cfg sid fd io s = (Inl e, s')"
  shows "is_json_exception e \<and> \<not> m_isAuthenticated (the_session sid s)"
proof -
  have "clientSession_run P cfg sid (t_read io) (t_late io) s = (Inl e, s')"
    using assms(2) unfolding tcp_task_def Let_def by (auto split: st_splits if_splits prod.splits)
  then obtain t where "processMessage P cfg sid t s = (Inl e, s')"
    unfolding clientSession_run_def Let_def by (auto split: st_splits if_splits prod.splits sum.splits)
  then show ?thesis by (rule processMessage_throws [OF assms(1)])
qed

section \<open>Closing descriptors\<close>

lemma fd_closes_log [simp]: "fd_closes (Logger_log P cfg l c m ci s) = fd_closes (s :: 'z net_scheme)"
  by (rule closes_field.Logger_log_same)

lemma close_fd_closes [simp]: "fd_closes (close_fd fd s) = fd_closes s @ [fd]"
  by (simp add: close_fd_def sys_close_def)

lemma epoll_del_frame:
  "epoll_del fd s = (r, s') \<Longrightarrow> session_store s' = session_store s \<and> m_activeSessions s' = m_activeSessions s \<and>
     m_clientSessions s' = m_clientSessions s \<and> next_object s' = next_object s \<and>
     m_threadPool s' = m_threadPool s \<and> fd_closes s' = fd_closes s"
  by (auto simp: epoll_del_def split: list.splits option.splits)

lemma tcp_task_close:
  assumes "clientSession_run P cfg sid (t_read io) (t_late io) s = (Inr False, s1)"
  shows "\<exists>s'. tcp_task P cfg sid fd io s = (Inr (), s') \<and> session_store s' = session_store s1 \<and>
    m_activeSessions s' = m_activeSessions s1 \<and> m_clientSessions s' = AList.delete fd (m_clientSessions s1) \<and>
    next_object s' = next_object s1 \<and> m_threadPool s' = m_threadPool s1 \<and> fd_closes s' = fd_closes s1 @ [fd] \<and>
    map_of (epoll_interest s') fd = None"
proof -
  let ?s = "Logger_log P cfg INFO ''Server'' (strcat [''Closing client connection from FD: '', to_string fd]) None s1"
  obtain r errno s2 where del: "epoll_del fd ?s = ((r, errno), s2)" by (metis prod.collapse)
  from epoll_del_frame [OF del] show ?thesis
    using assms by (simp add: tcp_task_def del close_fd_def sys_close_def delete_conv' Let_def)
qed

lemma release_closes: "\<exists>fds. fd_closes (release_object sid s) = fd_closes s @ fds"
  by (auto simp: release_object_def clientSession_destroy_def Let_def)

lemma fold_release_closes: "\<exists>fds. fd_closes (fold release_object sids s) = fd_closes s @ fds"
proof (induction sids arbitrary: s)
  case (Cons sid sids)
  obtain a where "fd_closes (release_object sid s) = fd_closes s @ a" using release_closes by blast
  moreover obtain b where "fd_closes (fold release_object sids (release_object sid s)) = fd_closes (release_object sid s) @ b"
    using Cons by blast
  ultimately show ?case by simp
qed simp

lemma release_other_object:
  "k \<noteq> sid \<Longrightarrow> session_store (release_object k s) sid = session_store s sid \<and>
     referenced sid (release_object k s) = referenced sid s"
  by (auto simp: release_object_def clientSession_destroy_def close_fd_def sys_close_def Let_def referenced_def)

lemma fold_release_object:
  assumes "sid \<in> set sids" and "session_store s sid = Some cs" and "\<not> referenced sid s" and "m_clientSocket cs \<noteq> -1"
  shows "\<exists>fds. fd_closes (fold release_object sids s) = fd_closes s @ fds \<and> m_clientSocket cs \<in> set fds"
  using assms
proof (induction sids arbitrary: s)
  case (Cons k sids)
  obtain a where a: "fd_closes (release_object k s) = fd_closes s @ a" using release_closes by blast
  show ?case
  proof (cases "k = sid")
    case True
    with Cons.prems have "fd_closes (release_object k s) = fd_closes s @ [m_clientSocket cs]"
      by (simp add: release_object_def clientSession_destroy_def the_session_def Let_def)
    moreover obtain b where "fd_closes (fold release_object sids (release_object k s)) = fd_closes (release_object k s) @ b"
      using fold_release_closes by blast
    ultimately show ?thesis by simp
  next
    case False
    with Cons.prems release_other_object [OF False, of s] Cons.IH [of "release_object k s"] a show ?thesis by auto
  qed
qed simp

section \<open>Properties\<close>

text \<open>
  C24. A server that starts is ready: when the command line was accepted and the start
  returned, the configuration is usable, there is a user "admin", the TCP, the UDP and the
  UNIX socket are registered for reading, and the invariant of the server holds.
\<close>

theorem startup_ready:
  assumes "validateArguments exists args" and "startup P Y args env_port c0 env s = (Inr cfg, s')"
    and "storage_ok (s\<lparr>db_foreign_keys := True\<rparr>)"
  shows "config_ok cfg \<and> user_known s' ''admin'' \<and> server_inv s' \<and> armed_in (m_serverTCPFD s') s' \<and>
    armed_in (m_serverUDPFD s') s' \<and> armed_in (m_serverUnixFD s') s'"
proof -
  obtain "Config_construct Y args env_port c0 = Inr cfg" using assms(2) by (cases rule: startup_cases)
  with Config_construct_ok [OF assms(1)] startup_ready_state [OF assms(2,3)] show ?thesis by blast
qed

text \<open>
  C25. What can end the process: the only exceptions that leave a task are those of the
  JSON library for the command of a datagram or of a client that has not logged in, and
  those of the database for an alert.  A client that has logged in cannot cause one.
\<close>

theorem uncaught_exceptions:
  assumes "json_api P" and "exec_task P cfg io t s = (Inl e, s')"
  shows "(case t of
      Udp_task \<Rightarrow> is_json_exception e
    | Ipc_task _ \<Rightarrow> \<exists>x. e = SqliteException x
    | Tcp_task sid _ \<Rightarrow> is_json_exception e \<and> \<not> m_isAuthenticated (the_session sid s))"
proof (cases t)
  case Udp_task
  with assms(2) handleMessage_throws [OF assms(1)] show ?thesis by (auto simp: exec_task_def)
next
  case (Ipc_task fd)
  with assms(2) handleConnection_throws [OF assms(1)] show ?thesis
    by (auto simp: exec_task_def split: st_splits)
next
  case (Tcp_task sid fd)
  with assms(2) tcp_task_throws [OF assms(1), of cfg sid fd io s e s'] show ?thesis by (auto simp: exec_task_def)
qed


text \<open>
  The same for the first message of a TCP client: text that is JSON but whose value has
  no string under "command" ends the process before any login.
\<close>

theorem malformed_request_terminates:
  assumes "json_api P" and "\<not> m_isAuthenticated (the_session sid s)" and "bytes \<noteq> []"
    and "json_parse P (received_text bytes) = Some request" and "json_value P request ''command'' [] = Inl e"
    and "t_read io = Inr bytes"
  shows "terminated (run_task P cfg i io (Tcp_task sid fd) s)"
proof -
  obtain j where "createLoggableRequest P request = Inr j" using loggable_request [OF assms(1)] by blast
  with assms show ?thesis
    by (simp add: run_task_def exec_task_def tcp_task_def clientSession_run_def processMessage_def Let_def)
qed

text \<open>
  A connection that ends is forgotten: when the task of a session asks for the end of
  the connection, its descriptor is closed, is no longer in the interest list of epoll and
  has no session any more, whatever epoll\_ctl answers.
\<close>

theorem closed_connection_forgotten:
  assumes "clientSession_run P cfg sid (t_read io) (t_late io) s = (Inr False, s1)"
  shows "\<exists>s'. tcp_task P cfg sid fd io s = (Inr (), s') \<and> fd \<in> set (fd_closes s') \<and>
    map_of (epoll_interest s') fd = None \<and> map_of (m_clientSessions s') fd = None"
  using tcp_task_close [OF assms, of fd] by (auto simp: delete_conv')



text \<open>
  The end of the server closes what it opened: after the destructor the listening
  sockets and the epoll descriptor have been closed, the UNIX socket's path has been
  unlinked and the log file is closed.
\<close>

theorem shutdown_closes_sockets:
  "{m_serverTCPFD s, m_serverUDPFD s, m_serverUnixFD s} - {-1} \<subseteq> set (fd_closes (Server_destroy cfg s)) \<and>
   {fd. fd = m_epollFD s \<and> 0 \<le> fd} \<subseteq> set (fd_closes (Server_destroy cfg s)) \<and>
   \<not> isLogFileOpen (Server_destroy cfg s)"
proof -
  define s0 where "s0 = release_objects (s\<lparr>m_clientSessions := []\<rparr>)"
  have one: "m_serverTCPFD (release_object k s) = m_serverTCPFD s \<and> m_serverUDPFD (release_object k s) = m_serverUDPFD s \<and>
      m_serverUnixFD (release_object k s) = m_serverUnixFD s \<and> m_epollFD (release_object k s) = m_epollFD s"
    for k and s :: "'a server_scheme"
    by (simp add: release_object_def clientSession_destroy_def close_fd_def sys_close_def Let_def)
  have s0: "m_serverTCPFD s0 = m_serverTCPFD s \<and> m_serverUDPFD s0 = m_serverUDPFD s \<and>
      m_serverUnixFD s0 = m_serverUnixFD s \<and> m_epollFD s0 = m_epollFD s"
    unfolding s0_def release_objects_def by (rule fold_keeps) (use one in auto)
  show ?thesis
    unfolding Server_destroy_def s0_def [symmetric] Let_def
    using s0 by (auto simp: closeLogFile_def isLogFileOpen_def close_fd_def sys_close_def)
qed

end
