(* ===== verification/Samples.thy ===== *)
theory Samples
  imports Reference_Platform ServerSteps
begin

text \<open>
  A concrete server: a configuration, a YAML library, answers of the kernel and a state with
  three users, one of them logged in, one that has logged out, and a connection that has
  not logged in yet.  The properties are applied to it.
\<close>

definition sample_config :: config where
  "sample_config =
     \<lparr>m_maxLogSize = 10, m_maxClients = 1000, m_maxUnixConnections = 1000, m_blockTimeSeconds = 900,
      m_tcpPort = 8888, m_udpPort = 8888, m_queueSize = 50, m_metricHostPort = ''0.0.0.0:8086'',
      m_logPath = ''./var/logs/server.log'', m_dbPath = ''./var/lib/my_db.sqlite3'',
      m_secretPhrase = ''we do not assembly'', m_unixSocketPath = ''/tmp/server_ipc.sock''\<rparr>"

definition sample_user :: "string \<Rightarrow> user_row" where
  "sample_user h =
     \<lparr>u_hostname = h, u_password_hash = CHR ''$'' # h, u_failed_attempts = 0, u_last_failed_timestamp = 0,
      u_is_locked = 0\<rparr>"

definition sample_address :: sockaddr where
  "sample_address = \<lparr>ss_family = 2, ss_data = []\<rparr>"

definition sample_state :: server where
  "sample_state =
     \<lparr>db_tables = {UsersTable, InventoryTable, LogsTable}, db_foreign_keys = True,
      db_users = [sample_user ''admin'', sample_user ''alice'', sample_user ''bob''],
      db_inventory = [], db_logs = [], db_next_log_id = 1, db_faults = [], bcrypt_draws = 3,
      clock_now = 1000, err_stream = [], m_logFile = None, m_fileEnabled = False, fs_files = Map.empty,
      fs_faults = [], terminated = False,
      m_message_counters = Map.empty, m_error_counters = Map.empty, m_reconnection_counters = Map.empty, m_exposer = None,
      m_inventories = Map.empty, m_fullyCachedClients = {},
      session_store = [0 \<mapsto> \<lparr>m_clientSocket = 7, m_clientID = ''alice'', m_isAuthenticated = True,
          m_clientIP = ''::1'', m_udpAddress = Some sample_address, m_pendingMessages = [''hello'']\<rparr>,
        1 \<mapsto> clientSession_construct 8 ''::1''],
      m_activeSessions = [(''alice'', 0)], m_lockedClients = {}, m_connectedUsers = {''alice'', ''bob''},
      m_offlineUsers = {''bob''},
      m_eventQueueMap = [''alice'' \<mapsto> [\<lparr>ev_type = NOTIFICATION, ev_message = ''wake up''\<rparr>]], undefined_behaviour = False,
      udp_out = [], udp_send_faults = [], tcp_out = [], write_results = [], fd_closes = [],
      m_serverTCPFD = 3, m_serverUDPFD = 4, m_serverUnixFD = 5, m_epollFD = 6,
      m_clientSessions = [(7, Some 0), (8, Some 1)],
      m_threadPool = ThreadPool_construct THREAD_POOL_SIZE, g_shutdown_flag = False,
      epoll_interest = [], epoll_results = [], pending_events = [], next_object = 2,
      unix_address = None, unlinked = []\<rparr>"

text \<open>The same after three failed logins of one user, in the year 2038.\<close>

definition sample_2038 :: server where
  "sample_2038 = sample_state\<lparr>clock_now := 2 ^ 31,
     db_users := [(sample_user ''alice'')\<lparr>u_failed_attempts := 3, u_last_failed_timestamp := 2 ^ 31\<rparr>]\<rparr>"

text \<open>The same after an alert that names the user.\<close>

definition sample_locked :: server where
  "sample_locked = sample_state\<lparr>db_users :=
     [sample_user ''admin'', (sample_user ''alice'')\<lparr>u_is_locked := 1\<rparr>, sample_user ''bob'']\<rparr>"

text \<open>A server that has one connection left, whose task is running.\<close>

definition sample_single :: server where
  "sample_single = sample_state\<lparr>session_store := [0 \<mapsto> clientSession_construct 8 ''::1''],
     m_clientSessions := [(8, Some 0)], m_activeSessions := [],
     m_threadPool := \<lparr>m_threads = [Busy (Tcp_task 0 8)], m_taskQueue = [], m_running = True\<rparr>\<rparr>"

text \<open>A state in which the set-up of the sockets succeeds.\<close>

definition start_ok :: "'z server_scheme \<Rightarrow> bool" where
  "start_ok s \<longleftrightarrow> storage_ready s \<and> user_known s ''admin'' \<and> epoll_results s = []"

text \<open>A YAML library that holds one file; a node is the path to it.\<close>

definition sample_yaml :: "string list yaml_lib" where
  "sample_yaml =
     \<lparr>yaml_load = (\<lambda>_. Inr []), yaml_get = (\<lambda>n k. Inr (Some (n @ [k]))), yaml_is_scalar = (\<lambda>_. True),
      yaml_as_int = (\<lambda>n. if last n = ''port'' then Inr 8888 else Inr 50),
      yaml_as_string = (\<lambda>n. Inr (last n))\<rparr>"

definition sample_env :: setup_env where
  "sample_env =
     \<lparr>e_epoll = 6, e_tcp_gai = 0, e_gai_strerror = [],
      e_candidates = [\<lparr>c_socket = 3, c_v6only = 0, c_reuse = 0, c_errno = 0, c_bind = 0\<rparr>], e_tcp_listen = 0,
      e_udp_gai = 0, e_udp_socket = 4, e_udp_bind = 0, e_unix_socket = 5, e_unix_bind = 0, e_unix_listen = 0,
      e_exposer = True\<rparr>"

text \<open>Requests, as the texts of the table that parse.\<close>

definition login_request :: jvalue where
  "login_request = JObject [(''command'', JString ''login''),
     (''payload'', JObject [(''hostname'', JString ''alice''), (''password'', JString ''alice'')])]"

definition sample_texts :: "(string \<times> jvalue) list" where
  "sample_texts =
     [(''login'', login_request),
      (''alert'', JObject [(''type'', JString ''infection''), (''message'', JString ''run''), (''clientId'', JString ''alice'')]),
      (''[]'', JArray [])]"

definition update_request :: jvalue where
  "update_request = JObject [(''command'', JString ''update_stock''),
     (''payload'', JObject [(''category'', JString ''food''), (''item'', JString ''meat''), (''quantity'', JInt 5)])]"

definition unlock_request :: jvalue where
  "unlock_request = JObject [(''command'', JString ''unlock_client''),
     (''payload'', JObject [(''client_to_unlock'', JString ''alice''), (''secret_phrase'', JString ''we do not assembly'')])]"

abbreviation sample_platform :: "jvalue platform" where
  "sample_platform \<equiv> reference_platform sample_texts"

section \<open>The sample satisfies the invariants\<close>

lemma sample_user_sel [simp]:
  "u_hostname (sample_user h) = h" "u_password_hash (sample_user h) = CHR ''$'' # h"
  "u_failed_attempts (sample_user h) = 0" "u_last_failed_timestamp (sample_user h) = 0" "u_is_locked (sample_user h) = 0"
  by (simp_all add: sample_user_def)

lemma sample_fields [simp]:
  "db_users sample_state = [sample_user ''admin'', sample_user ''alice'', sample_user ''bob'']"
  "db_faults sample_state = []" "clock_now sample_state = 1000" "terminated sample_state = False"
  "udp_send_faults sample_state = []" "udp_out sample_state = []" "write_results sample_state = []"
  "m_serverTCPFD sample_state = 3" "m_serverUDPFD sample_state = 4" "m_serverUnixFD sample_state = 5"
  "epoll_results sample_state = []" "m_clientSessions sample_state = [(7, Some 0), (8, Some 1)]"
  "m_activeSessions sample_state = [(''alice'', 0)]" "db_inventory sample_state = []" "db_logs sample_state = []"
  "m_inventories sample_state = Map.empty" "m_fullyCachedClients sample_state = {}" "m_lockedClients sample_state = {}"
  "m_threadPool sample_state = ThreadPool_construct THREAD_POOL_SIZE" "next_object sample_state = 2"
  "m_eventQueueMap sample_state = [''alice'' \<mapsto> [\<lparr>ev_type = NOTIFICATION, ev_message = ''wake up''\<rparr>]]"
  by (simp_all add: sample_state_def)

lemma sample_sessions [simp]:
  "the_session 0 sample_state = \<lparr>m_clientSocket = 7, m_clientID = ''alice'', m_isAuthenticated = True,
     m_clientIP = ''::1'', m_udpAddress = Some sample_address, m_pendingMessages = [''hello'']\<rparr>"
  "the_session 1 sample_state = clientSession_construct 8 ''::1''"
  "the_session (Suc 0) sample_state = clientSession_construct 8 ''::1''"
  by (simp_all add: sample_state_def the_session_def)

lemma sample_ready [simp]: "storage_ready sample_state"
  by (auto simp: storage_ready_def storage_ok_def users_ok_def inventory_ok_def logs_ok_def sample_state_def
      sql_nonempty_def c_string_def)

lemma sample_users [simp]:
  "user_known sample_state ''alice''" "user_of sample_state ''alice'' = Some (sample_user ''alice'')"
  "user_of sample_state ''admin'' = Some (sample_user ''admin'')"
  by (simp_all add: user_known_def user_of_def)

lemma sample_inv [simp]: "server_inv sample_state"
proof -
  have "storage_ok sample_state" using sample_ready by (simp add: storage_ready_def)
  then have "inventory_inv sample_state" by (simp add: inventory_inv_def cache_agrees_def sample_state_def)
  moreover have "registry_ok sample_state" by (auto simp: registry_ok_def sample_state_def)
  moreover have "\<forall>cs \<in> ran (session_store sample_state). session_ok sample_state cs"
    by (auto simp: sample_state_def session_ok_def user_known_def ran_def clientSession_construct_def split: if_splits)
  moreover have "locks_agree sample_state" by (simp add: locks_agree_def sample_state_def)
  ultimately have "sessions_inv sample_state" by (simp add: sessions_inv_def)
  then show ?thesis
    by (auto simp: server_inv_def referenced_def objects_def sample_state_def ThreadPool_construct_def
        busy_tasks_def busy_task_def split: if_splits)
qed

lemma sample_sessions_inv [simp]: "sessions_inv sample_state"
  using sample_inv by (simp add: server_inv_def)

lemma sample_inventory_inv [simp]: "inventory_inv sample_state"
  using sample_sessions_inv by (simp add: sessions_inv_def)

lemma sample_login [simp]:
  "map_of sample_texts ''login'' = Some login_request" "ref_value login_request ''command'' d = Inr ''login''"
  "ref_at login_request ''payload'' = Inr (JObject [(''hostname'', JString ''alice''), (''password'', JString ''alice'')])"
  "m_blockTimeSeconds sample_config = 900"
  by (simp_all add: sample_texts_def login_request_def sample_config_def)

lemma sample_array: "map_of sample_texts ''[]'' = Some (JArray [])"
  by (simp add: sample_texts_def)

lemma sample_2038_ready [simp]: "storage_ready sample_2038"
  by (auto simp: storage_ready_def storage_ok_def users_ok_def inventory_ok_def logs_ok_def sample_state_def
      sample_2038_def sql_nonempty_def c_string_def)

lemma sample_locked_inv [simp]: "sessions_inv sample_locked"
proof -
  have "inventory_inv sample_locked"
    by (auto simp: inventory_inv_def cache_agrees_def storage_ok_def users_ok_def inventory_ok_def logs_ok_def
        sample_locked_def sample_state_def sql_nonempty_def c_string_def)
  moreover have "registry_ok sample_locked" by (auto simp: registry_ok_def sample_locked_def sample_state_def)
  moreover have "\<forall>cs \<in> ran (session_store sample_locked). session_ok sample_locked cs"
    by (auto simp: sample_locked_def sample_state_def session_ok_def user_known_def ran_def clientSession_construct_def
        split: if_splits)
  moreover have "locks_agree sample_locked" by (simp add: locks_agree_def sample_locked_def sample_state_def)
  ultimately show ?thesis by (simp add: sessions_inv_def)
qed

lemma sample_locked_ready [simp]: "storage_ready sample_locked"
  using sample_locked_inv by (simp add: sessions_inv_def inventory_inv_def storage_ready_def sample_locked_def sample_state_def)

section \<open>The sample server starts\<close>

lemma sample_opened [simp]: "storage_ok (sample_state\<lparr>db_foreign_keys := True\<rparr>)"
  using sample_ready by (simp add: storage_ready_def storage_ok_def users_ok_def inventory_ok_def logs_ok_def)

lemma sample_config_read:
  "\<exists>cfg. Config_construct sample_yaml [''server''] None sample_config = Inr cfg \<and>
     m_unixSocketPath cfg = ''unix_socket_path''"
  by (simp add: Config_construct_def serverConfig_def validatePort_def databaseConfig_def securityConfig_def logConfig_def
      int_setting_def string_setting_def scalar_at_def sample_yaml_def MAX_PORT_def Let_def)

lemma start_ok_fields [simp]:
  fixes s :: "'z server_scheme"
  shows "start_ok (s\<lparr>m_serverTCPFD := a\<rparr>) = start_ok s" "start_ok (s\<lparr>m_serverUDPFD := a\<rparr>) = start_ok s"
    "start_ok (s\<lparr>m_serverUnixFD := a\<rparr>) = start_ok s" "start_ok (s\<lparr>m_epollFD := a\<rparr>) = start_ok s"
    "start_ok (s\<lparr>epoll_interest := i\<rparr>) = start_ok s" "start_ok (s\<lparr>unix_address := u\<rparr>) = start_ok s"
    "start_ok (s\<lparr>unlinked := l\<rparr>) = start_ok s"
  by (simp_all add: start_ok_def storage_ready_def storage_ok_def users_ok_def inventory_ok_def logs_ok_def user_known_def
      cong: option.case_cong)

lemma start_ok_epoll [simp]:
  assumes "start_ok s"
  shows "epoll_set fd m s = ((0, 0), s\<lparr>epoll_interest := AList.update fd m (epoll_interest s)\<rparr>)"
  using assms by (simp add: epoll_set_def start_ok_def)

lemma epoll_results_more:
  fixes s s' :: "'z server_scheme"
  shows "net.more s' = net.more s \<Longrightarrow> epoll_results s' = epoll_results s"
  by (cases s; cases s'; simp)

lemma start_ok_log [simp]: "start_ok s \<Longrightarrow> start_ok (Logger_log P cfg l c m ci s)"
  by (simp add: start_ok_def epoll_results_more [OF more_net.Logger_log_same])

lemma sample_setup:
  assumes "start_ok s" and "m_unixSocketPath cfg = ''unix_socket_path''"
  shows "\<exists>s'. setTCPConfig sample_platform cfg sample_env s = (Inr (), s') \<and> start_ok s'"
    and "\<exists>s'. setUDPConfig sample_platform cfg sample_env s = (Inr (), s') \<and> start_ok s'"
    and "\<exists>s'. setUNIXconfig sample_platform cfg sample_env s = (Inr (), s') \<and> start_ok s'"
  using assms
  by (simp_all add: setTCPConfig_def setUDPConfig_def setUNIXconfig_def sample_env_def Let_def SUN_PATH_SIZE_def)

lemma sample_server_construct:
  fixes s :: "'z server_scheme"
  assumes "start_ok s" and "m_unixSocketPath cfg = ''unix_socket_path''"
  shows "\<exists>s'. Server_construct sample_platform cfg sample_env s = (Inr (), s')"
proof -
  let ?s = "(Server_members s)\<lparr>m_epollFD := 6\<rparr>"
  have "start_ok ?s"
    using assms(1) by (simp add: Server_members_def start_ok_def storage_ready_def storage_ok_def users_ok_def inventory_ok_def logs_ok_def user_known_def
      cong: option.case_cong)
  then obtain s1 s2 s3 where "setTCPConfig sample_platform cfg sample_env ?s = (Inr (), s1)"
    "setUDPConfig sample_platform cfg sample_env s1 = (Inr (), s2)"
    "setUNIXconfig sample_platform cfg sample_env s2 = (Inr (), s3)" and s3: "start_ok s3"
    using sample_setup [OF _ assms(2)] by blast
  moreover have "userExists ''admin'' s3 = (Inr True, s3)"
    using s3 count_key_distinct [of u_hostname "db_users s3" "''admin''"]
    by (simp add: start_ok_def userExists_def sql_on_ready user_known_def)
      (simp add: storage_ready_def storage_ok_def users_ok_def)
  moreover have "e_epoll sample_env = 6" by (simp add: sample_env_def)
  ultimately show ?thesis by (simp add: Server_construct_def setupServer_def Let_def)
qed

interpretation start_file: file_insensitive start_ok
  by unfold_locales
    (simp_all add: start_ok_def storage_ready_def storage_ok_def users_ok_def inventory_ok_def logs_ok_def user_known_def
      cong: option.case_cong)

lemma sample_reporter: "TrafficReporter_construct sample_state = sample_state"
  by (simp add: TrafficReporter_construct_def sample_state_def)

lemma sample_startup:
  "\<exists>cfg s'. startup sample_platform sample_yaml [''server''] None sample_config sample_env sample_state = (Inr cfg, s')"
proof -
  obtain cfg where cfg: "Config_construct sample_yaml [''server''] None sample_config = Inr cfg"
    "m_unixSocketPath cfg = ''unix_socket_path''"
    using sample_config_read by blast
  let ?s2 = "sample_state\<lparr>db_foreign_keys := True, db_tables := {LogsTable, InventoryTable, UsersTable}\<rparr>"
  have tables: "db_tables sample_state = {LogsTable, InventoryTable, UsersTable}" using sample_ready by (auto simp: storage_ready_def)
  have "storage_ready ?s2"
    using sample_ready by (auto simp: storage_ready_def storage_ok_def users_ok_def inventory_ok_def logs_ok_def
      cong: option.case_cong)
  moreover have "seq_st (Storage_construct (TrafficReporter_construct sample_state)) (\<lambda>_ s. initializeSchema s) = (Inr (), ?s2)"
    by (simp add: sample_reporter Storage_construct_def initializeSchema_def sql_statement_def create_table_def tables insert_commute)
  ultimately obtain s2 where s2: "seq_st (Storage_construct (TrafficReporter_construct sample_state)) (\<lambda>_ s. initializeSchema s) = (Inr (), s2)" "start_ok s2"
    by (simp add: start_ok_def user_known_def)
  let ?open = "openLogFile sample_platform (m_logPath cfg) (s2\<lparr>m_logFile := None, m_fileEnabled := False\<rparr>)"
  let ?s3 = "Logger_log sample_platform cfg INFO ''Main'' ''Core services initialized.'' None (snd ?open)"
  have "start_ok (snd ?open)"
    by (simp add: start_file.openLogFile_same [OF prod.collapse [symmetric]] start_file.F_fields s2(2))
  then obtain s4 where "Server_construct sample_platform cfg sample_env ?s3 = (Inr (), s4)"
    using sample_server_construct [of ?s3 cfg] cfg(2) by auto
  with s2(1) show ?thesis
    by (auto simp: startup_def cfg Let_def split: prod.splits st_splits)
qed

end
