(* ===== verification/Witnesses.thy ===== *)
theory Witnesses
  imports Samples
begin

text \<open>
  Every property with a hypothesis, applied to the sample server (or to a small state of its
  own): the hypotheses can hold together, and what the property then says of a concrete run.
\<close>

section \<open>Inventory and accounts\<close>

theorem updateStock_refines_witness:
  "\<exists>r s'. Inventory_updateStock sample_platform sample_config ''alice'' ''food'' ''meat'' 5 sample_state = (Inr r, s') \<and>
    (usr_success r, stock_abs s') = spec_update ''alice'' ''food'' ''meat'' 5 (stock_abs sample_state) \<and> inventory_inv s'"
  by (rule updateStock_refines) (simp_all add: is_int32_def)

theorem getStock_transparent_witness:
  "fst (Inventory_getStock ''alice'' ''food'' ''meat'' sample_state) = Inr (stock_of sample_state ''alice'' ''food'' ''meat'')"
proof -
  obtain r s' where run: "Inventory_getStock ''alice'' ''food'' ''meat'' sample_state = (r, s')" by fastforce
  have "r = Inr (stock_of sample_state ''alice'' ''food'' ''meat'')"
    using getStock_transparent [OF sample_inventory_inv run] sample_ready by blast
  then show ?thesis by (simp only: run fst_conv)
qed

theorem getInventorySummary_exact_witness:
  "getInventorySummary sample_platform sample_config ''alice'' sample_state =
     (Inr None, snd (getInventorySummary sample_platform sample_config ''alice'' sample_state)) \<and>
   stock_of sample_state ''alice'' ''food'' ''meat'' = None"
proof -
  let ?g = "getInventorySummary sample_platform sample_config ''alice'' sample_state"
  have "fst ?g = Inr None"
    by (simp add: getInventorySummary_def getInventorySummaryFromCache_def getFullInventory_def sql_on_ready Let_def)
  then have run: "?g = (Inr None, snd ?g)" by (metis prod.collapse)
  from getInventorySummary_exact [OF sample_inventory_inv run] run show ?thesis by simp
qed

theorem updateStock_then_getStock_witness:
  "\<exists>r s'. Inventory_updateStock sample_platform sample_config ''alice'' ''food'' ''meat'' 5 sample_state = (Inr r, s') \<and>
    usr_success r \<and> Inventory_getStock ''alice'' ''food'' ''meat'' s' = (Inr (Some 5), s')"
proof -
  obtain r s' where run: "Inventory_updateStock sample_platform sample_config ''alice'' ''food'' ''meat'' 5 sample_state = (r, s')"
    by fastforce
  moreover have "\<exists>x. r = Inr x \<and> usr_success x"
    using run by (auto simp: Inventory_updateStock_def validateInventory_def s_validItems_def saveStockUpdate_def sql_on_ready
        sql_nonempty_def c_string_def Let_def split: if_splits)
  ultimately show ?thesis using updateStock_then_getStock [OF run] by auto
qed

theorem authenticate_refines_witness:
  "\<exists>st s'. authenticate sample_platform sample_config ''alice'' ''alice'' 900 sample_state = (Inr SUCCESS, s') \<and>
    user_of s' = (user_of sample_state)(''alice'' \<mapsto> row_after (sample_user ''alice'') st)"
  using authenticate_refines [OF sample_ready sample_users(2), of sample_platform sample_config "''alice''" 900]
  by (auto simp: is_int32_def)

theorem no_login_after_three_failures_witness:
  "Inr SUCCESS \<notin> set (fst (login_run sample_platform sample_config ''alice'' 900
     ([(1000, ''x''), (1001, ''y''), (1002, ''z'')] @ [(1003, ''alice'')]) sample_state))"
  by (rule no_login_after_three_failures [OF sample_ready sample_users(2), where ?t0.0 = 1000])
    (simp_all add: is_int32_def)

theorem lockout_lost_after_2038_witness:
  "\<exists>s'. authenticate sample_platform sample_config ''alice'' ''alice'' 900 sample_2038 = (Inr SUCCESS, s')"
  by (rule lockout_lost_after_2038
      [OF sample_2038_ready, where r = "(sample_user ''alice'')\<lparr>u_failed_attempts := 3, u_last_failed_timestamp := 2 ^ 31\<rparr>"])
    (simp_all add: sample_2038_def user_of_def)

section \<open>Sessions, events and alerts\<close>

theorem lock_unlock_effect_witness:
  "\<exists>s'. lockClient sample_platform sample_config ''alice'' sample_state = (Inr True, s') \<and>
     fst (isClientLocked ''alice'' s') = Inr True"
  using lock_unlock_effect [OF sample_sessions_inv sample_ready, of True sample_platform sample_config "''alice''"] by auto

theorem event_queue_keeps_newest_witness:
  "events_of (fold (pushEvent sample_platform sample_config ''alice'') [\<lparr>ev_type = NOTIFICATION, ev_message = ''run''\<rparr>] sample_state)
     ''bob'' = events_of sample_state ''bob''"
  using event_queue_keeps_newest [of sample_config sample_state "''alice''" sample_platform
      "[\<lparr>ev_type = NOTIFICATION, ev_message = ''run''\<rparr>]"]
  by (simp add: sample_config_def is_int32_def events_of_def Let_def)


theorem keepalive_registers_address_witness:
  "\<exists>s'. handleKeepalive sample_platform sample_config (JObject [(''clientId'', JString ''alice'')]) sample_address sample_state =
     (Inr (), s') \<and> getUdpAddress 0 s' = Some sample_address"
  using keepalive_registers_address [of sample_platform "JObject [(''clientId'', JString ''alice'')]" "''alice''" sample_state
      sample_config sample_address]
  by (auto simp: json_str_field_def getSession_def)


theorem malformed_alert_ignored_witness:
  "\<exists>s'. processAlert sample_platform sample_config ''[]'' sample_state = (Inr (), s') \<and> events_of s' = events_of sample_state"
  using malformed_alert_ignored [OF ref_json.json_api_axioms [of sample_texts], of "''[]''" sample_config sample_state]
  by (auto simp: sample_texts_def json_str_field_def)

section \<open>Commands\<close>

theorem command_isolation_witness:
  "user_of (snd (processCommand sample_platform sample_config update_request ''alice'' False sample_state)) = user_of sample_state"
  using command_isolation [of sample_platform sample_config update_request "''alice''" False sample_state, OF prod.collapse [symmetric]]
  by simp

theorem unlock_needs_phrase_witness:
  "locked_in ''alice'' sample_locked \<and>
   \<not> locked_in ''alice'' (snd (processCommand sample_platform sample_config unlock_request ''admin'' False sample_locked)) \<and>
   (\<exists>p. json_at sample_platform unlock_request ''payload'' = Inr p \<and>
     json_str_field sample_platform p ''secret_phrase'' = Inr (m_secretPhrase sample_config))"
proof -
  let ?run = "processCommand sample_platform sample_config unlock_request ''admin'' False sample_locked"
  have locked: "locked_in ''alice'' sample_locked" by (simp add: locked_in_def user_of_def sample_locked_def)
  have "\<not> locked_in ''alice'' (snd ?run)"
    by (simp add: processCommand_def handleUnlockClientCommand_def unlock_request_def json_str_field_def sample_config_def
        unlockClient_def setClientLockStatus_def sql_on_ready Let_def)
      (simp add: sample_locked_def locked_in_def user_of_def update_users_def)
  with unlock_needs_phrase [OF ref_json.json_api_axioms [of sample_texts] sample_locked_inv prod.collapse [symmetric] locked] locked
  show ?thesis by blast
qed

theorem update_stock_command_witness:
  "\<exists>m s'. processCommand sample_platform sample_config update_request ''alice'' False sample_state =
     (Inr (success_response sample_platform m), s') \<and> stock_of s' ''alice'' ''food'' ''meat'' = Some 5"
proof -
  obtain ok m s' where "processCommand sample_platform sample_config update_request ''alice'' False sample_state =
      (Inr (if ok then success_response sample_platform m else error_response sample_platform m), s')"
    "(ok, stock_abs s') = spec_update ''alice'' ''food'' ''meat'' 5 (stock_abs sample_state)"
    using update_stock_command [OF sample_sessions_inv sample_ready sample_users(1), of sample_platform update_request _
      "''food''" "''meat''" 5 sample_config]
    by (auto simp: update_request_def json_str_field_def json_int_field_def is_int32_def to_int32_def starts_with_def)
  moreover have "item_valid ''food'' ''meat''" by (simp add: item_valid_def s_validItems_def)
  ultimately show ?thesis by (auto simp: spec_update_def stock_abs_def fun_eq_iff)
qed

theorem get_stock_command_witness:
  "fst (processCommand sample_platform sample_config (JObject [(''command'', JString ''get_stock''),
     (''payload'', JObject [(''category'', JString ''food''), (''item'', JString ''meat'')])]) ''alice'' False sample_state) =
   Inr (error_response sample_platform ''Item not found for the specified client/category.'')"
  using get_stock_command [OF sample_sessions_inv sample_ready, of sample_platform "JObject [(''command'', JString ''get_stock''),
     (''payload'', JObject [(''category'', JString ''food''), (''item'', JString ''meat'')])]" _
      "''food''" "''meat''" sample_config "''alice''"]
  by (simp add: json_str_field_def stock_of_def)

section \<open>Client sessions\<close>

theorem login_sound_witness:
  "\<exists>q. user_of sample_state ''alice'' = Some q \<and> bcrypt_validatePassword sample_platform ''alice'' (u_password_hash q)"
proof -
  let ?run = "processMessage sample_platform sample_config 1 ''login'' sample_state"
  obtain l where l: "createLoggableRequest sample_platform login_request = Inr l"
    using loggable_request [OF ref_json.json_api_axioms, of sample_texts login_request] by blast
  let ?s = "Logger_log sample_platform sample_config DEBUG ''ClientSession'' (strcat [''Received message: '', ref_dump l]) None
    (incrementMessage ''tcp'' ''rx'' sample_state)"
  have "storage_ready ?s" "user_of ?s ''alice'' = Some (sample_user ''alice'')" by simp_all
  then obtain s' where "authenticate sample_platform sample_config ''alice'' ''alice'' 900 ?s = (Inr SUCCESS, s')"
    by (rule authenticate_step [where P = sample_platform and p = "''alice''" and block = 900]) (simp_all add: is_int32_def)
  then have "m_isAuthenticated (the_session 1 (snd ?run))"
    by (simp add: processMessage_def process_login_def json_str_field_def clientSession_construct_def
        login_response_def l)
  then show ?thesis
    using login_sound [OF prod.collapse [symmetric], of 1 sample_state sample_platform sample_config "''login''"]
    by (auto simp: json_str_field_def clientSession_construct_def)
qed


theorem authenticated_always_answered_witness:
  "\<exists>res s'. processMessage sample_platform sample_config 0 ''nonsense'' sample_state = (Inr res, s')"
  by (rule authenticated_always_answered [OF ref_json.json_api_axioms]) simp

theorem unauthenticated_changes_nothing_witness:
  "stock_of (snd (processMessage sample_platform sample_config 1 ''alert'' sample_state)) = stock_of sample_state"
  using unauthenticated_changes_nothing [OF prod.collapse [symmetric], of 1 sample_state sample_platform sample_config "''alert''"]
  by (simp add: clientSession_construct_def)

theorem disconnect_unregisters_witness:
  "\<exists>s'. clientSession_run sample_platform sample_config 0 (Inr []) None sample_state = (Inr False, s') \<and>
     \<not> isClientRegistered ''alice'' s'"
  using disconnect_unregisters [of 0 sample_state "''alice''" sample_platform sample_config None] by auto

theorem read_error_keeps_registration_witness:
  "\<exists>s'. clientSession_run sample_platform sample_config 0 (Inl 104) None sample_state = (Inr False, s') \<and>
     isClientRegistered ''alice'' s'"
  using read_error_keeps_registration [of 104 sample_platform sample_config 0 None sample_state]
  by (auto simp: EAGAIN_def EWOULDBLOCK_def isClientRegistered_def)

theorem queued_event_delivery_witness:
  "\<exists>s'. handleEventQueue sample_platform sample_config 0 None sample_state = (True, s') \<and>
     udp_out s' = [(sample_address, sockaddr_len sample_address, ''wake up'')]"
  using queued_event_delivery [of 0 sample_state "''alice''" "\<lparr>ev_type = NOTIFICATION, ev_message = ''wake up''\<rparr>" "[]"
      sample_platform sample_config]
  by (auto simp: events_of_def)


section \<open>The thread pool\<close>

lemma sample_pool_run:
  "pool_run (ThreadPool_construct 1) ([] @ [Enqueued ''task'']) (enqueueTask ''task'' (ThreadPool_construct 1))"
  by (intro pool_run.intros) (simp add: mutex_free_def ThreadPool_construct_def)

theorem tasks_fifo_no_loss_witness:
  "m_taskQueue (ThreadPool_construct 1) @ enqueued ([] @ [Enqueued ''task'']) =
     started ([] @ [Enqueued ''task'']) @ m_taskQueue (enqueueTask ''task'' (ThreadPool_construct 1))"
  using tasks_fifo_no_loss [OF sample_pool_run] by blast

theorem queued_task_not_stuck_witness:
  "\<exists>i r. pool_move i (enqueueTask ''task'' (ThreadPool_construct 1)) = Some r"
  by (rule queued_task_not_stuck [OF sample_pool_run]) (simp_all add: enqueueTask_def ThreadPool_construct_def)

theorem stop_terminates_witness:
  "\<exists>q :: task pool. pool_moves [0, 1] (stop_request (ThreadPool_construct 2)) = Some q \<and> all_joined q \<and>
     length [0, 1 :: nat] \<le> 3 * length (m_threads (ThreadPool_construct 2 :: task pool))"
proof -
  let ?p = "ThreadPool_construct 2 :: task pool"
  let ?q = "\<lparr>m_threads = [Exited, Exited], m_taskQueue = [], m_running = False\<rparr> :: task pool"
  have run: "pool_moves [0, 1] (stop_request ?p) = Some ?q"
    by (simp add: ThreadPool_construct_def stop_request_def notify_all_def pool_move_def workerThread_def set_worker_def
        numeral_2_eq_2)
  moreover have "mutex_free ?p" by (simp add: mutex_free_def ThreadPool_construct_def numeral_2_eq_2)
  ultimately show ?thesis using stop_terminates [of ?p "[0, 1]" ?q] by (simp add: all_joined_def)
qed

theorem stop_can_hang_witness:
  "\<exists>es q. pool_run (ThreadPool_construct THREAD_POOL_SIZE :: task pool) es q \<and> Stopped \<in> set es \<and>
    (\<forall>is r. pool_moves is q = Some r \<longrightarrow> \<not> all_joined r)"
  by (rule stop_can_hang) (simp add: THREAD_POOL_SIZE_def)

section \<open>The database and the configuration\<close>


theorem accepted_config_ok_witness:
  "config_ok (projr (Config_construct sample_yaml [''server''] None sample_config))"
proof -
  obtain cfg where cfg: "Config_construct sample_yaml [''server''] None sample_config = Inr cfg"
    using sample_config_read by blast
  show ?thesis
    by (rule accepted_config_ok [of "\<lambda>_. True" "[''server'']" sample_yaml None sample_config])
      (simp_all add: validateArguments_def cfg)
qed

section \<open>The server\<close>

theorem startup_ready_witness:
  "\<exists>cfg s'. startup sample_platform sample_yaml [''server''] None sample_config sample_env sample_state = (Inr cfg, s') \<and>
     config_ok cfg \<and> server_inv s'"
proof -
  obtain cfg s' where run: "startup sample_platform sample_yaml [''server''] None sample_config sample_env sample_state =
      (Inr cfg, s')"
    using sample_startup by blast
  have "validateArguments (\<lambda>_. True) [''server'']" by (simp add: validateArguments_def)
  then show ?thesis using startup_ready [OF _ run] run sample_opened by blast
qed

theorem uncaught_exceptions_witness:
  "\<exists>e. fst (exec_task sample_platform sample_config \<lparr>t_read = Inl 0, t_recv = Inr (''[]'', sample_address), t_late = None\<rparr>
     Udp_task sample_state) = Inl e \<and> is_json_exception e"
proof -
  let ?run = "exec_task sample_platform sample_config \<lparr>t_read = Inl 0, t_recv = Inr (''[]'', sample_address), t_late = None\<rparr>
    Udp_task sample_state"
  have exn: "fst ?run = Inl (JsonException 306)"
    by (simp add: exec_task_def UdpHandler_handleMessage_def sample_array BUFFER_SIZE_UDP_def c_string_def Let_def)
  then have "?run = (Inl (JsonException 306), snd ?run)" by (metis prod.collapse)
  from uncaught_exceptions [OF ref_json.json_api_axioms this] exn show ?thesis by simp
qed


theorem malformed_request_terminates_witness:
  "terminated (run_task sample_platform sample_config 0 \<lparr>t_read = Inr ''[]'', t_recv = Inl 0, t_late = None\<rparr> (Tcp_task 1 8) sample_state)"
  by (rule malformed_request_terminates [OF ref_json.json_api_axioms, where bytes = "''[]''" and request = "JArray []"])
    (simp_all add: clientSession_construct_def sample_array received_text_def c_string_def BUFFER_SIZE_def)

theorem closed_connection_forgotten_witness:
  "\<exists>s'. tcp_task sample_platform sample_config 1 8 \<lparr>t_read = Inr [], t_recv = Inl 0, t_late = None\<rparr> sample_state = (Inr (), s') \<and>
     8 \<in> set (fd_closes s') \<and> map_of (m_clientSessions s') 8 = None"
proof -
  let ?run = "clientSession_run sample_platform sample_config 1 (Inr []) None sample_state"
  have "fst ?run = Inr False" by (simp add: clientSession_run_def Let_def)
  then have "?run = (Inr False, snd ?run)" by (metis prod.collapse)
  then show ?thesis
    using closed_connection_forgotten [of sample_platform sample_config 1 "\<lparr>t_read = Inr [], t_recv = Inl 0, t_late = None\<rparr>"
        sample_state _ 8] by auto
qed



end
