(* ===== verification/Spec2Isabelle.thy ===== *)
theory Spec2Isabelle
  imports ClientWitnesses Witnesses
begin

text \<open>
  \<^bold>\<open>The program.\<close>  A logistics system of two programs: a server in C++ (src/src/server) that
  keeps the stock of warehouses in an SQLite database, and a client in C (src/src/client) with
  which a user logs in, reads and updates the stock and receives alerts.  They exchange JSON
  texts over TCP (requests and answers) and UDP (keepalives of the clients, alerts of the
  server); sensors send alerts to the server over a local socket.  The client uses the library
  cJSON, which is part of the repository (src/external/cJSON).

  The main thread of the server waits for events with epoll, accepts connections and hands
  everything else as tasks to a pool of threads.  A task of a connection reads a message, logs
  the user in or executes a command on the inventory, writes the answer and sends one queued
  alert; a task of the UDP socket handles a keepalive; a task of the local socket locks the
  client the alert names, broadcasts the alert and queues it for the users that are offline.

  \<^bold>\<open>The state.\<close>  The objects of the server refer to each other, so their members are one
  extensible record that grows with the layers: database (Storage), log (Logger), counters
  (Traffic), cache (Inventory), sessions (Sessions), event queues (EventQueue), sockets
  (UdpHandler), main thread and pool (Server).  An operation of a component is polymorphic in
  the rest of the record.  Exceptions are values: a call returns a pair of \<open>exn + 'a\<close> and the
  state, and \<open>seq_st\<close> and \<open>catch_st\<close> of the theory Prelude are the sequence and the try block.
  What the database engine, the kernel and the file system answer is in the state as a
  schedule, a list from which each call takes the next answer; an empty list means success.
  The theorems are for arbitrary schedules unless they ask for a state without failures
  (\<open>storage_ready\<close>).

  \<^bold>\<open>Parameters.\<close>  Code that is not in the repository is in the record \<open>platform\<close> (theory
  Platform): the JSON library of the server, bcrypt, the order in which SQLite returns rows and
  containers are traversed, gzip.  What the code relies on are the locales \<open>json_api\<close>,
  \<open>bcrypt_api\<close>, \<open>order_by_api\<close>, \<open>set_order_api\<close> and \<open>gzip_api\<close>, all interpreted on the concrete
  platform of the theory Reference_Platform.  The YAML library is an argument of Config.  The
  kernel's answers to the set-up of the server are the record \<open>setup_env\<close> and to that of the
  client the record \<open>main_env\<close>.

  \<^bold>\<open>The server.\<close>  Each theory has one component, with the names of the source.
  \<^item> Config (config.cpp, configValidator.cpp): the command line, the YAML file, the environment;
    \<^verbatim>\<open>std::stoi\<close> is written out.  An accepted configuration is usable (C28).
  \<^item> Storage (storage.cpp): the three tables with their constraints and every statement, and the
    invariant \<open>storage_ok\<close> that every operation keeps; the history is complete and sorted (C27).
  \<^item> Logger and Calendar (logger.cpp): entries, the log file, rotation and compression; the date
    is computed from the seconds and shown to be right.
  \<^item> Traffic (trafficReporter.cpp): the counters of messages, errors and reconnections.
  \<^item> Authenticator (authenticator.cpp): \<open>authenticate\<close> refines the automaton \<open>auth_spec\<close> of failures
    and blocking times (C3); after three failures nobody gets in within the blocking time (C5);
    the time of a failure does not fit its type after 2038 (C34).
  \<^item> Inventory (inventory.cpp): the cache is invisible (C16) and \<open>updateStock\<close> refines an update of
    a table with a catalogue (C2); both follow from the locale \<open>stock_store\<close>.
  \<^item> Sessions (sessionManager.cpp), EventQueue (eventQueue.cpp): registered and offline users,
    locks, and queues that keep the newest events (C13, from the locale \<open>bounded_fifo\<close>).
  \<^item> UdpHandler (udpHandler.cpp), Alerts (alertManager.cpp, ipcHandler.cpp): keepalives,
    broadcasts (C17), alerts that lock clients (C7).
  \<^item> Commands (commandProcessor.cpp), ClientSession (clientSession.cpp): what a message can do.
    Only a right password authenticates (C4), passwords are not logged (C26), an unauthenticated
    client changes nothing (C20), a command changes only the stock of its client (C14), only the
    administrator with the phrase unlocks (C6), an authenticated client always gets an answer
    (C19), queued alerts (C29), pending messages (C35).
  \<^item> ThreadPool (threadPool.cpp): the pool at the level of mutex and condition variable, as a
    transition system.  Tasks are neither lost nor reordered (C8), no wakeup of a queued task is
    missed (C15), the pool ends after a stop (C18) unless the stop comes between the predicate and
    the wait of a worker (C31).
  \<^item> Server and ServerSteps (server.cpp, main.cpp): set-up, event loop, tasks and shutdown.  The
    inductive relation \<open>server_step\<close> interleaves events, steps of the workers, tasks, signals and
    the clock.  The start leaves a server that is ready (C24); the invariant of all components
    holds in every reachable state (C1); what can end the process (C25, C30); descriptors that are
    closed twice (C32) and sessions with two tasks (C33).

  \<^bold>\<open>The client.\<close>
  \<^item> ClientCore (client_context.c, logger.c, input_handler.c, ipc_handler.c) and ClientLoop
    (output_handler.c, session_handler.c, transport.c, udp_handler.c, client.c, main.c): the state
    is the record \<open>client\<close>; a result \<open>None\<close> is undefined behaviour, a read through a null pointer.
    The auxiliary threads are functions of the number of their turns.
  \<^item> ClientProps: the request for a line has the words of the line (C23), logins (C36), messages to
    the dashboard (C37), keepalives (C38).
  \<^item> ClientRun: a whole run sends only requests and releases what it holds (C21).

  \<^bold>\<open>cJSON.\<close>
  \<^item> Decimal and Doubles: numbers in texts, and the C type \<^verbatim>\<open>double\<close> with exact rationals.
  \<^item> CJson and RoundTrip: the parser and the printer on trees, and that what is printed is read
    back (C9).  The recursion of the parser is on the nesting limit, and the loops over the
    elements have the length of the rest of the text as their fuel: each turn takes a character
    (\<open>array_loop_fuel\<close> and \<open>object_loop_fuel\<close>: more fuel changes nothing).
  \<^item> CJsonEdit and CJsonCopy: the rest of the interface on trees.  Parsed trees are well typed
    (C22), copies compare equal (C39), formatted and unformatted text agree without white space
    (C40).
  \<^item> CJsonHeap: the doubly linked lists of items with their pointers; editing refines lists (C11),
    and deleting ends and frees every item once (C12).  \<open>cJSON_Delete\<close> is a partial function, and
    that it has a result is part of the theorem.  CJsonReference adds items that share the children
    of another one; deleting such an item frees it alone (\<open>reference_freed_alone\<close>).
  \<^item> CJsonBuffer: the memory the printer writes to; it never writes outside, and the text is the
    one of the printer on trees (C10).

  \<^bold>\<open>The library.\<close>  Prelude has the sequencing of calls with its rules and the generic lemmas.
  The locales \<open>file_insensitive\<close>, \<open>log_insensitive\<close>, \<open>traffic_insensitive\<close>, \<open>user_insensitive\<close>,
  \<open>stock_insensitive\<close>, \<open>cache_insensitive\<close>, \<open>command_insensitive\<close>, \<open>login_insensitive\<close>,
  \<open>alert_insensitive\<close> and \<open>net_insensitive\<close> say what a function of the state must not depend on so
  that logging, counting, a database operation or a whole component leaves it alone; each field
  and each invariant is an interpretation.  Samples, Witnesses and ClientWitnesses apply
  every property that has hypotheses to a concrete state.

  \<^bold>\<open>Bounds.\<close>  Integers of the source that can wrap are kept at their width: \<open>to_int32\<close> for the
  columns read with \<^verbatim>\<open>getInt\<close>, 32-bit words for the events of epoll, saturation for the integers
  of cJSON.  Counters and identifiers that only count up are natural numbers.

  \<^bold>\<open>Not modelled.\<close>  The threads of the server interleave at the level of tasks and of the
  operations of the pool; data races inside a task (on the maps of Server, TrafficReporter and
  EventQueue, which the source does not protect) have no meaning in C++ and none here.  Texts
  that the server prints for its operator are left out, except the error stream of the logger;
  those of the client are kept.  Memory is
  always available.  The registry and the HTTP server of Prometheus are outside the repository;
  only whether the start throws matters.  In cJSON references to strings, the replacement of
  malloc and free, the version and the position of the last error are left out: the client uses
  none of them.  A
  \<^verbatim>\<open>double\<close> has no sign of zero.  The Python scripts (dashboard, sensor simulator, backup) and the
  configuration of the deployment are other programs.
\<close>

section \<open>The whole server\<close>



end
